(* ===== verification/Prelude.thy ===== *)
theory Prelude
  imports Complex_Main "HOL-Library.List_Lexorder" "HOL-Library.Char_ord"
    "HOL-Library.Product_Lexorder" "HOL-Library.Sublist"
begin

text \<open>
  Shared vocabulary of the development.

  \<^item> Results: an operation of the code that may raise is a function into \<open>'e + 'a\<close>
    (\<open>Inl\<close> the exception); an operation that also reads or writes the program state
    returns a pair of such a sum and the new state, so that what was committed before an
    exception is kept.  \<open>check\<close> runs a guard that does not write, \<open>bindR\<close> a step
    that does.
  \<^item> Tables: a database table is the list of its rows in insertion order;
    \<open>get_by_key\<close> is a primary-key lookup, \<open>scalar_one_or_none\<close> is SQLAlchemy's
    result accessor of that name (it raises on a second row), \<open>update_where\<close>,
    \<open>delete_where\<close> and \<open>insert_row\<close> are the statements of those names.
  \<^item> Transition systems: the locale \<open>step_system\<close> lifts an invariant of one
    step to all reachable states; the components with state interpret it.
\<close>

named_theorems result_simps \<open>unfolding of the result combinators\<close>
named_theorems table_simps \<open>facts about rows after a statement\<close>

section \<open>Results\<close>

type_synonym ('e, 'a) outcome = "'e + 'a"
type_synonym ('e, 'a, 's) effect = "('e + 'a) \<times> 's"

definition ret :: "'a \<Rightarrow> 's \<Rightarrow> ('e, 'a, 's) effect" where
  "ret x s = (Inr x, s)"

definition raise :: "'e \<Rightarrow> 's \<Rightarrow> ('e, 'a, 's) effect" where
  "raise e s = (Inl e, s)"

definition bindR :: "('e, 'a, 's) effect \<Rightarrow> ('a \<Rightarrow> 's \<Rightarrow> ('e, 'b, 's) effect) \<Rightarrow> ('e, 'b, 's) effect" where
  "bindR m k = (case fst m of Inl e \<Rightarrow> (Inl e, snd m) | Inr x \<Rightarrow> k x (snd m))"

definition check :: "('e, 'a) outcome \<Rightarrow> 's \<Rightarrow> ('a \<Rightarrow> ('e, 'b, 's) effect) \<Rightarrow> ('e, 'b, 's) effect" where
  "check c s k = (case c of Inl e \<Rightarrow> (Inl e, s) | Inr x \<Rightarrow> k x)"

definition bindE :: "('e, 'a) outcome \<Rightarrow> ('a \<Rightarrow> ('e, 'b) outcome) \<Rightarrow> ('e, 'b) outcome" where
  "bindE c k = (case c of Inl e \<Rightarrow> Inl e | Inr x \<Rightarrow> k x)"

definition ensure :: "bool \<Rightarrow> 'e \<Rightarrow> ('e, unit) outcome" where
  "ensure b e = (if b then Inr () else Inl e)"

lemma bindR_ret [simp, result_simps]: "bindR (ret x s) k = k x s"
  by (simp add: bindR_def ret_def)

lemma bindR_raise [simp, result_simps]: "bindR (raise e s) k = raise e s"
  by (simp add: bindR_def raise_def)

lemma bindR_Inr [simp, result_simps]: "bindR (Inr x, s) k = k x s"
  by (simp add: bindR_def)

lemma bindR_Inl [simp, result_simps]: "bindR (Inl e, s) k = (Inl e, s)"
  by (simp add: bindR_def)

lemma check_Inr [simp, result_simps]: "check (Inr x) s k = k x"
  by (simp add: check_def)

lemma check_Inl [simp, result_simps]: "check (Inl e) s k = (Inl e, s)"
  by (simp add: check_def)

lemma bindE_Inr [simp, result_simps]: "bindE (Inr x) k = k x"
  by (simp add: bindE_def)

lemma bindE_Inl [simp, result_simps]: "bindE (Inl e) k = Inl e"
  by (simp add: bindE_def)

lemma ensure_Inr_iff [simp, result_simps]: "ensure b e = Inr u \<longleftrightarrow> b"
  by (simp add: ensure_def)

lemma ensure_Inl_iff [simp, result_simps]: "ensure b e = Inl e' \<longleftrightarrow> \<not> b \<and> e' = e"
  by (auto simp: ensure_def)

lemma ensure_True [simp]: "ensure True e = Inr ()"
  by (simp add: ensure_def)

lemma ensure_False [simp]: "ensure False e = Inl e"
  by (simp add: ensure_def)

lemma bindE_Inr_iff: "bindE c k = Inr y \<longleftrightarrow> (\<exists>x. c = Inr x \<and> k x = Inr y)"
  by (cases c) auto

lemma check_eq_InrD:
  assumes "check c s k = (Inr y, s')"
  obtains x where "c = Inr x" and "k x = (Inr y, s')"
  using assms by (cases c) auto

lemma bindR_eq_InrD:
  assumes "bindR m k = (Inr y, s')"
  obtains x s1 where "m = (Inr x, s1)" and "k x s1 = (Inr y, s')"
  using assms by (cases m; cases "fst m") (auto simp: bindR_def)

lemma ret_eq [simp]: "ret x s = (r, s') \<longleftrightarrow> r = Inr x \<and> s' = s"
  by (auto simp: ret_def)

lemma raise_eq [simp]: "raise e s = (r, s') \<longleftrightarrow> r = Inl e \<and> s' = s"
  by (auto simp: raise_def)

lemma snd_check: "snd (check c s k) = (case c of Inl e \<Rightarrow> s | Inr x \<Rightarrow> snd (k x))"
  by (cases c) auto

text \<open>What every branch of a step preserves, the composition preserves.\<close>

lemma check_state:
  assumes "P s" and "\<And>x. c = Inr x \<Longrightarrow> P (snd (k x))"
  shows "P (snd (check c s k))"
  using assms by (cases c) auto

lemma bindR_state:
  assumes "P (snd m)" and "\<And>x. fst m = Inr x \<Longrightarrow> P (snd (k x (snd m)))"
  shows "P (snd (bindR m k))"
  using assms by (cases "fst m") (auto simp: bindR_def)

lemma snd_ret [simp]: "snd (ret x s) = s"
  by (simp add: ret_def)

lemma snd_raise [simp]: "snd (raise e s) = s"
  by (simp add: raise_def)

lemma fst_ret [simp]: "fst (ret x s) = Inr x"
  by (simp add: ret_def)

lemma fst_raise [simp]: "fst (raise e s) = Inl e"
  by (simp add: raise_def)

section \<open>Rows and statements\<close>

definition get_by_key :: "('r \<Rightarrow> 'k) \<Rightarrow> 'k \<Rightarrow> 'r list \<Rightarrow> 'r option" where
  "get_by_key key k rows = find (\<lambda>r. key r = k) rows"

definition scalar_one_or_none :: "'e \<Rightarrow> 'r list \<Rightarrow> ('e, 'r option) outcome" where
  "scalar_one_or_none multiple rows =
     (case rows of [] \<Rightarrow> Inr None | [r] \<Rightarrow> Inr (Some r) | _ \<Rightarrow> Inl multiple)"

definition update_where :: "('r \<Rightarrow> bool) \<Rightarrow> ('r \<Rightarrow> 'r) \<Rightarrow> 'r list \<Rightarrow> 'r list" where
  "update_where P f rows = map (\<lambda>r. if P r then f r else r) rows"

definition delete_where :: "('r \<Rightarrow> bool) \<Rightarrow> 'r list \<Rightarrow> 'r list" where
  "delete_where P rows = filter (\<lambda>r. \<not> P r) rows"

definition insert_row :: "('r \<Rightarrow> 'k) \<Rightarrow> 'r \<Rightarrow> 'r list \<Rightarrow> 'r list option" where
  "insert_row key r rows = (if key r \<in> set (map key rows) then None else Some (rows @ [r]))"

definition count_where :: "('r \<Rightarrow> bool) \<Rightarrow> 'r list \<Rightarrow> nat" where
  "count_where P rows = length (filter P rows)"

definition unique_key :: "('r \<Rightarrow> 'k) \<Rightarrow> 'r list \<Rightarrow> bool" where
  "unique_key key rows \<longleftrightarrow> distinct (map key rows)"

definition offset_limit :: "nat \<Rightarrow> nat \<Rightarrow> 'a list \<Rightarrow> 'a list" where
  "offset_limit offset limit xs = take limit (drop offset xs)"

lemma get_by_key_Nil [simp, table_simps]: "get_by_key key k [] = None"
  by (simp add: get_by_key_def)

lemma get_by_key_Cons [simp, table_simps]:
  "get_by_key key k (r # rows) = (if key r = k then Some r else get_by_key key k rows)"
  by (simp add: get_by_key_def)

lemma get_by_key_Some_key: "get_by_key key k rows = Some r \<Longrightarrow> key r = k \<and> r \<in> set rows"
  by (auto simp: get_by_key_def find_Some_iff)

lemma get_by_key_None_iff: "get_by_key key k rows = None \<longleftrightarrow> k \<notin> key ` set rows"
  by (auto simp: get_by_key_def find_None_iff)

lemma get_by_key_append:
  "get_by_key key k (xs @ ys) =
     (case get_by_key key k xs of None \<Rightarrow> get_by_key key k ys | Some r \<Rightarrow> Some r)"
  by (induction xs) auto

lemma get_by_key_mem:
  "unique_key key rows \<Longrightarrow> r \<in> set rows \<Longrightarrow> get_by_key key (key r) rows = Some r"
  by (induction rows) (auto simp: unique_key_def)

text \<open>On a unique key, what some row of a key satisfies, the row looked up satisfies.\<close>

lemma get_by_key_Ex:
  assumes "unique_key key rows"
  shows "(\<exists>r \<in> set rows. key r = k \<and> P r) \<longleftrightarrow>
     (case get_by_key key k rows of None \<Rightarrow> False | Some r \<Rightarrow> P r)"
proof (cases "get_by_key key k rows")
  case None
  then have "\<forall>r \<in> set rows. key r \<noteq> k" by (auto simp: get_by_key_None_iff)
  with None show ?thesis by auto
next
  case (Some x)
  then have x: "x \<in> set rows" "key x = k" by (auto dest: get_by_key_Some_key)
  have "r = x" if "r \<in> set rows" "key r = k" for r
    using assms that x by (auto simp: unique_key_def distinct_map dest: inj_onD)
  then have "(\<exists>r \<in> set rows. key r = k \<and> P r) = P x"
    using x by blast
  with Some show ?thesis by simp
qed

lemma get_by_key_update_where:
  assumes "\<And>r. key (f r) = key r"
  shows "get_by_key key k (update_where P f rows) =
     map_option (\<lambda>r. if P r then f r else r) (get_by_key key k rows)"
  using assms by (induction rows) (auto simp: update_where_def)

lemma get_by_key_delete_other:
  assumes "\<And>r. key r = k \<Longrightarrow> \<not> P r"
  shows "get_by_key key k (delete_where P rows) = get_by_key key k rows"
  using assms by (induction rows) (auto simp: delete_where_def)

lemma get_by_key_delete_same:
  assumes "\<And>r. key r = k \<Longrightarrow> P r"
  shows "get_by_key key k (delete_where P rows) = None"
  using assms by (induction rows) (auto simp: delete_where_def)

lemma map_key_update_where [table_simps]:
  assumes "\<And>r. P r \<Longrightarrow> key (f r) = key r"
  shows "map key (update_where P f rows) = map key rows"
  using assms by (auto simp: update_where_def)

lemma unique_key_update_where:
  assumes "\<And>r. P r \<Longrightarrow> key (f r) = key r" and "unique_key key rows"
  shows "unique_key key (update_where P f rows)"
  using assms by (simp add: unique_key_def map_key_update_where)

lemma image_key_update_where:
  assumes "\<And>r. P r \<Longrightarrow> key (f r) = key r"
  shows "key ` set (update_where P f rows) = key ` set rows"
  using map_key_update_where [of P key f rows, OF assms] by (metis list.set_map)

lemma distinct_map_filter_rows: "distinct (map f xs) \<Longrightarrow> distinct (map f (filter P xs))"
  by (induction xs) auto

lemma unique_key_delete_where: "unique_key key rows \<Longrightarrow> unique_key key (delete_where P rows)"
  by (simp add: unique_key_def delete_where_def distinct_map_filter_rows)

lemma unique_key_insert_row:
  "unique_key key rows \<Longrightarrow> insert_row key r rows = Some rows' \<Longrightarrow> unique_key key rows'"
  by (auto simp: unique_key_def insert_row_def split: if_splits)

lemma unique_key_snoc:
  "unique_key key (rows @ [r]) \<longleftrightarrow> unique_key key rows \<and> key r \<notin> key ` set rows"
  by (auto simp: unique_key_def)

lemma insert_row_Some:
  "insert_row key r rows = Some rows' \<longleftrightarrow> key r \<notin> key ` set rows \<and> rows' = rows @ [r]"
  by (auto simp: insert_row_def)

lemma count_where_snoc [simp, table_simps]:
  "count_where P (rows @ [r]) = count_where P rows + (if P r then 1 else 0)"
  by (simp add: count_where_def)

lemma count_where_append [simp, table_simps]:
  "count_where P (xs @ ys) = count_where P xs + count_where P ys"
  by (simp add: count_where_def)

lemma count_where_Nil [simp, table_simps]: "count_where P [] = 0"
  by (simp add: count_where_def)

lemma count_where_Cons [simp, table_simps]:
  "count_where P (r # rows) = (if P r then 1 else 0) + count_where P rows"
  by (simp add: count_where_def)

lemma count_where_pos: "0 < count_where P rows \<longleftrightarrow> (\<exists>r \<in> set rows. P r)"
  by (induction rows) auto

lemma count_where_zero: "count_where P rows = 0 \<longleftrightarrow> (\<forall>r \<in> set rows. \<not> P r)"
  by (induction rows) auto

lemma update_where_Nil [simp, table_simps]: "update_where P f [] = []"
  by (simp add: update_where_def)

lemma update_where_Cons [simp, table_simps]:
  "update_where P f (r # rows) = (if P r then f r else r) # update_where P f rows"
  by (simp add: update_where_def)

lemma length_update_where [simp, table_simps]: "length (update_where P f rows) = length rows"
  by (simp add: update_where_def)

lemma set_update_where:
  "r' \<in> set (update_where P f rows) \<longleftrightarrow>
     (\<exists>r \<in> set rows. r' = (if P r then f r else r))"
  by (auto simp: update_where_def)

lemma update_where_compose:
  assumes "\<And>r. P (f r) = P r"
  shows "update_where P g (update_where P f rows) = update_where P (\<lambda>r. g (f r)) rows"
  using assms by (simp add: update_where_def)

lemma delete_where_Nil [simp, table_simps]: "delete_where P [] = []"
  by (simp add: delete_where_def)

lemma delete_where_Cons [simp, table_simps]:
  "delete_where P (r # rows) = (if P r then delete_where P rows else r # delete_where P rows)"
  by (simp add: delete_where_def)

lemma set_delete_where [simp, table_simps]: "set (delete_where P rows) = {r \<in> set rows. \<not> P r}"
  by (auto simp: delete_where_def)

lemma count_where_delete_other:
  "(\<And>r. r \<in> set rows \<Longrightarrow> P r \<Longrightarrow> \<not> Q r) \<Longrightarrow> count_where P (delete_where Q rows) = count_where P rows"
  by (induction rows) auto

lemma count_where_update_other:
  "(\<And>r. r \<in> set rows \<Longrightarrow> Q r \<Longrightarrow> P (f r) = P r)
     \<Longrightarrow> count_where P (update_where Q f rows) = count_where P rows"
  by (induction rows) auto

lemma count_where_update_mono:
  "(\<And>r. r \<in> set rows \<Longrightarrow> Q r \<Longrightarrow> P r \<Longrightarrow> P (f r))
     \<Longrightarrow> count_where P rows \<le> count_where P (update_where Q f rows)"
  by (induction rows) (auto intro: le_SucI)

lemma unique_key_eq:
  "unique_key key rows \<Longrightarrow> r \<in> set rows \<Longrightarrow> r' \<in> set rows \<Longrightarrow> key r = key r' \<Longrightarrow> r = r'"
  by (auto simp: unique_key_def distinct_map dest: inj_onD)

lemma update_where_none: "(\<And>r. r \<in> set rows \<Longrightarrow> \<not> P r) \<Longrightarrow> update_where P f rows = rows"
  by (induction rows) auto

lemma delete_where_none: "(\<And>r. r \<in> set rows \<Longrightarrow> \<not> P r) \<Longrightarrow> delete_where P rows = rows"
  by (induction rows) auto

text \<open>A statement on one key changes a count by at most one.\<close>

lemma count_where_update_key:
  assumes "unique_key key rows"
  shows "count_where P rows \<le> Suc (count_where P (update_where (\<lambda>r. key r = k) f rows))"
  using assms
proof (induction rows)
  case (Cons r rows)
  have "update_where (\<lambda>r. key r = k) f rows = rows" if "key r = k"
    using that Cons.prems by (auto simp: unique_key_def intro!: update_where_none) (metis image_eqI)
  with Cons show ?case by (auto simp: unique_key_def)
qed simp

lemma count_where_delete_key:
  assumes "unique_key key rows"
  shows "count_where P rows \<le> Suc (count_where P (delete_where (\<lambda>r. key r = k) rows))"
  using assms
proof (induction rows)
  case (Cons r rows)
  have "delete_where (\<lambda>r. key r = k) rows = rows" if "key r = k"
    using that Cons.prems by (auto simp: unique_key_def intro!: delete_where_none) (metis image_eqI)
  with Cons show ?case by (auto simp: unique_key_def)
qed simp

lemma filter_update_where:
  assumes "\<And>r. Q r \<Longrightarrow> \<not> P r \<and> \<not> P (f r)"
  shows "filter P (update_where Q f rows) = filter P rows"
  using assms by (induction rows) auto

lemma filter_delete_where:
  assumes "\<And>r. Q r \<Longrightarrow> \<not> P r"
  shows "filter P (delete_where Q rows) = filter P rows"
  using assms by (induction rows) auto

lemma get_by_key_map:
  "(\<And>r. key (g r) = key r) \<Longrightarrow> get_by_key key k (map g rows) = map_option g (get_by_key key k rows)"
  by (induction rows) auto

text \<open>On a unique key an UPDATE of one key is an update of one row.\<close>

lemma update_where_row:
  assumes "unique_key key rows" and "x \<in> set rows"
  shows "update_where (\<lambda>r. key r = key x) f rows = map (\<lambda>r. if r = x then f x else r) rows"
  using assms unique_key_eq [OF assms(1)] by (auto simp: update_where_def)

lemma filter_unique_key:
  assumes "unique_key key rows"
  shows "filter (\<lambda>r. key r = k) rows =
     (case get_by_key key k rows of None \<Rightarrow> [] | Some r \<Rightarrow> [r])"
  using assms
proof (induction rows)
  case Nil
  then show ?case by simp
next
  case (Cons r rows)
  then have IH: "filter (\<lambda>r. key r = k) rows =
     (case get_by_key key k rows of None \<Rightarrow> [] | Some r \<Rightarrow> [r])"
    by (simp add: unique_key_def)
  have "key r = k \<Longrightarrow> get_by_key key k rows = None"
    using Cons.prems by (auto simp: unique_key_def get_by_key_None_iff)
  with IH show ?case by auto
qed

text \<open>
  On a table whose key is unique the raising accessor never raises: it is the key lookup.
\<close>

lemma scalar_one_or_none_unique:
  assumes "unique_key key rows"
  shows "scalar_one_or_none e (filter (\<lambda>r. key r = k) rows) = Inr (get_by_key key k rows)"
  by (simp add: scalar_one_or_none_def filter_unique_key [OF assms] split: option.split)

lemma scalar_one_or_none_Inl_iff:
  "scalar_one_or_none e rows = Inl e' \<longleftrightarrow> e' = e \<and> 2 \<le> length rows"
  by (auto simp: scalar_one_or_none_def split: list.splits)

lemma scalar_one_or_none_None_iff:
  "scalar_one_or_none e rows = Inr None \<longleftrightarrow> rows = []"
  by (auto simp: scalar_one_or_none_def split: list.splits)

lemma scalar_one_or_none_Some_iff:
  "scalar_one_or_none e rows = Inr (Some r) \<longleftrightarrow> rows = [r]"
  by (auto simp: scalar_one_or_none_def split: list.splits)

lemma scalar_one_or_none_filter:
  "scalar_one_or_none e (filter P rows) = Inr (Some r) \<Longrightarrow> r \<in> set rows \<and> P r"
  by (auto simp: scalar_one_or_none_Some_iff dest!: arg_cong [where f = set])

lemma length_offset_limit: "length (offset_limit offset limit xs) \<le> limit"
  by (simp add: offset_limit_def)

lemma set_offset_limit: "set (offset_limit offset limit xs) \<subseteq> set xs"
  by (auto simp: offset_limit_def dest: in_set_takeD in_set_dropD)

section \<open>Transition systems\<close>

text \<open>
  A component with state is a set of initial states and a step relation.  The contract of
  an invariant is its two premises; that it holds in every reachable state follows once.
\<close>

locale step_system =
  fixes init :: "'s \<Rightarrow> bool" and step :: "'s \<Rightarrow> 's \<Rightarrow> bool" and inv :: "'s \<Rightarrow> bool"
  assumes inv_init: "init s \<Longrightarrow> inv s"
    and inv_step: "inv s \<Longrightarrow> step s t \<Longrightarrow> inv t"
begin

lemma inv_rtranclp: "step\<^sup>*\<^sup>* s t \<Longrightarrow> inv s \<Longrightarrow> inv t"
  by (induction rule: rtranclp_induct) (auto intro: inv_step)

lemma inv_reachable: "init s \<Longrightarrow> step\<^sup>*\<^sup>* s t \<Longrightarrow> inv t"
  by (blast intro: inv_rtranclp inv_init)

end

end
