(* ===== verification/Strings.thy ===== *)
theory Strings
  imports Prelude
begin

text \<open>
  The \<open>str\<close> methods the code calls, on byte strings: \<open>split\<close> on one character
  or on a text, \<open>replace\<close>,
  \<open>partition\<close> and \<open>rpartition\<close>, \<open>join\<close>, \<open>lower\<close>, \<open>strip\<close>, slicing, the
  search of a marker, the decimal rendering of an integer and \<open>repr\<close>.  Case folding and
  white space are those of ASCII; every other byte is left as it is.
\<close>

section \<open>Splitting and joining\<close>

fun str_split :: "char \<Rightarrow> string \<Rightarrow> string list" where
  "str_split c [] = [[]]"
| "str_split c (x # xs) =
     (if x = c then [] # str_split c xs
      else (case str_split c xs of [] \<Rightarrow> [[x]] | y # ys \<Rightarrow> (x # y) # ys))"

fun str_join :: "string \<Rightarrow> string list \<Rightarrow> string" where
  "str_join sep [] = []"
| "str_join sep [x] = x"
| "str_join sep (x # y # ys) = x @ sep @ str_join sep (y # ys)"

definition str_partition :: "char \<Rightarrow> string \<Rightarrow> string \<times> string \<times> string" where
  "str_partition c s =
     (if c \<in> set s then (takeWhile (\<lambda>x. x \<noteq> c) s, [c], tl (dropWhile (\<lambda>x. x \<noteq> c) s))
      else (s, [], []))"

definition str_rpartition :: "char \<Rightarrow> string \<Rightarrow> string \<times> string \<times> string" where
  "str_rpartition c s =
     (if c \<in> set s
      then (rev (tl (dropWhile (\<lambda>x. x \<noteq> c) (rev s))), [c], rev (takeWhile (\<lambda>x. x \<noteq> c) (rev s)))
      else ([], [], s))"

fun str_before :: "string \<Rightarrow> string \<Rightarrow> string" where
  "str_before m [] = []"
| "str_before m (x # xs) = (if prefix m (x # xs) then [] else x # str_before m xs)"

text \<open>\<open>s.strip(chars)\<close>, \<open>s.split(sep)\<close> on a text and \<open>s.replace(old, new)\<close>.\<close>

definition strip_chars :: "string \<Rightarrow> string \<Rightarrow> string" where
  "strip_chars chars s =
     rev (dropWhile (\<lambda>c. c \<in> set chars) (rev (dropWhile (\<lambda>c. c \<in> set chars) s)))"

function split_on :: "string \<Rightarrow> string \<Rightarrow> string list" where
  "split_on sep [] = [[]]"
| "split_on sep (x # xs) =
     (if sep \<noteq> [] \<and> prefix sep (x # xs) then [] # split_on sep (drop (length sep) (x # xs))
      else case split_on sep xs of [] \<Rightarrow> [[x]] | y # ys \<Rightarrow> (x # y) # ys)"
  by pat_completeness auto
termination
proof (relation "measure (length \<circ> snd)")
  fix sep xs :: string and x :: char
  assume "sep \<noteq> [] \<and> prefix sep (x # xs)"
  then have "0 < length sep" by simp
  then show "((sep, drop (length sep) (x # xs)), sep, x # xs) \<in> measure (length \<circ> snd)"
    by simp
qed auto

definition str_replace :: "string \<Rightarrow> string \<Rightarrow> string \<Rightarrow> string" where
  "str_replace old new s = str_join new (split_on old s)"

section \<open>Case, white space, slices\<close>

definition is_upper_ascii :: "char \<Rightarrow> bool" where
  "is_upper_ascii c \<longleftrightarrow> 65 \<le> (of_char c :: nat) \<and> (of_char c :: nat) \<le> 90"

definition lower_char :: "char \<Rightarrow> char" where
  "lower_char c = (if is_upper_ascii c then char_of ((of_char c :: nat) + 32) else c)"

definition str_lower :: "string \<Rightarrow> string" where
  "str_lower s = map lower_char s"

definition is_space :: "char \<Rightarrow> bool" where
  "is_space c \<longleftrightarrow> c = CHR '' '' \<or> (9 \<le> (of_char c :: nat) \<and> (of_char c :: nat) \<le> 13)
     \<or> (28 \<le> (of_char c :: nat) \<and> (of_char c :: nat) \<le> 31)"

definition str_strip :: "string \<Rightarrow> string" where
  "str_strip s = rev (dropWhile is_space (rev (dropWhile is_space s)))"

definition str_rstrip_char :: "char \<Rightarrow> string \<Rightarrow> string" where
  "str_rstrip_char c s = rev (dropWhile (\<lambda>x. x = c) (rev s))"

definition truthy :: "string option \<Rightarrow> bool" where
  "truthy s \<longleftrightarrow> (case s of None \<Rightarrow> False | Some t \<Rightarrow> t \<noteq> [])"

section \<open>Code points\<close>

text \<open>
  \<open>len(s)\<close> and \<open>s[:n]\<close> count code points: the bytes of the encoding that do not
  continue a character.
\<close>

definition is_continuation :: "char \<Rightarrow> bool" where
  "is_continuation c \<longleftrightarrow> 128 \<le> (of_char c :: nat) \<and> (of_char c :: nat) < 192"

definition str_len :: "string \<Rightarrow> nat" where
  "str_len s = length (filter (\<lambda>c. \<not> is_continuation c) s)"

fun str_take :: "nat \<Rightarrow> string \<Rightarrow> string" where
  "str_take n [] = []"
| "str_take n (c # cs) =
     (if is_continuation c then c # str_take n cs
      else (case n of 0 \<Rightarrow> [] | Suc k \<Rightarrow> c # str_take k cs))"

section \<open>Integers as text\<close>

fun digits_of :: "nat \<Rightarrow> string" where
  "digits_of n = (if n < 10 then [char_of (48 + n)] else digits_of (n div 10) @ [char_of (48 + n mod 10)])"

declare digits_of.simps [simp del]

definition str_of_int :: "int \<Rightarrow> string" where
  "str_of_int i = (if i < 0 then CHR ''-'' # digits_of (nat (- i)) else digits_of (nat i))"

definition digit_value :: "char \<Rightarrow> nat option" where
  "digit_value c = (let n = (of_char c :: nat) in if 48 \<le> n \<and> n \<le> 57 then Some (n - 48) else None)"

fun nat_of_digits :: "nat \<Rightarrow> string \<Rightarrow> nat option" where
  "nat_of_digits acc [] = Some acc"
| "nat_of_digits acc (c # cs) =
     (case digit_value c of None \<Rightarrow> None | Some d \<Rightarrow> nat_of_digits (10 * acc + d) cs)"

text \<open>\<open>int(s)\<close>: surrounding white space and a sign are allowed; \<open>None\<close> is \<open>ValueError\<close>.\<close>

definition int_of_str :: "string \<Rightarrow> int option" where
  "int_of_str s =
     (case str_strip s of
        [] \<Rightarrow> None
      | c # cs \<Rightarrow>
          if c = CHR ''-'' then (if cs = [] then None else map_option (\<lambda>n. - int n) (nat_of_digits 0 cs))
          else if c = CHR ''+'' then (if cs = [] then None else map_option int (nat_of_digits 0 cs))
          else map_option int (nat_of_digits 0 (c # cs)))"

section \<open>repr\<close>

definition quote :: char where
  "quote = CHR 0x27"

definition hex_digit :: "nat \<Rightarrow> char" where
  "hex_digit n = (if n < 10 then char_of (48 + n) else char_of (87 + n))"

definition repr_char :: "char \<Rightarrow> char \<Rightarrow> string" where
  "repr_char q c =
     (let n = (of_char c :: nat) in
      if c = q \<or> c = CHR 0x5C then [CHR 0x5C, c]
      else if n = 10 then [CHR 0x5C, CHR ''n'']
      else if n = 13 then [CHR 0x5C, CHR ''r'']
      else if n = 9 then [CHR 0x5C, CHR ''t'']
      else if n < 32 \<or> n = 127 then [CHR 0x5C, CHR ''x'', hex_digit (n div 16), hex_digit (n mod 16)]
      else [c])"

definition py_repr :: "string \<Rightarrow> string" where
  "py_repr s =
     (let q = (if quote \<in> set s \<and> CHR 0x22 \<notin> set s then CHR 0x22 else quote)
      in q # concat (map (repr_char q) s) @ [q])"

section \<open>Laws\<close>

lemma str_split_nonempty [simp]: "str_split c s \<noteq> []"
  by (induction s) (auto split: list.splits)

lemma str_split_no_sep: "c \<notin> set s \<Longrightarrow> str_split c s = [s]"
  by (induction s) auto

lemma str_split_append_sep:
  "c \<notin> set s \<Longrightarrow> str_split c (s @ c # t) = s # str_split c t"
  by (induction s) auto

lemma str_join_split: "str_join [c] (str_split c s) = s"
proof (induction s)
  case Nil
  then show ?case by simp
next
  case (Cons x s)
  show ?case
  proof (cases "str_split c s")
    case Nil
    then show ?thesis by simp
  next
    case (Cons y ys)
    with Cons.IH show ?thesis by (cases ys) auto
  qed
qed

lemma str_split_join:
  "xs \<noteq> [] \<Longrightarrow> (\<And>x. x \<in> set xs \<Longrightarrow> c \<notin> set x) \<Longrightarrow> str_split c (str_join [c] xs) = xs"
  by (induction "[c]" xs rule: str_join.induct) (auto simp: str_split_no_sep str_split_append_sep)

lemma split_on_nonempty [simp]: "split_on sep s \<noteq> []"
  by (induction sep s rule: split_on.induct) (auto split: list.splits)

lemma split_on_piece:
  "c \<notin> set y \<Longrightarrow> split_on (c # d) (y @ (c # d) @ rest) = y # split_on (c # d) rest"
  by (induction y) auto

lemma split_on_end: "c \<notin> set y \<Longrightarrow> d \<noteq> [] \<Longrightarrow> split_on (c # d) (y @ [c]) = [y @ [c]]"
  by (induction y) (auto simp: prefix_Cons)

lemma takeWhile_no_sep: "c \<notin> set b \<Longrightarrow> takeWhile (\<lambda>x. x \<noteq> c) (b @ c # a) = b"
  by (induction b) auto

lemma dropWhile_no_sep: "c \<notin> set b \<Longrightarrow> dropWhile (\<lambda>x. x \<noteq> c) (b @ c # a) = c # a"
  by (induction b) auto

text \<open>The part after the last separator is what \<open>rpartition\<close> returns.\<close>

lemma str_rpartition_snoc:
  assumes "c \<notin> set b"
  shows "str_rpartition c (a @ c # b) = (a, [c], b)"
proof -
  have "rev (a @ c # b) = rev b @ c # rev a" by simp
  then show ?thesis using assms takeWhile_no_sep [of c "rev b" "rev a"]
      dropWhile_no_sep [of c "rev b" "rev a"]
    by (simp add: str_rpartition_def)
qed

lemma str_rpartition_none: "c \<notin> set s \<Longrightarrow> str_rpartition c s = ([], [], s)"
  by (simp add: str_rpartition_def)

lemma str_before_prefix: "prefix (str_before m s) s"
  by (induction s) auto

lemma str_before_no_marker:
  assumes "m \<noteq> []"
  shows "\<not> sublist m (str_before m s)"
proof (induction s)
  case Nil
  then show ?case using assms by simp
next
  case (Cons x xs)
  show ?case
  proof (cases "prefix m (x # xs)")
    case True
    then show ?thesis using assms by simp
  next
    case False
    have "\<not> prefix m (x # str_before m xs)"
    proof
      assume "prefix m (x # str_before m xs)"
      moreover have "prefix (x # str_before m xs) (x # xs)"
        using str_before_prefix [of m xs] by simp
      ultimately have "prefix m (x # xs)" by (rule prefix_order.trans)
      with False show False by simp
    qed
    with False Cons.IH show ?thesis by (simp add: sublist_Cons_right)
  qed
qed

lemma lower_char_idem: "lower_char (lower_char c) = lower_char c"
proof (cases "is_upper_ascii c")
  case True
  then have b: "65 \<le> (of_char c :: nat)" "(of_char c :: nat) \<le> 90"
    by (auto simp: is_upper_ascii_def)
  then have "(of_char (char_of ((of_char c :: nat) + 32) :: char) :: nat) = of_char c + 32"
    by (simp add: of_char_of)
  then have "\<not> is_upper_ascii (char_of ((of_char c :: nat) + 32))"
    using b by (simp add: is_upper_ascii_def)
  then show ?thesis by (simp add: lower_char_def)
next
  case False
  then show ?thesis by (simp add: lower_char_def)
qed

lemma str_lower_idem [simp]: "str_lower (str_lower s) = str_lower s"
  by (simp add: str_lower_def lower_char_idem)

lemma str_len_append: "str_len (s @ t) = str_len s + str_len t"
  by (simp add: str_len_def)

lemma str_len_take: "str_len (str_take n s) \<le> n"
  by (induction n s rule: str_take.induct) (auto simp: str_len_def split: nat.splits)

lemma str_take_prefix: "prefix (str_take n s) s"
  by (induction n s rule: str_take.induct) (auto split: nat.splits)

lemma digit_value_digit: "d < 10 \<Longrightarrow> digit_value (char_of (48 + d)) = Some d"
  by (simp add: digit_value_def of_char_of)

lemma nat_of_digits_append:
  "nat_of_digits acc (xs @ ys) =
     (case nat_of_digits acc xs of None \<Rightarrow> None | Some a \<Rightarrow> nat_of_digits a ys)"
  by (induction xs arbitrary: acc) (auto split: option.splits)

lemma digits_of_value: "nat_of_digits 0 (digits_of n) = Some n"
proof (induction n rule: digits_of.induct)
  case (1 n)
  show ?case
  proof (cases "n < 10")
    case True
    then show ?thesis by (subst digits_of.simps) (simp add: digit_value_digit)
  next
    case False
    have "digit_value (char_of (48 + n mod 10)) = Some (n mod 10)"
      by (rule digit_value_digit) simp
    with False "1.IH" show ?thesis
      by (subst digits_of.simps) (simp add: nat_of_digits_append)
  qed
qed

lemma digits_of_inj: "digits_of m = digits_of n \<Longrightarrow> m = n"
  by (metis digits_of_value option.inject)

lemma digits_of_digits: "c \<in> set (digits_of n) \<Longrightarrow> digit_value c \<noteq> None"
proof (induction n rule: digits_of.induct)
  case (1 n)
  show ?case
  proof (cases "n < 10")
    case True
    then show ?thesis using "1.prems" by (subst (asm) digits_of.simps) (simp add: digit_value_digit)
  next
    case False
    have "digit_value (char_of (48 + n mod 10)) = Some (n mod 10)"
      by (rule digit_value_digit) simp
    with False "1.IH" "1.prems" show ?thesis
      by (subst (asm) digits_of.simps) auto
  qed
qed

lemma digits_of_nonempty [simp]: "digits_of n \<noteq> []"
  by (subst digits_of.simps) simp

lemma digits_of_hd_not:
  "digit_value c = None \<Longrightarrow> c \<notin> set (digits_of n)"
  using digits_of_digits by blast

lemma digit_value_punct [simp]:
  "digit_value (CHR '':'') = None" "digit_value (CHR ''-'') = None" "digit_value (CHR ''+'') = None"
  "digit_value (CHR '','') = None"
  by (simp_all add: digit_value_def)

lemma str_of_int_no_colon: "CHR '':'' \<notin> set (str_of_int i)"
  by (simp add: str_of_int_def digits_of_hd_not)

lemma str_of_int_inj: "str_of_int i = str_of_int j \<Longrightarrow> i = j"
proof -
  have minus: "CHR ''-'' # xs \<noteq> digits_of n" for xs n
    using digits_of_hd_not [of "CHR ''-''" n] by (metis digit_value_punct(2) list.set_intros(1))
  assume "str_of_int i = str_of_int j"
  then show ?thesis
    using minus minus [symmetric] by (auto simp: str_of_int_def split: if_splits dest!: digits_of_inj)
qed

lemma digit_not_space: "digit_value c \<noteq> None \<Longrightarrow> \<not> is_space c"
  by (auto simp: digit_value_def is_space_def Let_def split: if_splits)

lemma dropWhile_no_hit: "\<forall>x \<in> set xs. \<not> P x \<Longrightarrow> dropWhile P xs = xs"
  by (cases xs) auto

lemma str_strip_digits [simp]: "str_strip (digits_of n) = digits_of n"
proof -
  have "\<forall>c \<in> set (digits_of n). \<not> is_space c"
    using digits_of_digits digit_not_space by blast
  then show ?thesis by (simp add: str_strip_def dropWhile_no_hit)
qed

lemma int_of_str_of_int: "0 \<le> i \<Longrightarrow> int_of_str (str_of_int i) = Some i"
proof -
  assume "0 \<le> i"
  obtain c cs where d: "digits_of (nat i) = c # cs" by (cases "digits_of (nat i)") auto
  then have "c \<noteq> CHR ''-''" "c \<noteq> CHR ''+''"
    using digits_of_hd_not [of _ "nat i"] by (metis digit_value_punct list.set_intros(1))+
  then show ?thesis
    using d \<open>0 \<le> i\<close> digits_of_value [of "nat i"] str_strip_digits [of "nat i"]
    by (simp add: int_of_str_def str_of_int_def)
qed

lemma append_sep_inject:
  assumes "c \<notin> set a" and "c \<notin> set a'"
  shows "a @ c # b = a' @ c # b' \<longleftrightarrow> a = a' \<and> b = b'"
proof
  assume eq: "a @ c # b = a' @ c # b'"
  have "a = a'"
    using arg_cong [OF eq, of "takeWhile (\<lambda>x. x \<noteq> c)"] assms by (simp add: takeWhile_no_sep)
  with eq show "a = a' \<and> b = b'" by simp
qed simp

end
