(* ===== verification/Errors.thy ===== *)
theory Errors
  imports Strings
begin

text \<open>
  \<open>core/errors.py\<close> and the exception handlers of \<open>main.py\<close>: the error codes, the
  status each gets by default, \<open>AppException\<close>, the exceptions of other kinds that leave a
  handler (by class name and \<open>str\<close>), the summary of an exception a job may store, and the
  response each exception becomes.  The message and the details of an \<open>AppException\<close> are
  not modelled: no code reads them.
\<close>

section \<open>Error codes\<close>

datatype error_code =
    UNAUTHORIZED | FORBIDDEN | NOT_FOUND | USER_NOT_FOUND | JOB_NOT_FOUND
  | SPOT_NOT_FOUND | SPOT_IMAGE_NOT_FOUND | SPOT_IMAGE_TOO_LARGE
  | SPOT_IMAGE_COUNT_LIMIT_EXCEEDED | SPOT_BUSINESS_INFO_NOT_FOUND
  | SPOT_OPTION_NOT_FOUND | SPOT_OPTION_ALREADY_EXISTS | SPOT_GROUP_NOT_FOUND
  | SPOT_GROUP_MEMBER_NOT_FOUND | SPOT_GROUP_MEMBER_ALREADY_EXISTS
  | SPOT_GROUP_SPOT_ALREADY_EXISTS | SPOT_GROUP_LAST_OWNER_REQUIRED
  | SPOT_GROUP_INVITE_NOT_ALLOWED | REVIEW_NOT_FOUND | REVIEW_ALREADY_EXISTS
  | REVIEW_REPORT_ALREADY_EXISTS | INVITE_NOT_FOUND | INVITE_NOT_ACCEPTABLE
  | CONVERSATION_NOT_FOUND | MESSAGE_NOT_FOUND | USER_BLOCKED | DB_DUMP_NOT_READY
  | CURSOR_SCOPE_MISMATCH | RATE_LIMITED | VALIDATION_ERROR | INTERNAL_ERROR
  | SERVICE_UNAVAILABLE | METHOD_NOT_ALLOWED | CONFLICT

fun default_status :: "error_code \<Rightarrow> nat" where
  "default_status UNAUTHORIZED = 401"
| "default_status FORBIDDEN = 403"
| "default_status NOT_FOUND = 404"
| "default_status USER_NOT_FOUND = 404"
| "default_status JOB_NOT_FOUND = 404"
| "default_status SPOT_NOT_FOUND = 404"
| "default_status SPOT_IMAGE_NOT_FOUND = 404"
| "default_status SPOT_IMAGE_TOO_LARGE = 422"
| "default_status SPOT_IMAGE_COUNT_LIMIT_EXCEEDED = 422"
| "default_status SPOT_BUSINESS_INFO_NOT_FOUND = 404"
| "default_status SPOT_OPTION_NOT_FOUND = 404"
| "default_status SPOT_OPTION_ALREADY_EXISTS = 409"
| "default_status SPOT_GROUP_NOT_FOUND = 404"
| "default_status SPOT_GROUP_MEMBER_NOT_FOUND = 404"
| "default_status SPOT_GROUP_MEMBER_ALREADY_EXISTS = 409"
| "default_status SPOT_GROUP_SPOT_ALREADY_EXISTS = 409"
| "default_status SPOT_GROUP_LAST_OWNER_REQUIRED = 409"
| "default_status SPOT_GROUP_INVITE_NOT_ALLOWED = 403"
| "default_status REVIEW_NOT_FOUND = 404"
| "default_status REVIEW_ALREADY_EXISTS = 409"
| "default_status REVIEW_REPORT_ALREADY_EXISTS = 409"
| "default_status INVITE_NOT_FOUND = 404"
| "default_status INVITE_NOT_ACCEPTABLE = 409"
| "default_status CONVERSATION_NOT_FOUND = 404"
| "default_status MESSAGE_NOT_FOUND = 404"
| "default_status USER_BLOCKED = 403"
| "default_status DB_DUMP_NOT_READY = 409"
| "default_status CURSOR_SCOPE_MISMATCH = 400"
| "default_status RATE_LIMITED = 429"
| "default_status VALIDATION_ERROR = 422"
| "default_status INTERNAL_ERROR = 500"
| "default_status SERVICE_UNAVAILABLE = 503"
| "default_status METHOD_NOT_ALLOWED = 405"
| "default_status CONFLICT = 409"

section \<open>Exceptions\<close>

text \<open>
  \<open>AppException code status\<close> is the class of that name; \<open>RequestValidationError\<close> is
  what FastAPI raises for an invalid request; \<open>HTTPException status\<close> is Starlette's;
  \<open>PyError name text\<close> is any other exception, by \<open>type(exc).__name__\<close> and \<open>str(exc)\<close>.
\<close>

datatype exn =
    AppException error_code nat
  | RequestValidationError
  | HTTPException nat
  | PyError string string

definition app_exception :: "error_code \<Rightarrow> nat option \<Rightarrow> exn" where
  "app_exception code status_code =
     AppException code (case status_code of None \<Rightarrow> default_status code
                                          | Some s \<Rightarrow> if s = 0 then default_status code else s)"

definition app_error :: "error_code \<Rightarrow> exn" where
  "app_error code = app_exception code None"

abbreviation integrity_error :: exn where
  "integrity_error \<equiv> PyError ''IntegrityError'' ''''"

abbreviation multiple_results :: exn where
  "multiple_results \<equiv> PyError ''MultipleResultsFound'' ''''"

abbreviation no_result :: exn where
  "no_result \<equiv> PyError ''NoResultFound'' ''''"

abbreviation key_error :: exn where
  "key_error \<equiv> PyError ''KeyError'' ''''"

type_synonym 'a res = "exn + 'a"

lemma app_error_simp [simp]: "app_error code = AppException code (default_status code)"
  by (simp add: app_error_def app_exception_def)

section \<open>What a job may store of an exception\<close>

definition exn_name :: "exn \<Rightarrow> string" where
  "exn_name e = (case e of AppException _ _ \<Rightarrow> ''AppException''
     | RequestValidationError \<Rightarrow> ''RequestValidationError''
     | HTTPException _ \<Rightarrow> ''HTTPException'' | PyError n _ \<Rightarrow> n)"

definition exn_text :: "exn \<Rightarrow> string" where
  "exn_text e = (case e of PyError _ t \<Rightarrow> t | _ \<Rightarrow> '''')"

definition sql_marker :: string where
  "sql_marker = CHR 0x0A # ''[SQL:''"

definition sanitize_exc_message :: "exn \<Rightarrow> nat \<Rightarrow> string" where
  "sanitize_exc_message exc max_len =
     (let message = str_strip (str_before sql_marker (exn_text exc));
          reason = (if message \<noteq> [] then exn_name exc @ '': '' @ message else exn_name exc)
      in if str_len reason > max_len then str_take max_len reason @ ''...'' else reason)"

section \<open>The response of an exception\<close>

record error_response =
  resp_status :: nat
  resp_code :: error_code

definition status_to_code :: "nat \<Rightarrow> error_code option" where
  "status_to_code s =
     (if s = 401 then Some UNAUTHORIZED else if s = 403 then Some FORBIDDEN
      else if s = 404 then Some NOT_FOUND else if s = 405 then Some METHOD_NOT_ALLOWED
      else if s = 409 then Some CONFLICT else if s = 422 then Some VALIDATION_ERROR
      else if s = 503 then Some SERVICE_UNAVAILABLE else None)"

definition app_exception_handler :: "error_code \<Rightarrow> nat \<Rightarrow> error_response" where
  "app_exception_handler code status = \<lparr>resp_status = status, resp_code = code\<rparr>"

definition validation_exception_handler :: error_response where
  "validation_exception_handler = \<lparr>resp_status = 422, resp_code = VALIDATION_ERROR\<rparr>"

definition http_exception_handler :: "nat \<Rightarrow> error_response" where
  "http_exception_handler status =
     \<lparr>resp_status = status,
      resp_code = (case status_to_code status of None \<Rightarrow> INTERNAL_ERROR | Some c \<Rightarrow> c)\<rparr>"

definition unhandled_exception_handler :: error_response where
  "unhandled_exception_handler = \<lparr>resp_status = 500, resp_code = INTERNAL_ERROR\<rparr>"

definition respond :: "exn \<Rightarrow> error_response" where
  "respond e = (case e of AppException c s \<Rightarrow> app_exception_handler c s
     | RequestValidationError \<Rightarrow> validation_exception_handler
     | HTTPException s \<Rightarrow> http_exception_handler s
     | PyError _ _ \<Rightarrow> unhandled_exception_handler)"

section \<open>Laws\<close>

lemma default_status_range: "400 \<le> default_status c \<and> default_status c < 600"
  by (cases c) auto

lemma sanitize_length: "str_len (sanitize_exc_message e n) \<le> n + 3"
proof -
  have dots: "str_len ''...'' = 3"
    by (simp add: str_len_def is_continuation_def)
  have "str_len (str_take n s @ ''...'') \<le> n + 3" for s
    using str_len_take [of n s] by (simp add: str_len_append dots)
  then show ?thesis
    by (simp add: sanitize_exc_message_def Let_def)
qed

text \<open>
  No status-coded error of the framework is reported under a code whose default status differs.
\<close>

lemma status_to_code_default: "status_to_code s = Some c \<Longrightarrow> default_status c = s"
  by (auto simp: status_to_code_def split: if_splits)

lemma dropWhile_suffix_ex: "\<exists>ys. xs = ys @ dropWhile P xs"
  by (metis takeWhile_dropWhile_id)

lemma str_strip_sublist: "sublist (str_strip s) s"
proof -
  have "suffix (dropWhile is_space s) s"
    by (rule suffix_dropWhile)
  moreover have "prefix (str_strip s) (dropWhile is_space s)"
    using suffix_dropWhile [of is_space "rev (dropWhile is_space s)"]
    by (simp add: str_strip_def suffix_to_prefix)
  ultimately show ?thesis
    by (meson prefix_imp_sublist sublist_order.order.trans suffix_imp_sublist)
qed

lemma stripped_no_marker:
  assumes "m \<noteq> []"
  shows "\<not> sublist m (str_strip (str_before m s))"
  using str_strip_sublist [of "str_before m s"] str_before_no_marker [OF assms, of s]
  by (meson sublist_order.order.trans)

end
