(* ===== verification/Models.thy ===== *)
theory Models
  imports Errors
begin

text \<open>
  \<open>models/\<close>: the enumerations and the rows of every table, and the database with the
  state of the Redis server behind it.  The columns of a table are prefixed by a letter or two
  (\<open>u_\<close> users, \<open>s_\<close> spots, \<open>si_\<close> spot_images, \<open>bi_\<close> spot_business_info,
  \<open>fo_\<close> spot_field_options, \<open>g_\<close> spot_groups, \<open>gm_\<close> spot_group_members,
  \<open>gs_\<close> spot_group_spots, \<open>iv_\<close> invites, \<open>rv_\<close> spot_reviews, \<open>rr_\<close>
  spot_review_reports, \<open>c_\<close> conversations, \<open>cp_\<close> conversation_participants,
  \<open>m_\<close> messages, \<open>ub_\<close> user_blocks, \<open>j_\<close> jobs, \<open>al_\<close> audit_log).
  A nullable column is an \<open>option\<close>; a time is a number of microseconds of UTC; a double
  is a rational number.  The generated column \<open>search_vector\<close> has no field: what the
  search computes from it is a parameter of the search.
\<close>

type_synonym uid = string
type_synonym instant = int

section \<open>Enumerations\<close>

datatype membership_tier = FREE | MEMBER

datatype staff_role = STAFF | MANAGER | SUPERUSER

datatype pipeline_status = RAW | ENRICHED | CURATED | REVIEWED | PUBLISHED | REJECTED

datatype group_visibility = PRIVATE | INVITE_ONLY | PUBLIC

datatype group_role = VIEWER | CONTRIBUTOR | EDITOR | OWNER

datatype invite_status = Invite_PENDING | Invite_ACCEPTED | Invite_REVOKED

datatype spot_image_role = THUMBNAIL | DETAIL

datatype conversation_type = DIRECT | GROUP

datatype job_status = Job_PENDING | Job_RUNNING | Job_SUCCEEDED | Job_FAILED

datatype job_type = SPOTS_BULK_UPSERT | SPOT_BUSINESS_INFO_BULK_UPSERT | DB_DUMP

datatype spot_option_field = CATEGORY | AMENITIES | NEARBY_FACILITIES | HAS_EQUIPMENT_RENTAL

section \<open>Rows\<close>

record user =
  u_uid :: uid
  u_email :: string
  u_google_sub :: string
  u_nickname :: string
  u_name :: "string option"
  u_picture :: "string option"
  u_is_active :: bool
  u_is_staff :: bool
  u_staff_role :: staff_role
  u_membership_tier :: membership_tier
  u_identity_verified_at :: "instant option"
  u_onboarding_survey_completed_at :: "instant option"
  u_referred_by_uid :: "uid option"
  u_created_at :: instant
  u_updated_at :: instant

definition is_identity_verified :: "user \<Rightarrow> bool" where
  "is_identity_verified u \<longleftrightarrow> u_identity_verified_at u \<noteq> None"

definition has_completed_onboarding_survey :: "user \<Rightarrow> bool" where
  "has_completed_onboarding_survey u \<longleftrightarrow> u_onboarding_survey_completed_at u \<noteq> None"

record spot =
  s_uid :: uid
  s_source :: "string option"
  s_external_id :: "string option"
  s_title :: string
  s_address :: "string option"
  s_address_detail :: "string option"
  s_region_province :: "string option"
  s_region_city :: "string option"
  s_postal_code :: "string option"
  s_phone :: "string option"
  s_description :: "string option"
  s_tagline :: "string option"
  s_latitude :: "rat option"
  s_longitude :: "rat option"
  s_altitude :: "rat option"
  s_unit_count :: "int option"
  s_is_fee_required :: "bool option"
  s_is_pet_allowed :: "bool option"
  s_pet_policy :: "string option"
  s_has_equipment_rental :: "string list option"
  s_themes :: "string list option"
  s_fire_pit_type :: "string option"
  s_amenities :: "string list option"
  s_nearby_facilities :: "string list option"
  s_camp_sight_type :: "string option"
  s_rating_avg :: rat
  s_review_count :: int
  s_pipeline_status :: pipeline_status
  s_trust_tier :: "int option"
  s_last_verified_at :: "instant option"
  s_website_url :: "string option"
  s_booking_url :: "string option"
  s_features :: "string option"
  s_category :: "string list option"
  s_total_area_m2 :: "rat option"
  s_has_liability_insurance :: "bool option"
  s_created_at :: "instant option"
  s_updated_at :: "instant option"
  s_deleted_at :: "instant option"
  s_assigned_to_uid :: "uid option"

record spot_image =
  si_uid :: uid
  si_spot_uid :: uid
  si_s3_key :: string
  si_role :: spot_image_role
  si_sort_order :: int
  si_is_public :: bool
  si_content_type :: "string option"
  si_deleted_at :: "instant option"
  si_created_at :: "instant option"
  si_updated_at :: "instant option"

record business_info =
  bi_uid :: uid
  bi_spot_uid :: uid
  bi_business_reg_no :: "string option"
  bi_tourism_business_reg_no :: "string option"
  bi_business_type :: "string option"
  bi_operation_type :: "string option"
  bi_operating_agency :: "string option"
  bi_operating_status :: "string option"
  bi_national_park_no :: "int option"
  bi_national_park_office_code :: "string option"
  bi_national_park_serial_no :: "string option"
  bi_national_park_category_code :: "string option"
  bi_licensed_at :: "int option"
  bi_created_at :: "instant option"
  bi_updated_at :: "instant option"

record field_option =
  fo_field :: spot_option_field
  fo_code :: string
  fo_label_ko :: string
  fo_created_at :: "instant option"

record spot_group =
  g_uid :: uid
  g_name :: string
  g_description :: "string option"
  g_visibility :: group_visibility
  g_created_at :: "instant option"
  g_updated_at :: "instant option"

record group_member =
  gm_group_uid :: uid
  gm_user_uid :: uid
  gm_role :: group_role
  gm_invited_by_uid :: "uid option"
  gm_created_at :: "instant option"

record group_spot =
  gs_group_uid :: uid
  gs_spot_uid :: uid
  gs_added_by_uid :: uid
  gs_created_at :: "instant option"

record invite =
  iv_uid :: uid
  iv_inviter_uid :: uid
  iv_group_uid :: "uid option"
  iv_group_role :: "group_role option"
  iv_status :: invite_status
  iv_accepted_by_uid :: "uid option"
  iv_accepted_at :: "instant option"
  iv_created_at :: "instant option"

record spot_review =
  rv_uid :: uid
  rv_spot_uid :: uid
  rv_user_id :: uid
  rv_rating :: int
  rv_content :: "string option"
  rv_created_at :: "instant option"
  rv_updated_at :: "instant option"
  rv_deleted_at :: "instant option"

record review_report =
  rr_uid :: uid
  rr_review_uid :: uid
  rr_reporter_user_uid :: uid
  rr_reason :: string
  rr_created_at :: "instant option"

record conversation =
  c_uid :: uid
  c_type :: conversation_type
  c_name :: "string option"
  c_created_at :: instant
  c_updated_at :: instant

record participant =
  cp_conversation_uid :: uid
  cp_user_uid :: uid
  cp_joined_at :: instant
  cp_last_read_at :: "instant option"
  cp_left_at :: "instant option"

record message =
  m_uid :: uid
  m_conversation_uid :: uid
  m_sender_uid :: uid
  m_content :: string
  m_deleted_at :: "instant option"
  m_created_at :: instant

record user_block =
  ub_blocker_uid :: uid
  ub_blocked_uid :: uid
  ub_created_at :: instant

text \<open>
  The payload and the result of a job are JSON values of the database; \<open>job_payload\<close> and
  \<open>job_result\<close> are the shapes the code writes (a bulk request, an empty object; the counts of
  a bulk upsert, the key of a dump).
\<close>

record row_error =
  re_index :: nat
  re_reason :: string

record bulk_result =
  br_succeeded :: nat
  br_failed :: nat
  br_dry_run :: bool
  br_errors :: "row_error list"

datatype job_result =
    Bulk_Result bulk_result
  | Dump_Result string nat

record 'p job =
  j_uid :: uid
  j_type :: job_type
  j_status :: job_status
  j_payload :: 'p
  j_result :: "job_result option"
  j_error :: "string option"
  j_created_by :: uid
  j_created_at :: instant
  j_started_at :: "instant option"
  j_finished_at :: "instant option"

section \<open>The database\<close>

text \<open>
  \<open>redis\<close> is the state of the Redis server (any type: the server is not part of the
  program).
\<close>

record 'r world =
  users :: "user list"
  spots :: "spot list"
  spot_images :: "spot_image list"
  business_infos :: "business_info list"
  field_options :: "field_option list"
  spot_groups :: "spot_group list"
  group_members :: "group_member list"
  group_spots :: "group_spot list"
  invites :: "invite list"
  spot_reviews :: "spot_review list"
  review_reports :: "review_report list"
  conversations :: "conversation list"
  participants :: "participant list"
  messages :: "message list"
  user_blocks :: "user_block list"
  redis :: 'r

text \<open>The database before the first request.\<close>

definition empty_world :: "'r \<Rightarrow> 'r world" where
  "empty_world r =
     \<lparr>users = [], spots = [], spot_images = [], business_infos = [], field_options = [],
      spot_groups = [], group_members = [], group_spots = [], invites = [], spot_reviews = [],
      review_reports = [], conversations = [], participants = [], messages = [],
      user_blocks = [], redis = r\<rparr>"

section \<open>Microseconds\<close>

definition seconds :: "int \<Rightarrow> int" where
  "seconds n = n * 1000000"

definition minutes :: "int \<Rightarrow> int" where
  "minutes n = seconds (n * 60)"

definition hours :: "int \<Rightarrow> int" where
  "hours n = seconds (n * 3600)"

definition days :: "int \<Rightarrow> int" where
  "days n = seconds (n * 86400)"

text \<open>The primary keys of the tables whose key is more than one column.\<close>

definition member_key :: "group_member \<Rightarrow> uid \<times> uid" where
  "member_key m = (gm_group_uid m, gm_user_uid m)"

definition group_spot_key :: "group_spot \<Rightarrow> uid \<times> uid" where
  "group_spot_key x = (gs_group_uid x, gs_spot_uid x)"

definition participant_key :: "participant \<Rightarrow> uid \<times> uid" where
  "participant_key p = (cp_conversation_uid p, cp_user_uid p)"

definition block_key :: "user_block \<Rightarrow> uid \<times> uid" where
  "block_key b = (ub_blocker_uid b, ub_blocked_uid b)"

definition option_key :: "field_option \<Rightarrow> spot_option_field \<times> string" where
  "option_key p = (fo_field p, fo_code p)"

lemmas key_defs = member_key_def group_spot_key_def participant_key_def block_key_def option_key_def

end
