(* ===== verification/Config.thy ===== *)
theory Config
  imports Models
begin

text \<open>
  \<open>core/config.py\<close>: the settings record, the parsing of \<open>CORS_ALLOWED_ORIGINS\<close>,
  \<open>database_url\<close>, the CORS defaults and the validation that a production process runs
  before it starts.  Secrets are plain strings here (\<open>SecretStr\<close> only hides them from
  logs).  Each message of the production check is a constructor of \<open>config_error\<close>.
\<close>

datatype environment = Env_local | Env_dev | Env_prod

record settings =
  ENVIRONMENT :: environment
  GIT_SHA :: string
  LOG_LEVEL :: string
  DB_ECHO :: bool
  DB_HOST :: string
  DB_PORT :: string
  DB_NAME :: string
  DB_USER :: string
  DB_PASSWORD :: string
  GOOGLE_CLIENT_ID :: string
  ALLOWED_EMAIL_DOMAIN :: "string option"
  JWT_SECRET_KEY :: string
  JWT_ALGORITHM :: string
  JWT_ACCESS_TOKEN_EXPIRE_MINUTES :: int
  JWT_REFRESH_TOKEN_EXPIRE_DAYS :: int
  JWT_ADMIN_ACCESS_TOKEN_EXPIRE_HOURS :: int
  ADMIN_SESSION_SECRET :: string
  CORS_ALLOWED_ORIGINS :: "string list option"
  AWS_REGION :: string
  S3_BUCKET :: "string option"
  S3_ENDPOINT_URL :: "string option"
  CDN_BASE_URL :: "string option"
  S3_PRESIGN_EXPIRE_SECONDS :: nat
  IMAGE_MAX_BYTES :: nat
  IMAGE_MAX_COUNT_PER_SPOT :: nat
  SLACK_WEBHOOK_URL :: "string option"
  REDIS_URL :: "string option"
  SPOTS_LIST_CACHE_TTL_SECONDS :: nat
  SPOT_DETAIL_CACHE_TTL_SECONDS :: nat
  EXPLORE_REQUIRE_COORDINATES :: bool
  ENABLE_API_DOCS :: bool

text \<open>The defaults of the class; the fields without a default are arguments.\<close>

definition default_settings ::
    "string \<Rightarrow> string \<Rightarrow> string \<Rightarrow> string \<Rightarrow> string \<Rightarrow> string \<Rightarrow> settings" where
  "default_settings db_name db_user db_password client_id jwt_secret admin_secret =
     \<lparr>ENVIRONMENT = Env_local, GIT_SHA = ''dev'', LOG_LEVEL = ''INFO'', DB_ECHO = False,
      DB_HOST = ''localhost'', DB_PORT = ''5432'', DB_NAME = db_name, DB_USER = db_user,
      DB_PASSWORD = db_password, GOOGLE_CLIENT_ID = client_id, ALLOWED_EMAIL_DOMAIN = None,
      JWT_SECRET_KEY = jwt_secret, JWT_ALGORITHM = ''HS256'',
      JWT_ACCESS_TOKEN_EXPIRE_MINUTES = 30, JWT_REFRESH_TOKEN_EXPIRE_DAYS = 7,
      JWT_ADMIN_ACCESS_TOKEN_EXPIRE_HOURS = 8, ADMIN_SESSION_SECRET = admin_secret,
      CORS_ALLOWED_ORIGINS = None, AWS_REGION = ''ap-northeast-2'', S3_BUCKET = None,
      S3_ENDPOINT_URL = None, CDN_BASE_URL = None, S3_PRESIGN_EXPIRE_SECONDS = 3600,
      IMAGE_MAX_BYTES = 10 * 1024 * 1024, IMAGE_MAX_COUNT_PER_SPOT = 20,
      SLACK_WEBHOOK_URL = None, REDIS_URL = None, SPOTS_LIST_CACHE_TTL_SECONDS = 30,
      SPOT_DETAIL_CACHE_TTL_SECONDS = 120, EXPLORE_REQUIRE_COORDINATES = False,
      ENABLE_API_DOCS = False\<rparr>"

definition parse_cors_origins :: "string \<Rightarrow> string list" where
  "parse_cors_origins v =
     map str_strip (filter (\<lambda>p. str_strip p \<noteq> []) (str_split (CHR '','') v))"

definition database_url :: "settings \<Rightarrow> string" where
  "database_url cfg =
     (let ssl = (if ENVIRONMENT cfg = Env_prod then ''?ssl=require'' else '''')
      in ''postgresql+asyncpg://'' @ DB_USER cfg @ '':'' @ DB_PASSWORD cfg @ ''@'' @ DB_HOST cfg
           @ '':'' @ DB_PORT cfg @ ''/'' @ DB_NAME cfg @ ssl)"

definition apply_cors_defaults :: "settings \<Rightarrow> settings" where
  "apply_cors_defaults cfg =
     (if CORS_ALLOWED_ORIGINS cfg = None
      then cfg\<lparr>CORS_ALLOWED_ORIGINS :=
             Some (if ENVIRONMENT cfg = Env_local
                   then [''http://localhost:3000'', ''http://127.0.0.1:3000''] else [])\<rparr>
      else cfg)"

datatype config_error =
    Bad_DB_HOST | Placeholder_DB_PASSWORD | Placeholder_GOOGLE_CLIENT_ID
  | Placeholder_JWT_SECRET | Short_JWT_SECRET | Placeholder_ADMIN_SECRET | Short_ADMIN_SECRET
  | Docs_enabled | CORS_missing | CORS_star | CORS_localhost string

definition contains :: "string \<Rightarrow> string \<Rightarrow> bool" where
  "contains s sub = sublist sub s"

definition cors_errors :: "string \<Rightarrow> config_error list" where
  "cors_errors origin =
     (if origin = ''*'' then [CORS_star]
      else if contains origin ''localhost'' \<or> contains origin ''127.0.0.1''
      then [CORS_localhost origin] else [])"

definition origin_list :: "settings \<Rightarrow> string list" where
  "origin_list cfg = (case CORS_ALLOWED_ORIGINS cfg of None \<Rightarrow> [] | Some os \<Rightarrow> os)"

definition prod_errors :: "settings \<Rightarrow> config_error list" where
  "prod_errors cfg =
     (if DB_HOST cfg \<in> {''localhost'', ''127.0.0.1'', ''''} then [Bad_DB_HOST] else [])
     @ (if contains (DB_PASSWORD cfg) ''your_db_password_here''
           \<or> contains (DB_PASSWORD cfg) ''CHANGE_ME'' then [Placeholder_DB_PASSWORD] else [])
     @ (if contains (GOOGLE_CLIENT_ID cfg) ''your_google_client_id_here''
        then [Placeholder_GOOGLE_CLIENT_ID] else [])
     @ (if contains (JWT_SECRET_KEY cfg) ''CHANGE_ME'' then [Placeholder_JWT_SECRET] else [])
     @ (if str_len (JWT_SECRET_KEY cfg) < 32 then [Short_JWT_SECRET] else [])
     @ (if contains (ADMIN_SESSION_SECRET cfg) ''CHANGE_ME'' then [Placeholder_ADMIN_SECRET] else [])
     @ (if str_len (ADMIN_SESSION_SECRET cfg) < 32 then [Short_ADMIN_SECRET] else [])
     @ (if ENABLE_API_DOCS cfg then [Docs_enabled] else [])
     @ (if origin_list cfg = [] then [CORS_missing] else [])
     @ concat (map cors_errors (origin_list cfg))"

definition validate_prod_requirements :: "settings \<Rightarrow> config_error list + settings" where
  "validate_prod_requirements cfg =
     (if ENVIRONMENT cfg \<noteq> Env_prod then Inr cfg
      else if prod_errors cfg \<noteq> [] then Inl (prod_errors cfg) else Inr cfg)"

definition load_settings :: "settings \<Rightarrow> config_error list + settings" where
  "load_settings cfg = validate_prod_requirements (apply_cors_defaults cfg)"

section \<open>Laws\<close>

lemma prod_errors_empty:
  "prod_errors cfg = [] \<longleftrightarrow>
     DB_HOST cfg \<notin> {''localhost'', ''127.0.0.1'', ''''}
   \<and> \<not> contains (DB_PASSWORD cfg) ''your_db_password_here''
   \<and> \<not> contains (DB_PASSWORD cfg) ''CHANGE_ME''
   \<and> \<not> contains (GOOGLE_CLIENT_ID cfg) ''your_google_client_id_here''
   \<and> \<not> contains (JWT_SECRET_KEY cfg) ''CHANGE_ME'' \<and> 32 \<le> str_len (JWT_SECRET_KEY cfg)
   \<and> \<not> contains (ADMIN_SESSION_SECRET cfg) ''CHANGE_ME'' \<and> 32 \<le> str_len (ADMIN_SESSION_SECRET cfg)
   \<and> \<not> ENABLE_API_DOCS cfg \<and> origin_list cfg \<noteq> []
   \<and> (\<forall>origin \<in> set (origin_list cfg). cors_errors origin = [])"
  unfolding prod_errors_def by (auto split: if_splits)

lemma cors_errors_empty:
  "cors_errors origin = [] \<longleftrightarrow>
     origin \<noteq> ''*'' \<and> \<not> contains origin ''localhost'' \<and> \<not> contains origin ''127.0.0.1''"
  by (simp add: cors_errors_def)

lemma apply_cors_defaults_other [simp]:
  "ENVIRONMENT (apply_cors_defaults cfg) = ENVIRONMENT cfg"
  "DB_HOST (apply_cors_defaults cfg) = DB_HOST cfg"
  "JWT_SECRET_KEY (apply_cors_defaults cfg) = JWT_SECRET_KEY cfg"
  "ADMIN_SESSION_SECRET (apply_cors_defaults cfg) = ADMIN_SESSION_SECRET cfg"
  "ENABLE_API_DOCS (apply_cors_defaults cfg) = ENABLE_API_DOCS cfg"
  by (simp_all add: apply_cors_defaults_def)

lemma apply_cors_defaults_prod:
  "ENVIRONMENT cfg \<noteq> Env_local \<Longrightarrow>
     origin_list (apply_cors_defaults cfg) = origin_list cfg"
  by (simp add: apply_cors_defaults_def origin_list_def)

end
