(* ===== verification/Nickname.thy ===== *)
theory Nickname
  imports Errors
begin

text \<open>
  \<open>core/nickname.py\<close>: the random nickname \<open>adjective-noun-number\<close>.  The draws of
  \<open>secrets\<close> are arguments: two indices below 50 and one number below 9000.
\<close>

definition ADJECTIVES :: "string list" where
  "ADJECTIVES =
     [''happy'', ''brave'', ''calm'', ''bright'', ''cozy'', ''swift'', ''kind'', ''bold'',
      ''gentle'', ''lively'', ''merry'', ''quiet'', ''sunny'', ''witty'', ''fancy'',
      ''mighty'', ''lucky'', ''jolly'', ''fluffy'', ''breezy'', ''eager'', ''fresh'',
      ''glad'', ''golden'', ''grand'', ''humble'', ''lush'', ''misty'', ''nimble'', ''noble'',
      ''plucky'', ''proud'', ''rapid'', ''royal'', ''silver'', ''snug'', ''spry'', ''sturdy'',
      ''tidy'', ''vivid'', ''warm'', ''wise'', ''zesty'', ''amber'', ''cool'', ''dewy'',
      ''frosty'', ''rustic'', ''shiny'', ''smooth'']"

definition NOUNS :: "string list" where
  "NOUNS =
     [''tiger'', ''panda'', ''otter'', ''fox'', ''owl'', ''deer'', ''whale'', ''lynx'',
      ''eagle'', ''bear'', ''hawk'', ''wolf'', ''puma'', ''koala'', ''moose'', ''bison'',
      ''ranger'', ''hiker'', ''camper'', ''scout'', ''pine'', ''oak'', ''river'', ''lake'',
      ''peak'', ''ridge'', ''valley'', ''meadow'', ''cliff'', ''brook'', ''ember'',
      ''lantern'', ''compass'', ''tent'', ''flame'', ''stove'', ''trail'', ''summit'',
      ''forest'', ''canyon'', ''glacier'', ''breeze'', ''stone'', ''branch'', ''dune'',
      ''harbor'', ''marsh'', ''raven'', ''falcon'', ''sparrow'']"

type_synonym draw = "nat \<times> nat \<times> nat"

text \<open>What \<open>secrets.choice\<close> and \<open>secrets.randbelow\<close> can return.\<close>

definition is_draw :: "draw \<Rightarrow> bool" where
  "is_draw d \<longleftrightarrow> fst d < length ADJECTIVES \<and> fst (snd d) < length NOUNS \<and> snd (snd d) < 9000"

definition generate_nickname :: "draw \<Rightarrow> string" where
  "generate_nickname d =
     (case d of (adjective, noun, n) \<Rightarrow>
        (ADJECTIVES ! adjective) @ ''-'' @ (NOUNS ! noun) @ ''-'' @ str_of_int (int (n + 1000)))"

section \<open>Laws\<close>

lemma words_length: "length ADJECTIVES = 50" "length NOUNS = 50"
  by (simp_all add: ADJECTIVES_def NOUNS_def)

lemma words_distinct: "distinct ADJECTIVES" "distinct NOUNS"
  by code_simp+

lemma words_no_dash:
  "list_all (\<lambda>w. CHR ''-'' \<notin> set w) ADJECTIVES" "list_all (\<lambda>w. CHR ''-'' \<notin> set w) NOUNS"
  by code_simp+

lemma words_lengths:
  "list_all (\<lambda>w. length w \<le> 7) ADJECTIVES" "list_all (\<lambda>w. length w \<le> 7) NOUNS"
  by code_simp+

lemma generate_nickname_inj:
  assumes "is_draw d" and "is_draw d'" and "generate_nickname d = generate_nickname d'"
  shows "d = d'"
proof -
  obtain a n k where d: "d = (a, n, k)" by (cases d)
  obtain a' n' k' where d': "d' = (a', n', k')" by (cases d')
  have in_words: "a < length ADJECTIVES" "a' < length ADJECTIVES" "n < length NOUNS" "n' < length NOUNS"
    using assms(1,2) by (simp_all add: is_draw_def d d')
  have no_dash: "CHR ''-'' \<notin> set (ADJECTIVES ! a)" "CHR ''-'' \<notin> set (ADJECTIVES ! a')"
      "CHR ''-'' \<notin> set (NOUNS ! n)" "CHR ''-'' \<notin> set (NOUNS ! n')"
    using in_words words_no_dash by (simp_all add: list_all_length)
  from assms(3) have "ADJECTIVES ! a = ADJECTIVES ! a' \<and> NOUNS ! n = NOUNS ! n'
      \<and> str_of_int (int (k + 1000)) = str_of_int (int (k' + 1000))"
    by (simp add: generate_nickname_def d d' append_sep_inject no_dash)
  then show ?thesis
    using in_words words_distinct
    by (auto simp: d d' nth_eq_iff_index_eq str_of_int_def dest: digits_of_inj)
qed

end
