(* ===== verification/Auth.thy ===== *)
theory Auth
  imports Config Nickname
begin

text \<open>
  Who is calling: \<open>core/security.py\<close> (the tokens), \<open>crud/user.py\<close>, the dependencies
  of \<open>core/deps.py\<close> that every endpoint is guarded by, the token endpoints of
  \<open>endpoints/auth.py\<close> and \<open>endpoints/admin_auth.py\<close>, and the session gate of
  \<open>admin/auth.py\<close>.

  PyJWT and google-auth are parameters.  \<open>jwt_lib\<close> is PyJWT's pair of functions; the law
  \<open>jwt_ok\<close> is its documented behaviour on a token it encoded itself (the two dates are
  truncated to seconds; a token is refused before \<open>iat\<close> and from \<open>exp\<close> on).  The Google
  verifier returns the claims or an exception; \<open>PyError ''ValueError''\<close> stands for any
  subclass of \<open>ValueError\<close>.
\<close>

section \<open>Roles\<close>

definition STAFF_ROLE_RANK :: "staff_role \<Rightarrow> nat" where
  "STAFF_ROLE_RANK r = (case r of STAFF \<Rightarrow> 1 | MANAGER \<Rightarrow> 2 | SUPERUSER \<Rightarrow> 3)"

text \<open>
  A ladder of roles: the gates the code builds from a rank table.  A gate that lets a role
  pass lets every higher role pass, and two gates are ordered as their roles are.
\<close>

locale role_ladder =
  fixes rank :: "'a \<Rightarrow> nat"
  assumes rank_inj: "rank a = rank b \<Longrightarrow> a = b"
begin

definition allows :: "'a \<Rightarrow> 'a \<Rightarrow> bool" where
  "allows needed held \<longleftrightarrow> \<not> rank held < rank needed"

lemma allows_refl: "allows a a"
  by (simp add: allows_def)

lemma allows_trans: "allows a b \<Longrightarrow> allows b c \<Longrightarrow> allows a c"
  by (simp add: allows_def)

lemma allows_antisym: "allows a b \<Longrightarrow> allows b a \<Longrightarrow> a = b"
  by (auto simp: allows_def intro: rank_inj)

lemma allows_total: "allows a b \<or> allows b a"
  by (auto simp: allows_def)

lemma allows_iff: "allows needed held \<longleftrightarrow> rank needed \<le> rank held"
  by (auto simp: allows_def)

end

interpretation staff: role_ladder STAFF_ROLE_RANK
  by unfold_locales (auto simp: STAFF_ROLE_RANK_def split: staff_role.splits)

instantiation staff_role :: linorder
begin

definition less_eq_staff_role :: "staff_role \<Rightarrow> staff_role \<Rightarrow> bool" where
  "less_eq_staff_role a b \<longleftrightarrow> STAFF_ROLE_RANK a \<le> STAFF_ROLE_RANK b"

definition less_staff_role :: "staff_role \<Rightarrow> staff_role \<Rightarrow> bool" where
  "less_staff_role a b \<longleftrightarrow> STAFF_ROLE_RANK a < STAFF_ROLE_RANK b"

instance
  by standard (auto simp: less_eq_staff_role_def less_staff_role_def intro: staff.rank_inj)

end

lemma staff_allows_le: "staff.allows needed held \<longleftrightarrow> needed \<le> held"
  by (simp add: staff.allows_iff less_eq_staff_role_def)

section \<open>Tokens\<close>

text \<open>
  The payload of a token: a missing entry is \<open>None\<close>; the extra claims of the admin token
  (email, is_staff, staff_role) come together.
\<close>

record claims =
  cl_sub :: "string option"
  cl_type :: "string option"
  cl_iat :: instant
  cl_exp :: instant
  cl_admin :: "(string \<times> bool \<times> staff_role) option"

record 't jwt_lib =
  jwt_encode :: "claims \<Rightarrow> string \<Rightarrow> string \<Rightarrow> 't"
  jwt_decode :: "'t \<Rightarrow> string \<Rightarrow> string \<Rightarrow> instant \<Rightarrow> claims option"

definition whole_seconds :: "instant \<Rightarrow> instant" where
  "whole_seconds t = seconds (t div seconds 1)"

definition dated_in_seconds :: "claims \<Rightarrow> claims" where
  "dated_in_seconds c = c\<lparr>cl_iat := whole_seconds (cl_iat c), cl_exp := whole_seconds (cl_exp c)\<rparr>"

definition jwt_ok :: "'t jwt_lib \<Rightarrow> bool" where
  "jwt_ok J \<longleftrightarrow> (\<forall>c key alg now.
     jwt_decode J (jwt_encode J c key alg) key alg now =
       (let d = dated_in_seconds c in if cl_iat d \<le> now \<and> now < cl_exp d then Some d else None))"

text \<open>A token library that satisfies the law: a token carries its payload and its key.\<close>

definition plain_jwt :: "(claims \<times> string \<times> string) jwt_lib" where
  "plain_jwt =
     \<lparr>jwt_encode = (\<lambda>c key alg. (dated_in_seconds c, key, alg)),
      jwt_decode = (\<lambda>t key alg now. case t of (d, k, a) \<Rightarrow>
        if k = key \<and> a = alg \<and> cl_iat d \<le> now \<and> now < cl_exp d then Some d else None)\<rparr>"

lemma plain_jwt_ok: "jwt_ok plain_jwt"
  by (simp add: jwt_ok_def plain_jwt_def Let_def)

definition create_access_token :: "'t jwt_lib \<Rightarrow> settings \<Rightarrow> instant \<Rightarrow> string \<Rightarrow> 't" where
  "create_access_token J cfg now user_id =
     jwt_encode J
       \<lparr>cl_sub = Some user_id, cl_type = Some ''access'', cl_iat = now,
        cl_exp = now + minutes (JWT_ACCESS_TOKEN_EXPIRE_MINUTES cfg), cl_admin = None\<rparr>
       (JWT_SECRET_KEY cfg) (JWT_ALGORITHM cfg)"

definition create_admin_access_token ::
    "'t jwt_lib \<Rightarrow> settings \<Rightarrow> instant \<Rightarrow> string \<Rightarrow> string \<Rightarrow> bool \<Rightarrow> staff_role \<Rightarrow> 't" where
  "create_admin_access_token J cfg now user_id email is_staff role =
     jwt_encode J
       \<lparr>cl_sub = Some user_id, cl_type = Some ''access'', cl_iat = now,
        cl_exp = now + hours (JWT_ADMIN_ACCESS_TOKEN_EXPIRE_HOURS cfg),
        cl_admin = Some (email, is_staff, role)\<rparr>
       (JWT_SECRET_KEY cfg) (JWT_ALGORITHM cfg)"

definition create_refresh_token :: "'t jwt_lib \<Rightarrow> settings \<Rightarrow> instant \<Rightarrow> string \<Rightarrow> 't" where
  "create_refresh_token J cfg now user_id =
     jwt_encode J
       \<lparr>cl_sub = Some user_id, cl_type = Some ''refresh'', cl_iat = now,
        cl_exp = now + days (JWT_REFRESH_TOKEN_EXPIRE_DAYS cfg), cl_admin = None\<rparr>
       (JWT_SECRET_KEY cfg) (JWT_ALGORITHM cfg)"

definition decode_token :: "'t jwt_lib \<Rightarrow> settings \<Rightarrow> instant \<Rightarrow> 't \<Rightarrow> claims option" where
  "decode_token J cfg now token = jwt_decode J token (JWT_SECRET_KEY cfg) (JWT_ALGORITHM cfg) now"

record google_claims =
  gc_sub :: "string option"
  gc_email :: "string option"
  gc_email_verified :: bool
  gc_name :: "string option"
  gc_picture :: "string option"

type_synonym google_verifier = "string \<Rightarrow> string \<Rightarrow> google_claims res"

definition verify_google_id_token :: "google_verifier \<Rightarrow> settings \<Rightarrow> string \<Rightarrow> google_claims res" where
  "verify_google_id_token google cfg token =
     bindE (google token (GOOGLE_CLIENT_ID cfg)) (\<lambda>idinfo.
       if \<not> gc_email_verified idinfo
       then Inl (PyError ''ValueError'' ''Email not verified by Google'')
       else Inr idinfo)"

definition is_value_error :: "exn \<Rightarrow> bool" where
  "is_value_error e = (case e of PyError n _ \<Rightarrow> n = ''ValueError'' | _ \<Rightarrow> False)"

text \<open>\<open>try: info = verify(...) except ValueError: raise UNAUTHORIZED\<close>.\<close>

definition checked_google_info :: "google_verifier \<Rightarrow> settings \<Rightarrow> string \<Rightarrow> google_claims res" where
  "checked_google_info google cfg token =
     (case verify_google_id_token google cfg token of
        Inl e \<Rightarrow> if is_value_error e then Inl (app_error UNAUTHORIZED) else Inl e
      | Inr info \<Rightarrow> Inr info)"

section \<open>Users\<close>

definition get_user_by_id :: "string \<Rightarrow> 'r world \<Rightarrow> user option res" where
  "get_user_by_id user_id w =
     scalar_one_or_none multiple_results (filter (\<lambda>u. u_uid u = user_id) (users w))"

definition get_user_by_google_sub :: "string \<Rightarrow> 'r world \<Rightarrow> user option res" where
  "get_user_by_google_sub sub w =
     scalar_one_or_none multiple_results (filter (\<lambda>u. u_google_sub u = sub) (users w))"

definition get_user_by_email :: "string \<Rightarrow> 'r world \<Rightarrow> user option res" where
  "get_user_by_email email w =
     scalar_one_or_none multiple_results
       (filter (\<lambda>u. str_lower (u_email u) = str_lower email) (users w))"

definition NICKNAME_GENERATION_ATTEMPTS :: nat where
  "NICKNAME_GENERATION_ATTEMPTS = 10"

fun try_nicknames :: "draw list \<Rightarrow> 'r world \<Rightarrow> string res" where
  "try_nicknames [] w = Inl (PyError ''RuntimeError''
     ''Failed to generate unique nickname after 10 attempts'')"
| "try_nicknames (d # ds) w =
     bindE (scalar_one_or_none multiple_results
              (filter (\<lambda>u. u_nickname u = generate_nickname d) (users w)))
       (\<lambda>found. if found = None then Inr (generate_nickname d) else try_nicknames ds w)"

definition generate_unique_nickname :: "(nat \<Rightarrow> draw) \<Rightarrow> 'r world \<Rightarrow> string res" where
  "generate_unique_nickname draws w =
     try_nicknames (map draws [0..<NICKNAME_GENERATION_ATTEMPTS]) w"

text \<open>
  \<open>users\<close> has four unique columns, and addresses are unique in lower case too
  (\<open>ix_users_email_lower\<close>, see \<open>Schema\<close>); the INSERT fails on any of them.
\<close>

definition insert_user :: "user \<Rightarrow> 'r world \<Rightarrow> 'r world option" where
  "insert_user u w =
     (if u_uid u \<in> u_uid ` set (users w) \<or> u_email u \<in> u_email ` set (users w)
         \<or> str_lower (u_email u) \<in> (\<lambda>v. str_lower (u_email v)) ` set (users w)
         \<or> u_google_sub u \<in> u_google_sub ` set (users w)
         \<or> u_nickname u \<in> u_nickname ` set (users w)
      then None else Some (w\<lparr>users := users w @ [u]\<rparr>))"

definition new_user ::
    "uid \<Rightarrow> instant \<Rightarrow> string \<Rightarrow> string \<Rightarrow> string \<Rightarrow> string option \<Rightarrow> string option \<Rightarrow> user" where
  "new_user uid now email sub nickname name picture =
     \<lparr>u_uid = uid, u_email = str_lower email, u_google_sub = sub, u_nickname = nickname,
      u_name = name, u_picture = picture, u_is_active = True, u_is_staff = False,
      u_staff_role = STAFF, u_membership_tier = FREE, u_identity_verified_at = None,
      u_onboarding_survey_completed_at = None, u_referred_by_uid = None,
      u_created_at = now, u_updated_at = now\<rparr>"

definition create_user ::
    "uid \<Rightarrow> (nat \<Rightarrow> draw) \<Rightarrow> instant \<Rightarrow> string \<Rightarrow> string \<Rightarrow> string option \<Rightarrow> string option
       \<Rightarrow> 'r world \<Rightarrow> user res \<times> 'r world" where
  "create_user uid draws now email sub name picture w =
     check (generate_unique_nickname draws w) w (\<lambda>nickname.
       let u = new_user uid now email sub nickname name picture
       in case insert_user u w of
            None \<Rightarrow> raise integrity_error w
          | Some w' \<Rightarrow> ret u w')"

text \<open>An UPDATE is sent only when an attribute changed, and then sets \<open>updated_at\<close>.\<close>

definition save_user :: "instant \<Rightarrow> user \<Rightarrow> user \<Rightarrow> 'r world \<Rightarrow> user res \<times> 'r world" where
  "save_user now old new w =
     (if new = old then ret old w
      else let saved = new\<lparr>u_updated_at := now\<rparr>
           in ret saved (w\<lparr>users := update_where (\<lambda>u. u_uid u = u_uid old) (\<lambda>_. saved) (users w)\<rparr>))"

definition update_user_profile ::
    "instant \<Rightarrow> user \<Rightarrow> string option \<Rightarrow> string option \<Rightarrow> 'r world \<Rightarrow> user res \<times> 'r world" where
  "update_user_profile now u name picture w =
     save_user now u
       (u\<lparr>u_name := (if name \<noteq> None then name else u_name u),
          u_picture := (if picture \<noteq> None then picture else u_picture u)\<rparr>) w"

definition mark_onboarding_survey_completed ::
    "instant \<Rightarrow> user \<Rightarrow> instant option \<Rightarrow> 'r world \<Rightarrow> user res \<times> 'r world" where
  "mark_onboarding_survey_completed now u completed_at w =
     save_user now u
       (u\<lparr>u_onboarding_survey_completed_at :=
            Some (case completed_at of None \<Rightarrow> now | Some t \<Rightarrow> t),
          u_membership_tier := MEMBER\<rparr>) w"

section \<open>Dependencies\<close>

definition email_domain :: "string \<Rightarrow> string" where
  "email_domain email = snd (snd (str_partition (CHR ''@'') email))"

definition domain_allowed :: "settings \<Rightarrow> string \<Rightarrow> bool" where
  "domain_allowed cfg email =
     (case ALLOWED_EMAIL_DOMAIN cfg of
        None \<Rightarrow> True
      | Some d \<Rightarrow> d = [] \<or> str_lower (email_domain email) = str_lower d)"

definition verify_staff_google_login ::
    "google_verifier \<Rightarrow> settings \<Rightarrow> string \<Rightarrow> 'r world \<Rightarrow> user res" where
  "verify_staff_google_login google cfg id_token w =
     bindE (checked_google_info google cfg id_token) (\<lambda>info.
     case gc_email info of
       None \<Rightarrow> Inl (app_error UNAUTHORIZED)
     | Some email \<Rightarrow>
         if email = [] then Inl (app_error UNAUTHORIZED)
         else if \<not> domain_allowed cfg email then Inl (app_error FORBIDDEN)
         else bindE (get_user_by_email email w) (\<lambda>found.
           case found of
             None \<Rightarrow> Inl (app_error FORBIDDEN)
           | Some u \<Rightarrow>
               if \<not> u_is_staff u then Inl (app_error FORBIDDEN)
               else if \<not> u_is_active u then Inl (app_error FORBIDDEN)
               else Inr u))"

definition get_current_user ::
    "'t jwt_lib \<Rightarrow> settings \<Rightarrow> instant \<Rightarrow> 't option \<Rightarrow> 'r world \<Rightarrow> user res" where
  "get_current_user J cfg now credentials w =
     (case credentials of
        None \<Rightarrow> Inl (app_error UNAUTHORIZED)
      | Some token \<Rightarrow>
         (case decode_token J cfg now token of
            None \<Rightarrow> Inl (app_error UNAUTHORIZED)
          | Some payload \<Rightarrow>
              if cl_type payload \<noteq> Some ''access'' then Inl (app_error UNAUTHORIZED)
              else (case cl_sub payload of
                      None \<Rightarrow> Inl key_error
                    | Some sub \<Rightarrow>
                        bindE (get_user_by_id sub w) (\<lambda>found.
                          case found of
                            None \<Rightarrow> Inl (app_error UNAUTHORIZED)
                          | Some u \<Rightarrow> if \<not> u_is_active u then Inl (app_error FORBIDDEN)
                                      else Inr u))))"

definition get_current_user_optional ::
    "'t jwt_lib \<Rightarrow> settings \<Rightarrow> instant \<Rightarrow> 't option \<Rightarrow> 'r world \<Rightarrow> user option res" where
  "get_current_user_optional J cfg now credentials w =
     (if credentials = None then Inr None
      else bindE (get_current_user J cfg now credentials w) (\<lambda>u. Inr (Some u)))"

text \<open>What an endpoint that needs a user makes of an optional one.\<close>

definition login_required :: "user option res \<Rightarrow> user res" where
  "login_required visitor =
     bindE visitor (\<lambda>u. case u of None \<Rightarrow> Inl (app_error UNAUTHORIZED) | Some u \<Rightarrow> Inr u)"

lemma login_required_current:
  "login_required (get_current_user_optional J cfg now credentials w)
     = get_current_user J cfg now credentials w"
proof (cases credentials)
  case (Some t)
  then show ?thesis
    by (cases "get_current_user J cfg now credentials w")
      (simp_all add: login_required_def get_current_user_optional_def)
qed (simp add: login_required_def get_current_user_optional_def get_current_user_def)

definition require_staff :: "user \<Rightarrow> user res" where
  "require_staff u = (if \<not> u_is_staff u then Inl (app_error FORBIDDEN) else Inr u)"

definition require_role :: "staff_role \<Rightarrow> user \<Rightarrow> user res" where
  "require_role min_role u =
     bindE (require_staff u) (\<lambda>staff.
       if STAFF_ROLE_RANK (u_staff_role staff) < STAFF_ROLE_RANK min_role
       then Inl (app_error FORBIDDEN) else Inr staff)"

text \<open>
  The gate of the routers under \<open>/internal\<close>, and of their routes that need a higher role:
  the caller is authenticated, then checked.
\<close>

definition as_staff :: "user res \<Rightarrow> user res" where
  "as_staff caller = bindE caller require_staff"

definition as_role :: "staff_role \<Rightarrow> user res \<Rightarrow> user res" where
  "as_role min_role caller = bindE caller (require_role min_role)"

lemma as_staff_Inr: "as_staff caller = Inr u \<longleftrightarrow> caller = Inr u \<and> u_is_staff u"
  by (auto simp: as_staff_def bindE_Inr_iff require_staff_def split: if_splits)

lemma as_role_Inr:
  "as_role r caller = Inr u \<longleftrightarrow> caller = Inr u \<and> u_is_staff u \<and> r \<le> u_staff_role u"
  by (auto simp: as_role_def bindE_Inr_iff require_role_def require_staff_def not_less
      less_eq_staff_role_def split: if_splits)

section \<open>Token endpoints\<close>

record 't token_response =
  access_token :: 't
  refresh_token :: 't
  token_type :: string

definition token_response_for :: "'t jwt_lib \<Rightarrow> settings \<Rightarrow> instant \<Rightarrow> user \<Rightarrow> 't token_response" where
  "token_response_for J cfg now u =
     \<lparr>access_token = create_access_token J cfg now (u_uid u),
      refresh_token = create_refresh_token J cfg now (u_uid u), token_type = ''bearer''\<rparr>"

definition refresh ::
    "'t jwt_lib \<Rightarrow> settings \<Rightarrow> instant \<Rightarrow> 't \<Rightarrow> 'r world \<Rightarrow> 't token_response res" where
  "refresh J cfg now token w =
     (case decode_token J cfg now token of
        None \<Rightarrow> Inl (app_error UNAUTHORIZED)
      | Some payload \<Rightarrow>
          if cl_type payload \<noteq> Some ''refresh'' then Inl (app_error UNAUTHORIZED)
          else (case cl_sub payload of
                  None \<Rightarrow> Inl key_error
                | Some sub \<Rightarrow>
                    bindE (get_user_by_id sub w) (\<lambda>found.
                      case found of
                        None \<Rightarrow> Inl (app_error UNAUTHORIZED)
                      | Some u \<Rightarrow> if \<not> u_is_active u then Inl (app_error FORBIDDEN)
                                  else Inr (token_response_for J cfg now u))))"

record user_response =
  ur_uid :: uid
  ur_email :: string
  ur_nickname :: string
  ur_name :: "string option"
  ur_picture :: "string option"
  ur_is_active :: bool
  ur_membership_tier :: membership_tier
  ur_identity_verified_at :: "instant option"
  ur_onboarding_survey_completed_at :: "instant option"
  ur_created_at :: instant
  ur_updated_at :: instant
  ur_is_identity_verified :: bool
  ur_has_completed_onboarding_survey :: bool

definition user_response_of :: "user \<Rightarrow> user_response" where
  "user_response_of u =
     \<lparr>ur_uid = u_uid u, ur_email = u_email u, ur_nickname = u_nickname u, ur_name = u_name u,
      ur_picture = u_picture u, ur_is_active = u_is_active u,
      ur_membership_tier = u_membership_tier u,
      ur_identity_verified_at = u_identity_verified_at u,
      ur_onboarding_survey_completed_at = u_onboarding_survey_completed_at u,
      ur_created_at = u_created_at u, ur_updated_at = u_updated_at u,
      ur_is_identity_verified = (u_identity_verified_at u \<noteq> None),
      ur_has_completed_onboarding_survey = (u_onboarding_survey_completed_at u \<noteq> None)\<rparr>"

definition me ::
    "'t jwt_lib \<Rightarrow> settings \<Rightarrow> instant \<Rightarrow> 't option \<Rightarrow> 'r world \<Rightarrow> user_response res" where
  "me J cfg now credentials w =
     bindE (get_current_user J cfg now credentials w) (\<lambda>u. Inr (user_response_of u))"

record admin_user_summary =
  au_id :: uid
  au_email :: string
  au_name :: "string option"
  au_is_staff :: bool
  au_staff_role :: staff_role

record 't admin_login_response =
  admin_token :: 't
  admin_user :: admin_user_summary

definition admin_google_login ::
    "google_verifier \<Rightarrow> 't jwt_lib \<Rightarrow> settings \<Rightarrow> instant \<Rightarrow> string \<Rightarrow> 'r world
       \<Rightarrow> 't admin_login_response res" where
  "admin_google_login google J cfg now id_token w =
     bindE (verify_staff_google_login google cfg id_token w) (\<lambda>u.
       Inr \<lparr>admin_token = create_admin_access_token J cfg now (u_uid u) (u_email u)
                            (u_is_staff u) (u_staff_role u),
            admin_user = \<lparr>au_id = u_uid u, au_email = u_email u, au_name = u_name u,
                          au_is_staff = u_is_staff u, au_staff_role = u_staff_role u\<rparr>\<rparr>)"

section \<open>The session of the admin pages\<close>

record admin_session =
  session_user_uid :: "string option"
  session_user_email :: "string option"

definition empty_session :: admin_session where
  "empty_session = \<lparr>session_user_uid = None, session_user_email = None\<rparr>"

definition admin_login ::
    "google_verifier \<Rightarrow> settings \<Rightarrow> string option \<Rightarrow> 'r world \<Rightarrow> admin_session
       \<Rightarrow> bool \<times> admin_session" where
  "admin_login google cfg id_token w session =
     (case id_token of
        None \<Rightarrow> (False, session)
      | Some token \<Rightarrow>
          if token = [] then (False, session)
          else (case verify_staff_google_login google cfg token w of
                  Inl _ \<Rightarrow> (False, session)
                | Inr u \<Rightarrow> (True, session\<lparr>session_user_uid := Some (u_uid u),
                                          session_user_email := Some (u_email u)\<rparr>)))"

definition admin_logout :: "admin_session \<Rightarrow> bool \<times> admin_session" where
  "admin_logout session = (True, empty_session)"

definition admin_authenticate ::
    "'r world \<Rightarrow> admin_session \<Rightarrow> bool res \<times> admin_session" where
  "admin_authenticate w session =
     (if \<not> truthy (session_user_uid session) then ret False session
      else check (get_user_by_id (the (session_user_uid session)) w) session (\<lambda>found.
        case found of
          None \<Rightarrow> ret False empty_session
        | Some u \<Rightarrow> if \<not> u_is_active u \<or> \<not> u_is_staff u then ret False empty_session
                    else ret True session))"

section \<open>Laws\<close>

text \<open>
  What the unique constraints and \<open>create_user\<close> keep of the table of users: its four
  columns are keys, and every address is stored in lower case.
\<close>

definition users_ok :: "user list \<Rightarrow> bool" where
  "users_ok us \<longleftrightarrow> unique_key u_uid us \<and> unique_key u_email us \<and> unique_key u_google_sub us
     \<and> unique_key u_nickname us \<and> (\<forall>u \<in> set us. str_lower (u_email u) = u_email u)"

lemma users_ok_empty [simp]: "users_ok []"
  by (simp add: users_ok_def unique_key_def)

lemma get_user_by_id_ok:
  "users_ok (users w) \<Longrightarrow> get_user_by_id k w = Inr (get_by_key u_uid k (users w))"
  by (simp add: get_user_by_id_def users_ok_def scalar_one_or_none_unique)

lemma get_user_by_id_mem:
  "users_ok (users w) \<Longrightarrow> u \<in> set (users w) \<Longrightarrow> get_user_by_id (u_uid u) w = Inr (Some u)"
  by (simp add: get_user_by_id_ok users_ok_def get_by_key_mem)

lemma get_user_by_google_sub_ok:
  "users_ok (users w) \<Longrightarrow>
     get_user_by_google_sub k w = Inr (get_by_key u_google_sub k (users w))"
  by (simp add: get_user_by_google_sub_def users_ok_def scalar_one_or_none_unique)

lemma get_user_by_email_ok:
  assumes "users_ok (users w)"
  shows "get_user_by_email email w = Inr (get_by_key u_email (str_lower email) (users w))"
proof -
  have "filter (\<lambda>u. str_lower (u_email u) = str_lower email) (users w)
      = filter (\<lambda>u. u_email u = str_lower email) (users w)"
    using assms by (auto simp: users_ok_def intro: filter_cong)
  then show ?thesis
    using assms by (simp add: get_user_by_email_def users_ok_def scalar_one_or_none_unique)
qed

lemma decode_encoded:
  assumes "jwt_ok J"
  shows "decode_token J cfg now (create_access_token J cfg t0 i) =
      (if whole_seconds t0 \<le> now \<and> now < whole_seconds (t0 + minutes (JWT_ACCESS_TOKEN_EXPIRE_MINUTES cfg))
       then Some (dated_in_seconds \<lparr>cl_sub = Some i, cl_type = Some ''access'', cl_iat = t0,
              cl_exp = t0 + minutes (JWT_ACCESS_TOKEN_EXPIRE_MINUTES cfg), cl_admin = None\<rparr>)
       else None)"
    and "decode_token J cfg now (create_refresh_token J cfg t0 i) =
      (if whole_seconds t0 \<le> now \<and> now < whole_seconds (t0 + days (JWT_REFRESH_TOKEN_EXPIRE_DAYS cfg))
       then Some (dated_in_seconds \<lparr>cl_sub = Some i, cl_type = Some ''refresh'', cl_iat = t0,
              cl_exp = t0 + days (JWT_REFRESH_TOKEN_EXPIRE_DAYS cfg), cl_admin = None\<rparr>)
       else None)"
    and "decode_token J cfg now (create_admin_access_token J cfg t0 i email s role) =
      (if whole_seconds t0 \<le> now \<and> now < whole_seconds (t0 + hours (JWT_ADMIN_ACCESS_TOKEN_EXPIRE_HOURS cfg))
       then Some (dated_in_seconds \<lparr>cl_sub = Some i, cl_type = Some ''access'', cl_iat = t0,
              cl_exp = t0 + hours (JWT_ADMIN_ACCESS_TOKEN_EXPIRE_HOURS cfg),
              cl_admin = Some (email, s, role)\<rparr>)
       else None)"
  using assms unfolding jwt_ok_def decode_token_def create_access_token_def
    create_refresh_token_def create_admin_access_token_def
  by (simp_all add: Let_def dated_in_seconds_def)

lemma dated_in_seconds_sel [simp]:
  "cl_sub (dated_in_seconds c) = cl_sub c" "cl_type (dated_in_seconds c) = cl_type c"
  by (simp_all add: dated_in_seconds_def)

lemma new_user_sel [simp]:
  "u_uid (new_user uid now email sub nickname name picture) = uid"
  "u_email (new_user uid now email sub nickname name picture) = str_lower email"
  "u_google_sub (new_user uid now email sub nickname name picture) = sub"
  "u_nickname (new_user uid now email sub nickname name picture) = nickname"
  "u_is_active (new_user uid now email sub nickname name picture)"
  "\<not> u_is_staff (new_user uid now email sub nickname name picture)"
  by (simp_all add: new_user_def)

lemma snd_create_user_users:
  assumes "create_user uid draws now email sub name picture w = (r, w')"
  shows "(\<exists>e. r = Inl e \<and> w' = w) \<or>
    (\<exists>nickname u. generate_unique_nickname draws w = Inr nickname
       \<and> u = new_user uid now email sub nickname name picture
       \<and> r = Inr u \<and> insert_user u w = Some w')"
  using assms
  by (cases "generate_unique_nickname draws w")
    (auto simp: create_user_def Let_def split: option.splits)

lemma insert_user_users:
  "insert_user u w = Some w' \<Longrightarrow> w' = w\<lparr>users := users w @ [u]\<rparr>
     \<and> u_uid u \<notin> u_uid ` set (users w) \<and> u_email u \<notin> u_email ` set (users w)
     \<and> u_google_sub u \<notin> u_google_sub ` set (users w) \<and> u_nickname u \<notin> u_nickname ` set (users w)"
  by (auto simp: insert_user_def split: if_splits)

lemma insert_user_ok:
  assumes "users_ok (users w)" and "str_lower (u_email u) = u_email u" and "insert_user u w = Some w'"
  shows "users_ok (users w')"
  using assms(1,2) insert_user_users [OF assms(3)]
  by (auto simp: users_ok_def unique_key_snoc)

lemma create_user_ok:
  assumes "users_ok (users w)"
  shows "users_ok (users (snd (create_user uid draws now email sub name picture w)))"
proof -
  obtain r w' where run: "create_user uid draws now email sub name picture w = (r, w')"
    by (cases "create_user uid draws now email sub name picture w")
  from snd_create_user_users [OF run] show ?thesis
    using insert_user_ok [OF assms, of "new_user uid now email sub _ name picture" w'] assms
    by (auto simp: run)
qed

lemma try_nicknames_fresh:
  "try_nicknames ds w = Inr n \<Longrightarrow> n \<notin> u_nickname ` set (users w)
     \<and> n \<in> generate_nickname ` set ds"
proof (induction ds)
  case (Cons d ds)
  then show ?case
    by (auto simp: bindE_Inr_iff scalar_one_or_none_None_iff filter_empty_conv split: if_splits)
qed simp

lemma try_nicknames_finds:
  assumes "unique_key u_nickname (users w)" and "d \<in> set ds"
    and "generate_nickname d \<notin> u_nickname ` set (users w)"
  shows "\<exists>n. try_nicknames ds w = Inr n"
  using assms(2)
proof (induction ds)
  case (Cons d' ds)
  have "get_by_key u_nickname (generate_nickname d) (users w) = None"
    using assms(3) by (simp add: get_by_key_None_iff)
  with Cons show ?case
    by (auto simp: scalar_one_or_none_unique [OF assms(1)])
qed simp

lemma save_user_ok:
  assumes "users_ok (users w)" and "u \<in> set (users w)"
    and "u_uid new = u_uid u" "u_email new = u_email u" "u_google_sub new = u_google_sub u"
      "u_nickname new = u_nickname u"
  shows "users_ok (users (snd (save_user now u new w)))"
proof -
  let ?f = "\<lambda>_. new\<lparr>u_updated_at := now\<rparr>"
  have same: "map g (update_where (\<lambda>x. u_uid x = u_uid u) ?f (users w)) = map g (users w)"
    if "g (new\<lparr>u_updated_at := now\<rparr>) = g u" for g :: "user \<Rightarrow> string"
  proof -
    have "x = u" if "x \<in> set (users w)" "u_uid x = u_uid u" for x
      using assms(1,2) that by (auto simp: users_ok_def unique_key_def distinct_map inj_on_def)
    then show ?thesis using that by (auto simp: update_where_def)
  qed
  have "\<forall>x \<in> set (update_where (\<lambda>x. u_uid x = u_uid u) ?f (users w)).
      str_lower (u_email x) = u_email x"
    using assms by (auto simp: set_update_where users_ok_def)
  then show ?thesis
    using assms by (simp add: save_user_def Let_def users_ok_def unique_key_def same)
qed

section \<open>Properties\<close>

text \<open>A table of two accounts for the concrete instances.\<close>

definition sample_user :: "uid \<Rightarrow> user" where
  "sample_user i =
     \<lparr>u_uid = i, u_email = i @ ''@vivac.kr'', u_google_sub = i, u_nickname = i, u_name = None,
      u_picture = None, u_is_active = True, u_is_staff = True, u_staff_role = MANAGER,
      u_membership_tier = FREE, u_identity_verified_at = None,
      u_onboarding_survey_completed_at = None, u_referred_by_uid = None,
      u_created_at = 0, u_updated_at = 0\<rparr>"

definition sample_accounts :: "unit world" where
  "sample_accounts = (empty_world ())\<lparr>users := [sample_user ''ann'', sample_user ''bob'']\<rparr>"

definition sample_settings :: settings where
  "sample_settings = default_settings ''db'' ''user'' ''pw'' ''client'' ''jwt'' ''admin''"

lemma sample_accounts_ok: "users_ok (users sample_accounts)"
  by code_simp

lemma sample_accounts_users [simp]:
  "users sample_accounts = [sample_user ''ann'', sample_user ''bob'']"
  by (simp add: sample_accounts_def)

text \<open>
  C40: A token pair works exactly for its lifetime.  For every stored account, the access token
  issued to it at some instant authenticates it, as itself, from that second until
  \<open>JWT_ACCESS_TOKEN_EXPIRE_MINUTES\<close> later and is refused with 401 outside; within that time a
  deactivated account gets 403.  The refresh token buys a new pair for
  \<open>JWT_REFRESH_TOKEN_EXPIRE_DAYS\<close> under the same conditions.
\<close>

theorem token_pair_lifetime:
  assumes "jwt_ok J" and "users_ok (users w)" and "u \<in> set (users w)"
  shows "get_current_user J cfg now (Some (create_access_token J cfg issued (u_uid u))) w =
       (if whole_seconds issued \<le> now
           \<and> now < whole_seconds (issued + minutes (JWT_ACCESS_TOKEN_EXPIRE_MINUTES cfg))
        then if u_is_active u then Inr u else Inl (app_error FORBIDDEN)
        else Inl (app_error UNAUTHORIZED))
     \<and> refresh J cfg now (create_refresh_token J cfg issued (u_uid u)) w =
       (if whole_seconds issued \<le> now
           \<and> now < whole_seconds (issued + days (JWT_REFRESH_TOKEN_EXPIRE_DAYS cfg))
        then if u_is_active u then Inr (token_response_for J cfg now u)
             else Inl (app_error FORBIDDEN)
        else Inl (app_error UNAUTHORIZED))"
  by (simp add: get_current_user_def refresh_def decode_encoded [OF assms(1)]
      get_user_by_id_mem [OF assms(2,3)])

lemma token_pair_lifetime_witness:
  "get_current_user plain_jwt sample_settings (minutes 29)
     (Some (create_access_token plain_jwt sample_settings 0 ''bob'')) sample_accounts
     = Inr (sample_user ''bob'')
   \<and> get_current_user plain_jwt sample_settings (minutes 30)
     (Some (create_access_token plain_jwt sample_settings 0 ''bob'')) sample_accounts
     = Inl (app_error UNAUTHORIZED)"
  using token_pair_lifetime [OF plain_jwt_ok sample_accounts_ok,
      of "sample_user ''bob''" sample_settings "minutes 29" 0]
    token_pair_lifetime [OF plain_jwt_ok sample_accounts_ok,
      of "sample_user ''bob''" sample_settings "minutes 30" 0]
  by (simp add: sample_user_def sample_settings_def default_settings_def whole_seconds_def
      minutes_def seconds_def)

text \<open>
  C11: The two kinds of token are not interchangeable: a refresh token never authenticates a
  request, and neither an access token nor an admin token can be refreshed, whatever the
  time, the account and the state.
\<close>

theorem token_types_do_not_mix:
  assumes "jwt_ok J"
  shows "get_current_user J cfg now (Some (create_refresh_token J cfg issued i)) w
       = Inl (app_error UNAUTHORIZED)
     \<and> refresh J cfg now (create_access_token J cfg issued i) w = Inl (app_error UNAUTHORIZED)
     \<and> refresh J cfg now (create_admin_access_token J cfg issued i email s role) w
       = Inl (app_error UNAUTHORIZED)"
  by (simp add: get_current_user_def refresh_def decode_encoded [OF assms])

lemma token_types_do_not_mix_witness:
  "refresh plain_jwt sample_settings (minutes 1)
     (create_access_token plain_jwt sample_settings 0 ''bob'') sample_accounts
   = Inl (app_error UNAUTHORIZED)"
  using token_types_do_not_mix [OF plain_jwt_ok] by blast

text \<open>
  C12: The claims of an admin token grant nothing.  A request that carries one passes
  \<open>require_role r\<close> exactly when the row of its user is, at that moment, active, staff and of
  a role at least \<open>r\<close>, whatever \<open>is_staff\<close> and \<open>staff_role\<close> the token was issued
  with.
\<close>

theorem admin_token_gate:
  assumes "jwt_ok J" and "users_ok (users w)" and "u \<in> set (users w)"
    and "whole_seconds issued \<le> now"
    and "now < whole_seconds (issued + hours (JWT_ADMIN_ACCESS_TOKEN_EXPIRE_HOURS cfg))"
  shows "bindE (get_current_user J cfg now
           (Some (create_admin_access_token J cfg issued (u_uid u) email claimed_staff claimed_role)) w)
           (require_role r)
       = (if u_is_active u \<and> u_is_staff u \<and> r \<le> u_staff_role u then Inr u
          else Inl (app_error FORBIDDEN))"
  using assms(4,5)
  by (simp add: get_current_user_def decode_encoded [OF assms(1)]
      get_user_by_id_mem [OF assms(2,3)] require_role_def require_staff_def
      less_eq_staff_role_def not_less)

lemma admin_token_gate_witness:
  "bindE (get_current_user plain_jwt sample_settings (hours 7)
     (Some (create_admin_access_token plain_jwt sample_settings 0 ''ann'' ''x'' True SUPERUSER))
     sample_accounts) (require_role SUPERUSER) = Inl (app_error FORBIDDEN)"
  using admin_token_gate [OF plain_jwt_ok sample_accounts_ok, of "sample_user ''ann''" 0
      "hours 7" sample_settings "''x''" True SUPERUSER SUPERUSER]
  by (simp add: sample_user_def sample_settings_def default_settings_def whole_seconds_def
      hours_def seconds_def less_eq_staff_role_def STAFF_ROLE_RANK_def)

text \<open>
  C36: Staff login (the admin API and the admin pages share it) admits exactly the active staff
  account whose address, in any case, is the verified Google address, within the allowed
  domain; everything else is refused and no account is created.
\<close>

theorem staff_login_spec:
  assumes "users_ok (users w)"
  shows "verify_staff_google_login google cfg token w = Inr u \<longleftrightarrow>
     (\<exists>info email. google token (GOOGLE_CLIENT_ID cfg) = Inr info \<and> gc_email_verified info
        \<and> gc_email info = Some email \<and> email \<noteq> [] \<and> domain_allowed cfg email
        \<and> u \<in> set (users w) \<and> u_email u = str_lower email \<and> u_is_staff u \<and> u_is_active u)"
    (is "?l \<longleftrightarrow> ?r")
proof -
  have lookup: "get_by_key u_email (str_lower email) (users w) = Some v \<longleftrightarrow>
      v \<in> set (users w) \<and> u_email v = str_lower email" for email v
    using assms get_by_key_Some_key [of u_email] get_by_key_mem [of u_email "users w" v]
    by (auto simp: users_ok_def)
  have "?r \<longleftrightarrow> (\<exists>info email. google token (GOOGLE_CLIENT_ID cfg) = Inr info \<and> gc_email_verified info
      \<and> gc_email info = Some email \<and> email \<noteq> [] \<and> domain_allowed cfg email
      \<and> get_by_key u_email (str_lower email) (users w) = Some u \<and> u_is_staff u \<and> u_is_active u)"
    by (simp add: lookup conj_assoc)
  then show ?thesis
    by (cases "google token (GOOGLE_CLIENT_ID cfg)")
      (auto simp: verify_staff_google_login_def checked_google_info_def
        verify_google_id_token_def get_user_by_email_ok [OF assms]
        split: option.splits if_splits)
qed

lemma staff_login_spec_witness:
  "verify_staff_google_login
     (\<lambda>_ _. Inr \<lparr>gc_sub = Some ''s'', gc_email = Some ''ANN@Vivac.kr'', gc_email_verified = True,
                 gc_name = None, gc_picture = None\<rparr>)
     (sample_settings\<lparr>ALLOWED_EMAIL_DOMAIN := Some ''vivac.KR''\<rparr>) ''t'' sample_accounts
   = Inr (sample_user ''ann'')"
proof -
  have "str_lower ''ANN@Vivac.kr'' = ''ann@vivac.kr''"
      "str_lower ''Vivac.kr'' = str_lower ''vivac.KR''"
    by code_simp+
  then show ?thesis
    unfolding staff_login_spec [OF sample_accounts_ok]
    by (simp add: sample_user_def domain_allowed_def email_domain_def str_partition_def)
qed


end
