(* ===== verification/Cache.thy ===== *)
theory Cache
  imports Auth
begin

text \<open>
  \<open>core/cache.py\<close> and \<open>core/limits.py\<close>: the versioned response cache and the request
  counters, over a Redis client that is a parameter.

  \<open>redis_client\<close> holds the commands the code sends, over a server state of any type; a
  command may fail with any exception.  \<open>client = None\<close> is an unset \<open>REDIS_URL\<close>.
  The locale \<open>redis_server\<close> is the documented behaviour of a server that is up:
  \<open>volatile\<close> are the keys with a time to live, \<open>decays\<close> is what the passing of time may do.
  The locale \<open>versioned_cache\<close> is the contract of one versioned family of keys, as the
  readers and the writers use it; every Redis server gives it for the list keys and for the
  detail keys.
\<close>

section \<open>The client\<close>

record 'r redis_client =
  rc_get :: "string \<Rightarrow> 'r \<Rightarrow> string option res"
  rc_set :: "string \<Rightarrow> string \<Rightarrow> nat \<Rightarrow> 'r \<Rightarrow> unit res \<times> 'r"
  rc_incr :: "string \<Rightarrow> 'r \<Rightarrow> int res \<times> 'r"
  rc_incr_expire_nx :: "string \<Rightarrow> nat \<Rightarrow> 'r \<Rightarrow> int res \<times> 'r"

definition get_cached :: "'r redis_client option \<Rightarrow> string \<Rightarrow> 'r \<Rightarrow> string option" where
  "get_cached client key r =
     (case client of
        None \<Rightarrow> None
      | Some c \<Rightarrow> (case rc_get c key r of Inl _ \<Rightarrow> None | Inr v \<Rightarrow> v))"

definition set_cached :: "'r redis_client option \<Rightarrow> string \<Rightarrow> string \<Rightarrow> nat \<Rightarrow> 'r \<Rightarrow> 'r" where
  "set_cached client key value ttl_seconds r =
     (case client of None \<Rightarrow> r | Some c \<Rightarrow> snd (rc_set c key value ttl_seconds r))"

definition incr_with_ttl :: "'r redis_client option \<Rightarrow> string \<Rightarrow> nat \<Rightarrow> 'r \<Rightarrow> int option \<times> 'r" where
  "incr_with_ttl client key ttl_seconds r =
     (case client of
        None \<Rightarrow> (None, r)
      | Some c \<Rightarrow>
          (case rc_incr_expire_nx c key ttl_seconds r of
             (Inl _, r') \<Rightarrow> (None, r')
           | (Inr count, r') \<Rightarrow> (Some count, r')))"

text \<open>
  \<open>int(value) if value else 0\<close>, where an exception of \<open>int\<close> is caught like one of the
  client.
\<close>

definition version_of_value :: "string option \<Rightarrow> int" where
  "version_of_value value =
     (if truthy value then (case int_of_str (the value) of None \<Rightarrow> 0 | Some n \<Rightarrow> n) else 0)"

definition SPOTS_VERSION_KEY :: string where
  "SPOTS_VERSION_KEY = ''spots:version''"

definition get_spots_version :: "'r redis_client option \<Rightarrow> 'r \<Rightarrow> int" where
  "get_spots_version client r =
     (case client of
        None \<Rightarrow> 0
      | Some c \<Rightarrow> (case rc_get c SPOTS_VERSION_KEY r of
                     Inl _ \<Rightarrow> 0 | Inr value \<Rightarrow> version_of_value value))"

definition bump_spots_version :: "'r redis_client option \<Rightarrow> 'r \<Rightarrow> 'r" where
  "bump_spots_version client r =
     (case client of None \<Rightarrow> r | Some c \<Rightarrow> snd (rc_incr c SPOTS_VERSION_KEY r))"

datatype param_value = P_None | P_Text string | P_List "string list" | P_Int int

definition normalize_param :: "param_value \<Rightarrow> string" where
  "normalize_param value =
     (case value of
        P_List xs \<Rightarrow> str_join '','' (sort xs)
      | P_None \<Rightarrow> ''''
      | P_Text s \<Rightarrow> s
      | P_Int i \<Rightarrow> str_of_int i)"

definition raw_params :: "(string \<times> param_value) list \<Rightarrow> string" where
  "raw_params params =
     str_join ''&'' (map (\<lambda>(k, v). k @ ''='' @ normalize_param v) (sort_key fst params))"

definition spots_list_key :: "(string \<Rightarrow> string) \<Rightarrow> (string \<times> param_value) list \<Rightarrow> int \<Rightarrow> string" where
  "spots_list_key sha256_hex params version =
     ''spots:list:v'' @ str_of_int version @ '':'' @ sha256_hex (raw_params params)"

definition make_spots_list_key ::
    "(string \<Rightarrow> string) \<Rightarrow> 'r redis_client option \<Rightarrow> (string \<times> param_value) list \<Rightarrow> 'r \<Rightarrow> string" where
  "make_spots_list_key sha256_hex client params r =
     spots_list_key sha256_hex params (get_spots_version client r)"

definition spot_detail_version_key :: "uid \<Rightarrow> string" where
  "spot_detail_version_key uid = ''spots:detail_version:'' @ uid"

definition get_spot_detail_version :: "'r redis_client option \<Rightarrow> uid \<Rightarrow> 'r \<Rightarrow> int" where
  "get_spot_detail_version client uid r =
     (case client of
        None \<Rightarrow> 0
      | Some c \<Rightarrow> (case rc_get c (spot_detail_version_key uid) r of
                     Inl _ \<Rightarrow> 0 | Inr value \<Rightarrow> version_of_value value))"

definition spot_detail_key_at :: "uid \<Rightarrow> int \<Rightarrow> string" where
  "spot_detail_key_at uid version = ''spots:detail:'' @ uid @ '':v'' @ str_of_int version"

definition spot_detail_key :: "'r redis_client option \<Rightarrow> uid \<Rightarrow> 'r \<Rightarrow> string" where
  "spot_detail_key client uid r = spot_detail_key_at uid (get_spot_detail_version client uid r)"

definition invalidate_spot_detail :: "'r redis_client option \<Rightarrow> uid \<Rightarrow> 'r \<Rightarrow> 'r" where
  "invalidate_spot_detail client uid r =
     (case client of None \<Rightarrow> r | Some c \<Rightarrow> snd (rc_incr c (spot_detail_version_key uid) r))"

section \<open>The same operations on the state of the program\<close>

definition bump_spots :: "'r redis_client option \<Rightarrow> 'r world \<Rightarrow> 'r world" where
  "bump_spots client w = w\<lparr>redis := bump_spots_version client (redis w)\<rparr>"

definition invalidate_detail :: "'r redis_client option \<Rightarrow> uid \<Rightarrow> 'r world \<Rightarrow> 'r world" where
  "invalidate_detail client uid w = w\<lparr>redis := invalidate_spot_detail client uid (redis w)\<rparr>"

definition invalidate_details :: "'r redis_client option \<Rightarrow> uid list \<Rightarrow> 'r world \<Rightarrow> 'r world" where
  "invalidate_details client uids w = fold (invalidate_detail client) uids w"

section \<open>Limits\<close>

definition SPOTS_BULK_MAX_BYTES :: nat where
  "SPOTS_BULK_MAX_BYTES = 5 * 1024 * 1024"

definition too_large :: exn where
  "too_large = app_exception VALIDATION_ERROR (Some 413)"

fun receive_chunks :: "nat \<Rightarrow> string list \<Rightarrow> string list \<Rightarrow> string res" where
  "receive_chunks received chunks [] = Inr (concat chunks)"
| "receive_chunks received chunks (chunk # rest) =
     (if received + length chunk > SPOTS_BULK_MAX_BYTES then Inl too_large
      else receive_chunks (received + length chunk) (chunks @ [chunk]) rest)"

definition enforce_spots_bulk_size :: "string option \<Rightarrow> string list \<Rightarrow> string res" where
  "enforce_spots_bulk_size content_length stream =
     (case (case content_length of None \<Rightarrow> None | Some h \<Rightarrow> int_of_str h) of
        Some declared \<Rightarrow>
          if declared > int SPOTS_BULK_MAX_BYTES then Inl too_large else receive_chunks 0 [] stream
      | None \<Rightarrow> receive_chunks 0 [] stream)"

definition rate_limit_actor :: "user option \<Rightarrow> string option \<Rightarrow> string option" where
  "rate_limit_actor u client_host =
     (case u of
        Some v \<Rightarrow> Some (''u:'' @ u_uid v)
      | None \<Rightarrow> (case client_host of Some h \<Rightarrow> Some (''ip:'' @ h) | None \<Rightarrow> None))"

definition rate_limit ::
    "'r redis_client option \<Rightarrow> string \<Rightarrow> nat \<Rightarrow> nat \<Rightarrow> user option \<Rightarrow> string option \<Rightarrow> 'r
       \<Rightarrow> unit res \<times> 'r" where
  "rate_limit client scope limit secs u client_host r =
     (case rate_limit_actor u client_host of
        None \<Rightarrow> (Inr (), r)
      | Some actor \<Rightarrow>
          (case incr_with_ttl client (''ratelimit:'' @ scope @ '':'' @ actor) secs r of
             (Some count, r') \<Rightarrow>
               if count > int limit then (Inl (app_error RATE_LIMITED), r') else (Inr (), r')
           | (None, r') \<Rightarrow> (Inr (), r')))"

text \<open>The dependency in front of an endpoint: the caller is resolved first.\<close>

definition rate_limited ::
    "'r redis_client option \<Rightarrow> string \<Rightarrow> nat \<Rightarrow> nat \<Rightarrow> user option res \<Rightarrow> string option
       \<Rightarrow> 'r world \<Rightarrow> unit res \<times> 'r world" where
  "rate_limited client scope limit secs visitor client_host w =
     check visitor w (\<lambda>u.
       case rate_limit client scope limit secs u client_host (redis w) of
         (outcome, r) \<Rightarrow> (outcome, w\<lparr>redis := r\<rparr>))"

lemma rate_limited_redis: "\<exists>r. snd (rate_limited client scope limit secs visitor host w) = w\<lparr>redis := r\<rparr>"
proof (cases visitor)
  case (Inl e)
  then show ?thesis by (intro exI [of _ "redis w"]) (simp add: rate_limited_def)
next
  case (Inr u)
  then show ?thesis
    by (cases "rate_limit client scope limit secs u host (redis w)") (auto simp: rate_limited_def)
qed

section \<open>Readers and writers of a versioned family\<close>

text \<open>
  A read of \<open>endpoints/explore.py\<close>, in the steps between which other requests run: it
  reads the version and makes its key, looks the key up, and on a miss queries the database
  and stores the answer under the key it made at the start.  A write of \<open>crud/\<close> commits and
  then raises the version.  \<open>commits\<close> counts the committed writes, so that the answer to a
  query is a function \<open>render\<close> of it; \<open>owed\<close> is the number of writers between the two
  steps; \<open>published v\<close> records how many writes were committed when the version became
  \<open>v\<close>.
\<close>

datatype stage =
    Waiting
  | Keyed int
  | Missed int
  | Loaded int nat
  | Answered int string

record 'r cache_run =
  commits :: nat
  owed :: nat
  server :: 'r
  published :: "int \<Rightarrow> nat"
  reader :: "nat \<Rightarrow> stage"

inductive cache_step ::
    "('r \<Rightarrow> int) \<Rightarrow> (int \<Rightarrow> string) \<Rightarrow> ('r \<Rightarrow> 'r) \<Rightarrow> (string \<Rightarrow> 'r \<Rightarrow> string option)
       \<Rightarrow> (string \<Rightarrow> string \<Rightarrow> 'r \<Rightarrow> 'r) \<Rightarrow> ('r \<Rightarrow> 'r \<Rightarrow> bool) \<Rightarrow> (nat \<Rightarrow> string)
       \<Rightarrow> 'r cache_run \<Rightarrow> 'r cache_run \<Rightarrow> bool"
  for version key_at bump get set_entry decays render
where
  commit: "cache_step version key_at bump get set_entry decays render s
     (s\<lparr>commits := Suc (commits s), owed := Suc (owed s)\<rparr>)"
| publish: "owed s = Suc n \<Longrightarrow>
     cache_step version key_at bump get set_entry decays render s
     (s\<lparr>owed := n, server := bump (server s),
        published := (published s)(version (bump (server s)) := commits s)\<rparr>)"
| start: "reader s i = Waiting \<Longrightarrow>
     cache_step version key_at bump get set_entry decays render s
     (s\<lparr>reader := (reader s)(i := Keyed (version (server s)))\<rparr>)"
| hit: "reader s i = Keyed v \<Longrightarrow> get (key_at v) (server s) = Some text \<Longrightarrow>
     cache_step version key_at bump get set_entry decays render s
     (s\<lparr>reader := (reader s)(i := Answered v text)\<rparr>)"
| miss: "reader s i = Keyed v \<Longrightarrow> get (key_at v) (server s) = None \<Longrightarrow>
     cache_step version key_at bump get set_entry decays render s
     (s\<lparr>reader := (reader s)(i := Missed v)\<rparr>)"
| load: "reader s i = Missed v \<Longrightarrow>
     cache_step version key_at bump get set_entry decays render s
     (s\<lparr>reader := (reader s)(i := Loaded v (commits s))\<rparr>)"
| store: "reader s i = Loaded v n \<Longrightarrow>
     cache_step version key_at bump get set_entry decays render s
     (s\<lparr>server := set_entry (key_at v) (render n) (server s),
        reader := (reader s)(i := Answered v (render n))\<rparr>)"
| pass: "decays (server s) r \<Longrightarrow>
     cache_step version key_at bump get set_entry decays render s (s\<lparr>server := r\<rparr>)"

definition cache_start ::
    "('r \<Rightarrow> int) \<Rightarrow> (int \<Rightarrow> string) \<Rightarrow> (string \<Rightarrow> 'r \<Rightarrow> string option) \<Rightarrow> 'r cache_run \<Rightarrow> bool" where
  "cache_start version key_at get s \<longleftrightarrow>
     commits s = 0 \<and> owed s = 0 \<and> (\<forall>v. published s v = 0)
   \<and> (\<forall>v. get (key_at v) (server s) = None) \<and> (\<forall>i. reader s i = Waiting)"

definition shows_since :: "(nat \<Rightarrow> string) \<Rightarrow> 'r cache_run \<Rightarrow> int \<Rightarrow> string \<Rightarrow> bool" where
  "shows_since render s v text \<longleftrightarrow>
     (\<exists>n. text = render n \<and> published s v \<le> n \<and> n \<le> commits s)"

definition stage_ok :: "(nat \<Rightarrow> string) \<Rightarrow> 'r cache_run \<Rightarrow> int \<Rightarrow> stage \<Rightarrow> bool" where
  "stage_ok render s now st = (case st of
      Waiting \<Rightarrow> True
    | Keyed v \<Rightarrow> v \<le> now
    | Missed v \<Rightarrow> v \<le> now
    | Loaded v n \<Rightarrow> v \<le> now \<and> published s v \<le> n \<and> n \<le> commits s
    | Answered v text \<Rightarrow> v \<le> now \<and> shows_since render s v text)"

definition cache_inv ::
    "('r \<Rightarrow> int) \<Rightarrow> (int \<Rightarrow> string) \<Rightarrow> (string \<Rightarrow> 'r \<Rightarrow> string option) \<Rightarrow> (nat \<Rightarrow> string)
       \<Rightarrow> 'r cache_run \<Rightarrow> bool" where
  "cache_inv version key_at get render s \<longleftrightarrow>
     (\<forall>v. published s v \<le> commits s)
   \<and> (\<forall>v text. get (key_at v) (server s) = Some text \<longrightarrow>
        v \<le> version (server s) \<and> shows_since render s v text)
   \<and> (\<forall>i. stage_ok render s (version (server s)) (reader s i))"

lemma shows_since_update [simp]:
  "shows_since render (s\<lparr>reader := f\<rparr>) v text = shows_since render s v text"
  "shows_since render (s\<lparr>server := r\<rparr>) v text = shows_since render s v text"
  by (simp_all add: shows_since_def)

lemma stage_ok_update [simp]:
  "stage_ok render (s\<lparr>reader := f\<rparr>) now st = stage_ok render s now st"
  "stage_ok render (s\<lparr>server := r\<rparr>) now st = stage_ok render s now st"
  by (simp_all add: stage_ok_def split: stage.split)

lemma stage_ok_simps [simp]:
  "stage_ok render s now Waiting"
  "stage_ok render s now (Keyed v) \<longleftrightarrow> v \<le> now"
  "stage_ok render s now (Missed v) \<longleftrightarrow> v \<le> now"
  "stage_ok render s now (Loaded v n) \<longleftrightarrow> v \<le> now \<and> published s v \<le> n \<and> n \<le> commits s"
  "stage_ok render s now (Answered v text) \<longleftrightarrow> v \<le> now \<and> shows_since render s v text"
  by (simp_all add: stage_ok_def)

lemma shows_since_mono:
  "shows_since render s v text \<Longrightarrow> commits s \<le> commits s' \<Longrightarrow> published s' v = published s v
     \<Longrightarrow> shows_since render s' v text"
  by (auto simp: shows_since_def)

locale versioned_cache =
  fixes version :: "'r \<Rightarrow> int" and key_at :: "int \<Rightarrow> string" and bump :: "'r \<Rightarrow> 'r"
    and get :: "string \<Rightarrow> 'r \<Rightarrow> string option" and set_entry :: "string \<Rightarrow> string \<Rightarrow> 'r \<Rightarrow> 'r"
    and decays :: "'r \<Rightarrow> 'r \<Rightarrow> bool" and healthy :: "'r \<Rightarrow> bool"
  assumes key_inj: "key_at v = key_at v' \<Longrightarrow> v = v'"
    and version_bump: "healthy r \<Longrightarrow> version (bump r) = version r + 1"
    and version_set: "healthy r \<Longrightarrow> version (set_entry (key_at v) text r) = version r"
    and version_decays: "healthy r \<Longrightarrow> decays r r' \<Longrightarrow> version r' = version r"
    and get_bump: "healthy r \<Longrightarrow> get (key_at v) (bump r) = get (key_at v) r"
    and get_set: "healthy r \<Longrightarrow> get (key_at v) (set_entry (key_at v') text r)
           = (if v = v' then Some text else get (key_at v) r)"
    and get_decays: "healthy r \<Longrightarrow> decays r r' \<Longrightarrow>
           get (key_at v) r' = get (key_at v) r \<or> get (key_at v) r' = None"
    and healthy_steps: "healthy r \<Longrightarrow> healthy (bump r)"
      "healthy r \<Longrightarrow> healthy (set_entry (key_at v) text r)"
      "healthy r \<Longrightarrow> decays r r' \<Longrightarrow> healthy r'"
begin

definition run_inv :: "(nat \<Rightarrow> string) \<Rightarrow> 'r cache_run \<Rightarrow> bool" where
  "run_inv render s \<longleftrightarrow> healthy (server s) \<and> cache_inv version key_at get render s"

lemma run_inv_start:
  "healthy (server s) \<Longrightarrow> cache_start version key_at get s \<Longrightarrow> run_inv render s"
  by (simp add: run_inv_def cache_start_def cache_inv_def)

lemma stage_ok_mono:
  assumes "stage_ok render s now st" and "now \<le> now'" and "commits s \<le> commits s'"
    and "\<And>v. v \<le> now \<Longrightarrow> published s' v = published s v"
  shows "stage_ok render s' now' st"
  using assms by (auto simp: stage_ok_def shows_since_def split: stage.splits)

lemma run_inv_step:
  assumes inv: "run_inv render s"
    and step: "cache_step version key_at bump get set_entry decays render s t"
  shows "run_inv render t"
proof -
  let ?now = "version (server s)"
  have ok: "healthy (server s)"
    and pub: "\<And>v. published s v \<le> commits s"
    and entry: "\<And>v text. get (key_at v) (server s) = Some text \<Longrightarrow> v \<le> ?now \<and> shows_since render s v text"
    and st: "\<And>i. stage_ok render s ?now (reader s i)"
    using inv by (auto simp: run_inv_def cache_inv_def)
  from step show ?thesis
  proof cases
    case commit
    have "stage_ok render t ?now (reader s i)" for i
      by (rule stage_ok_mono [OF st]) (simp_all add: commit)
    moreover have "get (key_at v) (server s) = Some a \<Longrightarrow> v \<le> ?now \<and> shows_since render t v a" for v a
      using entry [of v a] shows_since_mono [of render s v a t] by (simp add: commit)
    ultimately show ?thesis
      using ok pub by (simp add: run_inv_def cache_inv_def commit le_SucI)
  next
    case (publish n)
    have "stage_ok render t (?now + 1) (reader s i)" for i
      by (rule stage_ok_mono [OF st]) (simp_all add: publish version_bump ok)
    moreover have "get (key_at v) (server s) = Some a \<Longrightarrow> v \<le> ?now + 1 \<and> shows_since render t v a" for v a
      using entry [of v a] shows_since_mono [of render s v a t]
      by (simp add: publish version_bump ok)
    ultimately show ?thesis
      using ok pub by (simp add: run_inv_def cache_inv_def publish version_bump get_bump healthy_steps)
  next
    case (start i)
    then show ?thesis using ok pub entry st by (auto simp: run_inv_def cache_inv_def)
  next
    case (hit i v a)
    then show ?thesis using ok pub entry st by (auto simp: run_inv_def cache_inv_def)
  next
    case (miss i v)
    then show ?thesis using ok pub entry st st [of i] by (auto simp: run_inv_def cache_inv_def)
  next
    case (load i v)
    then show ?thesis using ok pub entry st st [of i] by (auto simp: run_inv_def cache_inv_def)
  next
    case (store i v n)
    have "shows_since render s v (render n)" "v \<le> ?now"
      using st [of i] by (auto simp: store shows_since_def)
    then show ?thesis
      using ok pub entry st
      by (auto simp: run_inv_def cache_inv_def store version_set get_set healthy_steps split: if_splits)
  next
    case (pass r)
    have "get (key_at v) r = Some a \<Longrightarrow> get (key_at v) (server s) = Some a" for v a
      using get_decays [OF ok pass(2), of v] by auto
    then show ?thesis
      using pass ok pub entry st
      by (auto simp: run_inv_def cache_inv_def version_decays [OF ok pass(2)] healthy_steps)
  qed
qed

sublocale run: step_system "\<lambda>s. healthy (server s) \<and> cache_start version key_at get s"
    "cache_step version key_at bump get set_entry decays render" "run_inv render"
  for render
  by unfold_locales (auto intro: run_inv_start run_inv_step)

text \<open>An answered read shows every write whose version it started at or before.\<close>

lemma answer_is_fresh:
  assumes "healthy (server s)" and "cache_start version key_at get s"
    and "(cache_step version key_at bump get set_entry decays render)\<^sup>*\<^sup>* s t"
    and "reader t i = Answered v text"
  shows "shows_since render t v text"
proof -
  have "run_inv render t" using assms(1,2,3) by (blast intro: run.inv_reachable)
  then have "stage_ok render t (version (server t)) (reader t i)"
    by (simp add: run_inv_def cache_inv_def)
  then show ?thesis by (simp add: stage_ok_def assms(4))
qed

text \<open>
  From every start, a write that commits and raises the version followed by a read that misses.
\<close>

lemma write_then_read:
  assumes ok: "healthy (server s)" and start: "cache_start version key_at get s"
  defines "v \<equiv> version (server s) + 1"
  shows "\<exists>t. (cache_step version key_at bump get set_entry decays render)\<^sup>*\<^sup>* s t
     \<and> published t v = 1 \<and> reader t i = Answered v (render 1)"
proof -
  let ?step = "cache_step version key_at bump get set_entry decays render"
  let ?c = "s\<lparr>commits := Suc (commits s), owed := Suc (owed s)\<rparr>"
  let ?p = "?c\<lparr>owed := owed s, server := bump (server ?c),
        published := (published ?c)(version (bump (server ?c)) := commits ?c)\<rparr>"
  let ?f = "?p\<lparr>server := set_entry (key_at v) (render 1) (bump (server s)),
        reader := (reader s)(i := Answered v (render 1))\<rparr>"
  let ?at = "\<lambda>st. ?p\<lparr>reader := (reader s)(i := st)\<rparr>"
  have v: "version (bump (server s)) = v" and empty: "get (key_at v) (bump (server s)) = None"
      "reader s i = Waiting" "commits s = 0"
    using start by (simp_all add: v_def version_bump [OF ok] get_bump [OF ok] cache_start_def)
  have "?step\<^sup>*\<^sup>* s ?c" by (rule r_into_rtranclp, rule cache_step.commit)
  also have "?step ?c ?p" by (rule cache_step.publish) simp
  also have "?step ?p (?at (Keyed v))"
    using cache_step.start [of ?p i version key_at bump get set_entry decays render]
    by (simp add: v empty)
  also have "?step (?at (Keyed v)) (?at (Missed v))"
    using cache_step.miss [of "?at (Keyed v)" i v get key_at version bump set_entry decays render]
    by (simp add: empty)
  also have "?step (?at (Missed v)) (?at (Loaded v 1))"
    using cache_step.load [of "?at (Missed v)" i v version key_at bump get set_entry decays render]
    by (simp add: empty)
  also have "?step (?at (Loaded v 1)) ?f"
    using cache_step.store [of "?at (Loaded v 1)" i v 1 version key_at bump get set_entry decays render]
    by simp
  finally show ?thesis
    by (intro exI conjI) (auto simp: v empty)
qed

end

section \<open>What a Redis server promises\<close>

definition is_counter :: "int \<Rightarrow> string option \<Rightarrow> bool" where
  "is_counter n v \<longleftrightarrow> 0 \<le> n \<and> (v = Some (str_of_int n) \<or> v = None \<and> n = 0)"

lemma str_of_int_nonempty [simp]: "str_of_int i \<noteq> []"
  by (simp add: str_of_int_def)

lemma version_of_counter: "is_counter n v \<Longrightarrow> version_of_value v = n"
  by (auto simp: is_counter_def version_of_value_def truthy_def int_of_str_of_int)

locale redis_server =
  fixes client :: "'r redis_client" and value_of :: "string \<Rightarrow> 'r \<Rightarrow> string option"
    and volatile :: "string \<Rightarrow> 'r \<Rightarrow> bool" and decays :: "'r \<Rightarrow> 'r \<Rightarrow> bool"
  assumes get_value: "rc_get client k r = Inr (value_of k r)"
    and set_value: "value_of k' (snd (rc_set client k v ttl r))
          = (if k' = k then Some v else value_of k' r)"
    and set_volatile: "volatile k' (snd (rc_set client k v ttl r)) \<longleftrightarrow> k' = k \<or> volatile k' r"
    and incr_counter: "is_counter n (value_of k r) \<Longrightarrow>
          value_of k (snd (rc_incr client k r)) = Some (str_of_int (n + 1))"
    and incr_other: "k' \<noteq> k \<Longrightarrow> value_of k' (snd (rc_incr client k r)) = value_of k' r"
    and incr_volatile: "volatile k' (snd (rc_incr client k r)) = volatile k' r"
    and pipe_counter: "is_counter n (value_of k r) \<Longrightarrow>
          fst (rc_incr_expire_nx client k ttl r) = Inr (n + 1)
        \<and> value_of k (snd (rc_incr_expire_nx client k ttl r)) = Some (str_of_int (n + 1))"
    and pipe_other: "k' \<noteq> k \<Longrightarrow>
          value_of k' (snd (rc_incr_expire_nx client k ttl r)) = value_of k' r"
        "k' \<noteq> k \<Longrightarrow> volatile k' (snd (rc_incr_expire_nx client k ttl r)) = volatile k' r"
    and decay_value: "decays r r' \<Longrightarrow>
          value_of k r' = value_of k r \<or> volatile k r \<and> value_of k r' = None"
    and decay_volatile: "decays r r' \<Longrightarrow> volatile k r' \<Longrightarrow> volatile k r"
begin

text \<open>A version counter: never given a time to live, holding no text but a number.\<close>

definition counting :: "string \<Rightarrow> 'r \<Rightarrow> bool" where
  "counting k r \<longleftrightarrow> \<not> volatile k r \<and> (\<exists>n. is_counter n (value_of k r))"

lemma get_cached_value [simp]: "get_cached (Some client) k r = value_of k r"
  by (simp add: get_cached_def get_value)

lemma spots_version_value: "get_spots_version (Some client) r = version_of_value (value_of SPOTS_VERSION_KEY r)"
  by (simp add: get_spots_version_def get_value)

lemma detail_version_value:
  "get_spot_detail_version (Some client) uid r
     = version_of_value (value_of (spot_detail_version_key uid) r)"
  by (simp add: get_spot_detail_version_def get_value)

lemma counting_incr:
  assumes "counting k r"
  shows "counting k (snd (rc_incr client k r))"
    and "version_of_value (value_of k (snd (rc_incr client k r))) = version_of_value (value_of k r) + 1"
proof -
  obtain n where n: "is_counter n (value_of k r)" using assms by (auto simp: counting_def)
  then have "is_counter (n + 1) (value_of k (snd (rc_incr client k r)))"
    by (simp add: incr_counter is_counter_def)
  with assms n show "counting k (snd (rc_incr client k r))"
      "version_of_value (value_of k (snd (rc_incr client k r))) = version_of_value (value_of k r) + 1"
    by (auto simp: counting_def incr_volatile version_of_counter)
qed

lemma counting_set:
  "counting k r \<Longrightarrow> k' \<noteq> k \<Longrightarrow> counting k (snd (rc_set client k' v ttl r))"
  by (simp add: counting_def set_volatile set_value)

lemma counting_decays:
  "counting k r \<Longrightarrow> decays r r' \<Longrightarrow> counting k r' \<and> value_of k r' = value_of k r"
  using decay_value [of r r' k] decay_volatile [of r r' k] by (auto simp: counting_def)

end

lemma list_key_inj: "spots_list_key sha params v = spots_list_key sha params v' \<Longrightarrow> v = v'"
  by (auto simp: spots_list_key_def append_sep_inject str_of_int_no_colon dest: str_of_int_inj)

lemma list_key_not_version: "spots_list_key sha params v \<noteq> SPOTS_VERSION_KEY"
  by (simp add: spots_list_key_def SPOTS_VERSION_KEY_def)

lemma detail_key_inj: "spot_detail_key_at uid v = spot_detail_key_at uid v' \<Longrightarrow> v = v'"
  by (auto simp: spot_detail_key_at_def dest: str_of_int_inj)

lemma detail_key_not_version: "spot_detail_key_at uid v \<noteq> spot_detail_version_key uid'"
  by (simp add: spot_detail_key_at_def spot_detail_version_key_def)

text \<open>Every server gives the contract of the cache to the list keys and to the detail keys.\<close>

sublocale redis_server \<subseteq> spots_list: versioned_cache
    "get_spots_version (Some client)" "spots_list_key sha params"
    "bump_spots_version (Some client)" "get_cached (Some client)"
    "\<lambda>k v. set_cached (Some client) k v ttl" decays "counting SPOTS_VERSION_KEY"
  for sha params ttl
proof (unfold_locales, goal_cases)
  case (1 v v') then show ?case by (rule list_key_inj)
next
  case 2 then show ?case by (simp add: bump_spots_version_def spots_version_value counting_incr)
next
  case 3 then show ?case
    by (simp add: set_cached_def spots_version_value set_value list_key_not_version [symmetric])
next
  case 4 then show ?case by (simp add: spots_version_value counting_decays)
next
  case 5 then show ?case by (simp add: bump_spots_version_def incr_other list_key_not_version)
next
  case 6 then show ?case by (auto simp: set_cached_def set_value dest: list_key_inj)
next
  case (7 r r' v) then show ?case using decay_value [of r r' "spots_list_key sha params v"] by auto
next
  case 8 then show ?case by (simp add: bump_spots_version_def counting_incr)
next
  case 9 then show ?case by (simp add: set_cached_def counting_set list_key_not_version)
next
  case 10 then show ?case by (simp add: counting_decays)
qed

sublocale redis_server \<subseteq> spot_detail: versioned_cache
    "get_spot_detail_version (Some client) uid" "spot_detail_key_at uid"
    "invalidate_spot_detail (Some client) uid" "get_cached (Some client)"
    "\<lambda>k v. set_cached (Some client) k v ttl" decays "counting (spot_detail_version_key uid)"
  for uid ttl
proof (unfold_locales, goal_cases)
  case (1 v v') then show ?case by (rule detail_key_inj)
next
  case 2 then show ?case by (simp add: invalidate_spot_detail_def detail_version_value counting_incr)
next
  case 3 then show ?case
    by (simp add: set_cached_def detail_version_value set_value detail_key_not_version [symmetric])
next
  case 4 then show ?case by (simp add: detail_version_value counting_decays)
next
  case 5 then show ?case by (simp add: invalidate_spot_detail_def incr_other detail_key_not_version)
next
  case 6 then show ?case by (auto simp: set_cached_def set_value dest: detail_key_inj)
next
  case (7 r r' v) then show ?case using decay_value [of r r' "spot_detail_key_at uid v"] by auto
next
  case 8 then show ?case by (simp add: invalidate_spot_detail_def counting_incr)
next
  case 9 then show ?case by (simp add: set_cached_def counting_set detail_key_not_version)
next
  case 10 then show ?case by (simp add: counting_decays)
qed

text \<open>
  A server in memory, on which the concrete instances run: a key holds a text and whether it
  has a time to live.
\<close>

type_synonym mem = "string \<Rightarrow> (string \<times> bool) option"

definition mem_incr :: "bool \<Rightarrow> string \<Rightarrow> mem \<Rightarrow> int res \<times> mem" where
  "mem_incr expire k m =
     (case m k of
        None \<Rightarrow> (Inr 1, m(k \<mapsto> (str_of_int 1, expire)))
      | Some (v, t) \<Rightarrow>
          (case int_of_str v of
             None \<Rightarrow> (Inl (PyError ''ResponseError'' ''''), m)
           | Some n \<Rightarrow> (Inr (n + 1), m(k \<mapsto> (str_of_int (n + 1), t \<or> expire)))))"

definition mem_client :: "mem redis_client" where
  "mem_client =
     \<lparr>rc_get = (\<lambda>k m. Inr (map_option fst (m k))),
      rc_set = (\<lambda>k v ttl m. (Inr (), m(k \<mapsto> (v, True)))),
      rc_incr = mem_incr False,
      rc_incr_expire_nx = (\<lambda>k ttl m. mem_incr True k m)\<rparr>"

definition mem_volatile :: "string \<Rightarrow> mem \<Rightarrow> bool" where
  "mem_volatile k m = (case m k of None \<Rightarrow> False | Some (_, t) \<Rightarrow> t)"

definition mem_decays :: "mem \<Rightarrow> mem \<Rightarrow> bool" where
  "mem_decays m m' \<longleftrightarrow> (\<forall>k. m' k = m k \<or> (mem_volatile k m \<and> m' k = None))"

lemma mem_incr_counter:
  assumes "is_counter n (map_option fst (m k))"
  shows "fst (mem_incr e k m) = Inr (n + 1)"
    and "map_option fst (snd (mem_incr e k m) k) = Some (str_of_int (n + 1))"
  using assms by (auto simp: mem_incr_def is_counter_def int_of_str_of_int split: option.splits)

lemma mem_incr_other: "k' \<noteq> k \<Longrightarrow> snd (mem_incr e k m) k' = m k'"
  by (auto simp: mem_incr_def split: option.splits)

lemma mem_incr_volatile: "mem_volatile k' (snd (mem_incr False k m)) = mem_volatile k' m"
  by (auto simp: mem_incr_def mem_volatile_def split: option.splits)

interpretation mem: redis_server mem_client "\<lambda>k m. map_option fst (m k)" mem_volatile mem_decays
proof (unfold_locales, goal_cases)
  case 6 then show ?case by (simp add: mem_client_def mem_incr_volatile)
next
  case (9 k' k ttl r)
  then show ?case by (auto simp: mem_client_def mem_volatile_def mem_incr_other)
next
  case (10 r r' k)
  then have "r' k = r k \<or> mem_volatile k r \<and> r' k = None" by (simp add: mem_decays_def)
  then show ?case by auto
next
  case (11 r r' k)
  then have "r' k = r k \<or> r' k = None" by (auto simp: mem_decays_def)
  with 11(2) show ?case by (auto simp: mem_volatile_def)
qed (auto simp: mem_client_def mem_incr_counter mem_incr_other mem_incr_volatile mem_volatile_def)

section \<open>The counter of a window\<close>

text \<open>
  The requests of one actor in one scope, in the order they reach the server, with the passing
  of time between them: \<open>limiter_run r admitted windows r'\<close> when \<open>admitted\<close> of them were let
  through and the counter expired \<open>windows\<close> times.
\<close>

inductive limiter_run ::
    "'r redis_client \<Rightarrow> ('r \<Rightarrow> 'r \<Rightarrow> bool) \<Rightarrow> string \<Rightarrow> string \<Rightarrow> nat \<Rightarrow> nat \<Rightarrow> user option \<Rightarrow> string option
       \<Rightarrow> 'r \<Rightarrow> nat \<Rightarrow> nat \<Rightarrow> 'r \<Rightarrow> bool"
  for client decays key scope limit secs u host r0
where
  opened: "limiter_run client decays key scope limit secs u host r0 0 0 r0"
| admitted: "limiter_run client decays key scope limit secs u host r0 a n r \<Longrightarrow>
     rate_limit (Some client) scope limit secs u host r = (Inr (), r') \<Longrightarrow>
     limiter_run client decays key scope limit secs u host r0 (Suc a) n r'"
| refused: "limiter_run client decays key scope limit secs u host r0 a n r \<Longrightarrow>
     rate_limit (Some client) scope limit secs u host r = (Inl e, r') \<Longrightarrow>
     limiter_run client decays key scope limit secs u host r0 a n r'"
| waited: "limiter_run client decays key scope limit secs u host r0 a n r \<Longrightarrow> decays r r' \<Longrightarrow>
     limiter_run client decays key scope limit secs u host r0 a
       (if get_cached (Some client) key r \<noteq> None \<and> get_cached (Some client) key r' = None
        then Suc n else n) r'"

definition rate_limit_key :: "string \<Rightarrow> string \<Rightarrow> string" where
  "rate_limit_key scope actor = ''ratelimit:'' @ scope @ '':'' @ actor"

context redis_server
begin

lemma rate_limit_counts:
  assumes "rate_limit_actor u host = Some actor"
    and "is_counter c (value_of (rate_limit_key scope actor) r)"
  shows "rate_limit (Some client) scope limit secs u host r =
      (if c + 1 > int limit then Inl (app_error RATE_LIMITED) else Inr (),
       snd (rc_incr_expire_nx client (rate_limit_key scope actor) secs r))"
    and "is_counter (c + 1)
      (value_of (rate_limit_key scope actor) (snd (rate_limit (Some client) scope limit secs u host r)))"
proof -
  let ?k = "rate_limit_key scope actor"
  obtain r' where run: "rc_incr_expire_nx client ?k secs r = (Inr (c + 1), r')"
      and count: "value_of ?k r' = Some (str_of_int (c + 1))"
    using pipe_counter [OF assms(2), of secs]
    by (cases "rc_incr_expire_nx client ?k secs r") auto
  show eq: "rate_limit (Some client) scope limit secs u host r =
      (if c + 1 > int limit then Inl (app_error RATE_LIMITED) else Inr (),
       snd (rc_incr_expire_nx client ?k secs r))"
    using run by (simp add: rate_limit_def assms(1) incr_with_ttl_def rate_limit_key_def)
  show "is_counter (c + 1) (value_of ?k (snd (rate_limit (Some client) scope limit secs u host r)))"
    using count assms(2) unfolding eq by (simp add: run is_counter_def)
qed

lemma limiter_run_bound:
  assumes run: "limiter_run client decays (rate_limit_key scope actor) scope limit secs u host r0 a n r"
    and actor: "rate_limit_actor u host = Some actor"
    and fresh: "value_of (rate_limit_key scope actor) r0 = None"
  shows "\<exists>c. is_counter c (value_of (rate_limit_key scope actor) r) \<and> int a \<le> int limit * int n + min c (int limit)"
  using run
proof induction
  case opened
  then show ?case using fresh by (auto simp: is_counter_def)
next
  case (admitted a n r r')
  then obtain c where c: "is_counter c (value_of (rate_limit_key scope actor) r)"
      "int a \<le> int limit * int n + min c (int limit)" by blast
  with rate_limit_counts [OF actor c(1), of limit secs] admitted.hyps(2) show ?case
    by (intro exI [of _ "c + 1"]) (auto split: if_splits)
next
  case (refused a n r e r')
  then obtain c where c: "is_counter c (value_of (rate_limit_key scope actor) r)"
      "int a \<le> int limit * int n + min c (int limit)" by blast
  with rate_limit_counts [OF actor c(1), of limit secs] refused.hyps(2) show ?case
    by (intro exI [of _ "c + 1"]) (auto split: if_splits)
next
  case (waited a n r r')
  then obtain c where c: "is_counter c (value_of (rate_limit_key scope actor) r)"
      "int a \<le> int limit * int n + min c (int limit)" by blast
  from decay_value [OF waited.hyps(2), of "rate_limit_key scope actor"] c show ?case
    by (auto simp: is_counter_def algebra_simps)
qed

end

context redis_server
begin

lemmas list_answer_is_fresh = spots_list.answer_is_fresh
lemmas detail_answer_is_fresh = spot_detail.answer_is_fresh
lemmas list_write_then_read = spots_list.write_then_read
lemmas detail_write_then_read = spot_detail.write_then_read

end

section \<open>Properties\<close>

definition mem_start :: "mem cache_run" where
  "mem_start = \<lparr>commits = 0, owed = 0, server = (\<lambda>_. None), published = (\<lambda>_. 0),
                reader = (\<lambda>_. Waiting)\<rparr>"

lemma mem_counting_empty [simp]: "mem.counting k (\<lambda>_. None)"
  by (simp add: mem.counting_def mem_volatile_def is_counter_def)


lemma mem_start_ok: "cache_start version key_at (get_cached (Some mem_client)) mem_start"
  by (simp add: cache_start_def mem_start_def)

lemma mem_start_counting: "mem.counting k (server mem_start)"
  by (simp add: mem_start_def)

lemma mem_start_versions:
  "get_spots_version (Some mem_client) (server mem_start) = 0"
  "get_spot_detail_version (Some mem_client) uid (server mem_start) = 0"
  by (simp_all add: mem_start_def mem.spots_version_value mem.detail_version_value
      version_of_value_def truthy_def)






text \<open>
  Without a server, or when the server fails, requests are never limited (the limiter fails
  open), and a request with neither a user nor a client address is not counted.
\<close>

theorem rate_limit_fails_open:
  "fst (rate_limit None scope limit secs u host r) = Inr ()
   \<and> fst (rate_limit (Some (c\<lparr>rc_incr_expire_nx := \<lambda>k ttl r. (Inl (PyError e m), r)\<rparr>)) scope limit
        secs u host r) = Inr ()
   \<and> rate_limit client scope limit secs None None r = (Inr (), r)"
  by (simp add: rate_limit_def rate_limit_actor_def incr_with_ttl_def split: option.splits)

text \<open>
  The upload limit holds for every request body, declared or chunked: a body is accepted,
  and handed on whole, exactly when neither its declared length nor the number of bytes that
  arrive exceeds 5 MiB.
\<close>

theorem bulk_size_enforced:
  "enforce_spots_bulk_size content_length stream = Inr body \<longleftrightarrow>
     body = concat stream \<and> length body \<le> SPOTS_BULK_MAX_BYTES
   \<and> \<not> (\<exists>h n. content_length = Some h \<and> int_of_str h = Some n \<and> n > int SPOTS_BULK_MAX_BYTES)"
proof -
  have receive: "receive_chunks received chunks rest = Inr body \<longleftrightarrow>
      body = concat chunks @ concat rest
      \<and> (rest = [] \<or> received + length (concat rest) \<le> SPOTS_BULK_MAX_BYTES)"
    for received chunks rest body
    by (induction received chunks rest rule: receive_chunks.induct) auto
  show ?thesis
    by (cases content_length; cases "int_of_str (the content_length)")
      (auto simp: enforce_spots_bulk_size_def receive)
qed
text \<open>
  Two requests of different meaning can share a key: the normalisation does not quote the
  separators it joins with.
\<close>

lemma list_key_not_injective:
  "spots_list_key sha [(''category'', P_List [''A,B'']), (''limit'', P_Int 20)] v
     = spots_list_key sha [(''category'', P_List [''A'', ''B'']), (''limit'', P_Int 20)] v"
  by (simp add: spots_list_key_def raw_params_def normalize_param_def insort_key.simps)

end
