(* ===== verification/Paging.thy ===== *)
theory Paging
  imports Errors "HOL-Library.Multiset"
begin

text \<open>
  Keyset pagination, the contract the paged listings share.  A listing answers a request with
  a page, the cursor of the next page and whether there is one; \<open>walk_pages\<close> is a client that
  follows the cursors.  In the locale \<open>keyset_pager\<close> every position is compared by
  \<open>before\<close>, \<open>ordered\<close> is the order of the query and \<open>issue\<close> makes the cursor of a row;
  a fetch returns the first rows after the cursor.  Following the cursors then returns every
  row once, in order.
\<close>

type_synonym ('r, 'c) page = "'r list \<times> 'c option \<times> bool"

text \<open>Offset listings: \<open>offset: Query(0, ge=0)\<close> and \<open>limit: Query(20, ge=1, le=50)\<close>.\<close>

definition paging_query :: "int \<Rightarrow> int \<Rightarrow> (nat \<times> nat) res" where
  "paging_query offset limit =
     (if 0 \<le> offset \<and> 1 \<le> limit \<and> limit \<le> 50 then Inr (nat offset, nat limit)
      else Inl RequestValidationError)"

fun walk_pages :: "('c option \<Rightarrow> ('r, 'c) page res) \<Rightarrow> nat \<Rightarrow> 'c option \<Rightarrow> 'r list res" where
  "walk_pages fetch 0 c = Inr []"
| "walk_pages fetch (Suc n) c =
     bindE (fetch c) (\<lambda>(rows, next, more).
       case next of
         None \<Rightarrow> Inr rows
       | Some c' \<Rightarrow> bindE (walk_pages fetch n (Some c')) (\<lambda>rest. Inr (rows @ rest)))"

text \<open>
  The same client while the rows change: \<open>fetch i\<close> answers its \<open>i\<close>-th request.
\<close>

fun walk_changing ::
    "(nat \<Rightarrow> 'c option \<Rightarrow> ('r, 'c) page res) \<Rightarrow> nat \<Rightarrow> nat \<Rightarrow> 'c option \<Rightarrow> 'r list res" where
  "walk_changing fetch i 0 c = Inr []"
| "walk_changing fetch i (Suc n) c =
     bindE (fetch i c) (\<lambda>(rows, next, more).
       case next of
         None \<Rightarrow> Inr rows
       | Some c' \<Rightarrow> bindE (walk_changing fetch (Suc i) n (Some c')) (\<lambda>rest. Inr (rows @ rest)))"

lemma walk_changing_const: "walk_changing (\<lambda>_. fetch) i n c = walk_pages fetch n c"
  by (induction n arbitrary: i c) (auto intro!: arg_cong [where f = "bindE _"] split: option.split)

text \<open>The common shape: one row more than the page is read, to see whether there is more.\<close>

definition first_page :: "('r \<Rightarrow> 'c) \<Rightarrow> nat \<Rightarrow> 'r list \<Rightarrow> ('r, 'c) page" where
  "first_page issue limit found =
     (let rows = take (limit + 1) found;
          has_more = length rows > limit;
          page = (if has_more then take limit rows else rows)
      in (page, if has_more then Some (issue (last page)) else None, has_more))"

lemma first_page_eq:
  "first_page issue limit found =
     (take limit found,
      if length found > limit then Some (issue (last (take limit found))) else None,
      length found > limit)"
  by (auto simp: first_page_def Let_def min_def)

lemma first_page_length: "length (fst (first_page issue limit found)) \<le> limit"
  by (simp add: first_page_eq)

lemma mset_set: "mset xs = mset ys \<Longrightarrow> set xs = set ys"
  by (rule mset_eq_setD)

locale keyset_pager =
  fixes before :: "'k \<Rightarrow> 'k \<Rightarrow> bool" and position :: "'r \<Rightarrow> 'k" and valid :: "'r \<Rightarrow> bool"
    and ordered :: "'r list \<Rightarrow> 'r list" and issue :: "'r \<Rightarrow> 'c"
    and fetch :: "nat \<Rightarrow> 'r list \<Rightarrow> 'c option \<Rightarrow> ('r, 'c) page res"
  assumes before_irrefl: "\<not> before k k"
    and before_trans: "before j k \<Longrightarrow> before k l \<Longrightarrow> before j l"
    and ordered_mset: "mset (ordered rows) = mset rows"
    and ordered_sorted: "distinct (map position rows) \<Longrightarrow>
          sorted_wrt (\<lambda>a b. before (position a) (position b)) (ordered rows)"
    and fetch_first: "fetch limit rows None = Inr (first_page issue limit (ordered rows))"
    and fetch_next: "valid r \<Longrightarrow> fetch limit rows (Some (issue r)) =
          Inr (first_page issue limit (filter (\<lambda>x. before (position r) (position x)) (ordered rows)))"
begin

lemma after_last:
  assumes "sorted_wrt (\<lambda>a b. before (position a) (position b)) (xs @ ys)" and "xs \<noteq> []"
  shows "filter (\<lambda>x. before (position (last xs)) (position x)) (xs @ ys) = ys"
proof -
  have split: "xs = butlast xs @ [last xs]" using assms(2) by simp
  have "\<not> before (position (last xs)) (position x)" if "x \<in> set xs" for x
  proof (cases "x = last xs")
    case True
    then show ?thesis by (simp add: before_irrefl)
  next
    case False
    then have "x \<in> set (butlast xs)" using that split
      by (metis Un_iff empty_iff empty_set insert_iff list.simps(15) set_append)
    moreover have "sorted_wrt (\<lambda>a b. before (position a) (position b)) (butlast xs @ [last xs])"
      using assms(1) split by (simp add: sorted_wrt_append)
    ultimately have "before (position x) (position (last xs))"
      by (simp add: sorted_wrt_append)
    then show ?thesis using before_trans before_irrefl by blast
  qed
  moreover have "before (position (last xs)) (position y)" if "y \<in> set ys" for y
    using assms that by (auto simp: sorted_wrt_append)
  ultimately show ?thesis by (simp add: filter_True filter_False)
qed

lemma walk_after:
  assumes sorted: "sorted_wrt (\<lambda>a b. before (position a) (position b)) (ordered rows)"
    and valid: "\<And>r. r \<in> set rows \<Longrightarrow> valid r" and "0 < limit"
    and later: "\<And>i r. r \<in> set rows \<Longrightarrow> fetch' i (Some (issue r)) = fetch limit rows (Some (issue r))"
  shows "ordered rows = done @ todo \<Longrightarrow> done \<noteq> [] \<Longrightarrow> length todo \<le> n * limit \<Longrightarrow> 0 < n \<Longrightarrow>
      walk_changing fetch' i n (Some (issue (last done))) = Inr todo"
proof (induction n arbitrary: i "done" todo)
  case (Suc n)
  have "last done \<in> set rows"
    using Suc.prems(1,2) ordered_mset [of rows] by (metis mset_set last_in_set Un_iff set_append)
  then have fetch: "fetch' i (Some (issue (last done))) = Inr (first_page issue limit todo)"
    using fetch_next [OF valid] after_last [of "done" todo] sorted Suc.prems(1,2) by (simp add: later)
  show ?case
  proof (cases "length todo > limit")
    case False
    then show ?thesis by (simp add: fetch first_page_eq)
  next
    case True
    let ?page = "take limit todo" and ?rest = "drop limit todo"
    have page: "?page \<noteq> []" using True \<open>0 < limit\<close> by auto
    have "n > 0" using True Suc.prems(3) by (cases n) auto
    moreover have "length ?rest \<le> n * limit" using Suc.prems(3) by simp
    ultimately have "walk_changing fetch' (Suc i) n (Some (issue (last (done @ ?page)))) = Inr ?rest"
      using Suc.IH [of "done @ ?page" ?rest] Suc.prems(1) page by simp
    then show ?thesis using True page by (simp add: fetch first_page_eq)
  qed
qed simp

text \<open>
  Following the cursors returns all rows in order, each once, also while the rows change, as
  long as the answer to a cursor that was issued for one of them does not.
\<close>

lemma walk_changing_complete:
  assumes distinct: "distinct (map position rows)" and valid: "\<And>r. r \<in> set rows \<Longrightarrow> valid r"
    and "0 < limit" and "length rows \<le> n * limit" and "0 < n"
    and first: "fetch' 0 None = fetch limit rows None"
    and later: "\<And>i r. r \<in> set rows \<Longrightarrow> fetch' i (Some (issue r)) = fetch limit rows (Some (issue r))"
  shows "walk_changing fetch' 0 n None = Inr (ordered rows)"
proof -
  obtain m where n: "n = Suc m" using \<open>0 < n\<close> by (cases n) auto
  have length: "length (ordered rows) = length rows"
    using ordered_mset [of rows] by (metis size_mset)
  show ?thesis
  proof (cases "length rows > limit")
    case False
    then show ?thesis by (simp add: n first fetch_first first_page_eq length)
  next
    case True
    let ?page = "take limit (ordered rows)" and ?rest = "drop limit (ordered rows)"
    have page: "?page \<noteq> []" using True \<open>0 < limit\<close> length by auto
    moreover have "length ?rest \<le> m * limit" "0 < m"
      using assms(4) True by (auto simp: n length intro: Nat.gr0I)
    ultimately have "walk_changing fetch' (Suc 0) m (Some (issue (last ?page))) = Inr ?rest"
      using walk_after [where fetch' = fetch', OF ordered_sorted [OF distinct] valid \<open>0 < limit\<close> later,
          of ?page ?rest m] by simp
    then show ?thesis using True page by (simp add: n first fetch_first first_page_eq length)
  qed
qed

lemma walk_complete:
  assumes "distinct (map position rows)" and "\<And>r. r \<in> set rows \<Longrightarrow> valid r"
    and "0 < limit" and "length rows \<le> n * limit" and "0 < n"
  shows "walk_pages (fetch limit rows) n None = Inr (ordered rows)"
  using walk_changing_complete [OF assms, where fetch' = "\<lambda>_. fetch limit rows"]
  by (simp add: walk_changing_const)

end

text \<open>A listing that only renames the cursors of another walks as the other does.\<close>

lemma walk_pages_rename:
  assumes "\<And>c. fetch' (map_option f c) =
      bindE (fetch c) (\<lambda>(rows, next, more). Inr (rows, map_option f next, more))"
  shows "walk_pages fetch' n (map_option f c) = walk_pages fetch n c"
proof (induction n arbitrary: c)
  case (Suc n)
  have IH: "walk_pages fetch' n (Some (f c')) = walk_pages fetch n (Some c')" for c'
    using Suc [of "Some c'"] by simp
  show ?case
    by (cases "fetch c") (auto simp: assms IH split: option.split)
qed simp

end
