(* ===== verification/Geo.thy ===== *)
theory Geo
  imports Errors
begin

text \<open>
  \<open>core/geo.py\<close> and \<open>core/region.py\<close>: the Korean bounding range, the parsing of a
  map rectangle, and the short names of the provinces with the filter they are used in.
  A Python \<open>float\<close> is a rational, an infinity or a NaN; \<open>float(s)\<close> itself is a
  parameter (\<open>None\<close> is \<open>ValueError\<close>).  Korean names are spelled as UTF-8 bytes.
\<close>

section \<open>Floats\<close>

datatype pyfloat = Fin rat | PInf | NInf | NaN

fun fle :: "pyfloat \<Rightarrow> pyfloat \<Rightarrow> bool" where
  "fle (Fin a) (Fin b) = (a \<le> b)"
| "fle NaN y = False"
| "fle x NaN = False"
| "fle NInf y = True"
| "fle x PInf = True"
| "fle x y = False"

lemma fle_Fin_right: "fle (Fin a) x \<and> fle x (Fin b) \<longleftrightarrow> (\<exists>q. x = Fin q \<and> a \<le> q \<and> q \<le> b)"
  by (cases x) auto

section \<open>Coordinates\<close>

definition KOREA_LAT_RANGE :: "rat \<times> rat" where
  "KOREA_LAT_RANGE = (325 / 10, 387 / 10)"

definition KOREA_LNG_RANGE :: "rat \<times> rat" where
  "KOREA_LNG_RANGE = (124, 1325 / 10)"

definition is_within_korea :: "rat \<Rightarrow> rat \<Rightarrow> bool" where
  "is_within_korea latitude longitude \<longleftrightarrow>
     fst KOREA_LAT_RANGE \<le> latitude \<and> latitude \<le> snd KOREA_LAT_RANGE
     \<and> fst KOREA_LNG_RANGE \<le> longitude \<and> longitude \<le> snd KOREA_LNG_RANGE"

record bbox =
  min_lng :: pyfloat
  min_lat :: pyfloat
  max_lng :: pyfloat
  max_lat :: pyfloat

definition check_bbox :: "pyfloat \<Rightarrow> pyfloat \<Rightarrow> pyfloat \<Rightarrow> pyfloat \<Rightarrow> bbox res" where
  "check_bbox lng1 lat1 lng2 lat2 =
     (if \<not> (fle (Fin (- 180)) lng1 \<and> fle lng1 (Fin 180) \<and> fle (Fin (- 180)) lng2 \<and> fle lng2 (Fin 180))
      then Inl (app_error VALIDATION_ERROR)
      else if \<not> (fle (Fin (- 90)) lat1 \<and> fle lat1 (Fin 90) \<and> fle (Fin (- 90)) lat2 \<and> fle lat2 (Fin 90))
      then Inl (app_error VALIDATION_ERROR)
      else if fle lng2 lng1 \<or> fle lat2 lat1
      then Inl (app_error VALIDATION_ERROR)
      else Inr \<lparr>min_lng = lng1, min_lat = lat1, max_lng = lng2, max_lat = lat2\<rparr>)"

definition parse_bbox :: "(string \<Rightarrow> pyfloat option) \<Rightarrow> string \<Rightarrow> bbox res" where
  "parse_bbox py_float raw =
     (case str_split (CHR '','') raw of
        [p1, p2, p3, p4] \<Rightarrow>
          (case (py_float p1, py_float p2, py_float p3, py_float p4) of
             (Some lng1, Some lat1, Some lng2, Some lat2) \<Rightarrow> check_bbox lng1 lat1 lng2 lat2
           | _ \<Rightarrow> Inl (app_error VALIDATION_ERROR))
      | _ \<Rightarrow> Inl (app_error VALIDATION_ERROR))"

section \<open>Provinces\<close>

abbreviation seoul :: string where
  "seoul \<equiv> [CHR 0xEC, CHR 0x84, CHR 0x9C, CHR 0xEC, CHR 0x9A, CHR 0xB8]"

abbreviation busan :: string where
  "busan \<equiv> [CHR 0xEB, CHR 0xB6, CHR 0x80, CHR 0xEC, CHR 0x82, CHR 0xB0]"

abbreviation daegu :: string where
  "daegu \<equiv> [CHR 0xEB, CHR 0x8C, CHR 0x80, CHR 0xEA, CHR 0xB5, CHR 0xAC]"

abbreviation incheon :: string where
  "incheon \<equiv> [CHR 0xEC, CHR 0x9D, CHR 0xB8, CHR 0xEC, CHR 0xB2, CHR 0x9C]"

abbreviation gwangju :: string where
  "gwangju \<equiv> [CHR 0xEA, CHR 0xB4, CHR 0x91, CHR 0xEC, CHR 0xA3, CHR 0xBC]"

abbreviation daejeon :: string where
  "daejeon \<equiv> [CHR 0xEB, CHR 0x8C, CHR 0x80, CHR 0xEC, CHR 0xA0, CHR 0x84]"

abbreviation ulsan :: string where
  "ulsan \<equiv> [CHR 0xEC, CHR 0x9A, CHR 0xB8, CHR 0xEC, CHR 0x82, CHR 0xB0]"

abbreviation sejong :: string where
  "sejong \<equiv> [CHR 0xEC, CHR 0x84, CHR 0xB8, CHR 0xEC, CHR 0xA2, CHR 0x85]"

abbreviation gyeonggi :: string where
  "gyeonggi \<equiv> [CHR 0xEA, CHR 0xB2, CHR 0xBD, CHR 0xEA, CHR 0xB8, CHR 0xB0]"

abbreviation gangwon :: string where
  "gangwon \<equiv> [CHR 0xEA, CHR 0xB0, CHR 0x95, CHR 0xEC, CHR 0x9B, CHR 0x90]"

abbreviation chungbuk :: string where
  "chungbuk \<equiv> [CHR 0xEC, CHR 0xB6, CHR 0xA9, CHR 0xEB, CHR 0xB6, CHR 0x81]"

abbreviation chungnam :: string where
  "chungnam \<equiv> [CHR 0xEC, CHR 0xB6, CHR 0xA9, CHR 0xEB, CHR 0x82, CHR 0xA8]"

abbreviation jeonbuk :: string where
  "jeonbuk \<equiv> [CHR 0xEC, CHR 0xA0, CHR 0x84, CHR 0xEB, CHR 0xB6, CHR 0x81]"

abbreviation jeonnam :: string where
  "jeonnam \<equiv> [CHR 0xEC, CHR 0xA0, CHR 0x84, CHR 0xEB, CHR 0x82, CHR 0xA8]"

abbreviation gyeongbuk :: string where
  "gyeongbuk \<equiv> [CHR 0xEA, CHR 0xB2, CHR 0xBD, CHR 0xEB, CHR 0xB6, CHR 0x81]"

abbreviation gyeongnam :: string where
  "gyeongnam \<equiv> [CHR 0xEA, CHR 0xB2, CHR 0xBD, CHR 0xEB, CHR 0x82, CHR 0xA8]"

abbreviation jeju :: string where
  "jeju \<equiv> [CHR 0xEC, CHR 0xA0, CHR 0x9C, CHR 0xEC, CHR 0xA3, CHR 0xBC]"

definition SIDO_ABBR :: "(string \<times> string) list" where
  "SIDO_ABBR =
     [([CHR 0xEC, CHR 0x84, CHR 0x9C, CHR 0xEC, CHR 0x9A, CHR 0xB8, CHR 0xED, CHR 0x8A, CHR
      0xB9, CHR 0xEB, CHR 0xB3, CHR 0x84, CHR 0xEC, CHR 0x8B, CHR 0x9C],
       seoul),
      ([CHR 0xEB, CHR 0xB6, CHR 0x80, CHR 0xEC, CHR 0x82, CHR 0xB0, CHR 0xEA, CHR 0xB4, CHR
      0x91, CHR 0xEC, CHR 0x97, CHR 0xAD, CHR 0xEC, CHR 0x8B, CHR 0x9C],
       busan),
      ([CHR 0xEB, CHR 0x8C, CHR 0x80, CHR 0xEA, CHR 0xB5, CHR 0xAC, CHR 0xEA, CHR 0xB4, CHR
      0x91, CHR 0xEC, CHR 0x97, CHR 0xAD, CHR 0xEC, CHR 0x8B, CHR 0x9C],
       daegu),
      ([CHR 0xEC, CHR 0x9D, CHR 0xB8, CHR 0xEC, CHR 0xB2, CHR 0x9C, CHR 0xEA, CHR 0xB4, CHR
      0x91, CHR 0xEC, CHR 0x97, CHR 0xAD, CHR 0xEC, CHR 0x8B, CHR 0x9C],
       incheon),
      ([CHR 0xEA, CHR 0xB4, CHR 0x91, CHR 0xEC, CHR 0xA3, CHR 0xBC, CHR 0xEA, CHR 0xB4, CHR
      0x91, CHR 0xEC, CHR 0x97, CHR 0xAD, CHR 0xEC, CHR 0x8B, CHR 0x9C],
       gwangju),
      ([CHR 0xEB, CHR 0x8C, CHR 0x80, CHR 0xEC, CHR 0xA0, CHR 0x84, CHR 0xEA, CHR 0xB4, CHR
      0x91, CHR 0xEC, CHR 0x97, CHR 0xAD, CHR 0xEC, CHR 0x8B, CHR 0x9C],
       daejeon),
      ([CHR 0xEC, CHR 0x9A, CHR 0xB8, CHR 0xEC, CHR 0x82, CHR 0xB0, CHR 0xEA, CHR 0xB4, CHR
      0x91, CHR 0xEC, CHR 0x97, CHR 0xAD, CHR 0xEC, CHR 0x8B, CHR 0x9C],
       ulsan),
      ([CHR 0xEC, CHR 0x84, CHR 0xB8, CHR 0xEC, CHR 0xA2, CHR 0x85, CHR 0xED, CHR 0x8A, CHR
      0xB9, CHR 0xEB, CHR 0xB3, CHR 0x84, CHR 0xEC, CHR 0x9E, CHR 0x90, CHR 0xEC, CHR 0xB9,
      CHR 0x98, CHR 0xEC, CHR 0x8B, CHR 0x9C],
       sejong),
      ([CHR 0xEA, CHR 0xB2, CHR 0xBD, CHR 0xEA, CHR 0xB8, CHR 0xB0, CHR 0xEB, CHR 0x8F, CHR
      0x84],
       gyeonggi),
      ([CHR 0xEA, CHR 0xB0, CHR 0x95, CHR 0xEC, CHR 0x9B, CHR 0x90, CHR 0xEB, CHR 0x8F, CHR
      0x84],
       gangwon),
      ([CHR 0xEA, CHR 0xB0, CHR 0x95, CHR 0xEC, CHR 0x9B, CHR 0x90, CHR 0xED, CHR 0x8A, CHR
      0xB9, CHR 0xEB, CHR 0xB3, CHR 0x84, CHR 0xEC, CHR 0x9E, CHR 0x90, CHR 0xEC, CHR 0xB9,
      CHR 0x98, CHR 0xEB, CHR 0x8F, CHR 0x84],
       gangwon),
      ([CHR 0xEC, CHR 0xB6, CHR 0xA9, CHR 0xEC, CHR 0xB2, CHR 0xAD, CHR 0xEB, CHR 0xB6, CHR
      0x81, CHR 0xEB, CHR 0x8F, CHR 0x84],
       chungbuk),
      ([CHR 0xEC, CHR 0xB6, CHR 0xA9, CHR 0xEC, CHR 0xB2, CHR 0xAD, CHR 0xEB, CHR 0x82, CHR
      0xA8, CHR 0xEB, CHR 0x8F, CHR 0x84],
       chungnam),
      ([CHR 0xEC, CHR 0xA0, CHR 0x84, CHR 0xEB, CHR 0x9D, CHR 0xBC, CHR 0xEB, CHR 0xB6, CHR
      0x81, CHR 0xEB, CHR 0x8F, CHR 0x84],
       jeonbuk),
      ([CHR 0xEC, CHR 0xA0, CHR 0x84, CHR 0xEB, CHR 0xB6, CHR 0x81, CHR 0xED, CHR 0x8A, CHR
      0xB9, CHR 0xEB, CHR 0xB3, CHR 0x84, CHR 0xEC, CHR 0x9E, CHR 0x90, CHR 0xEC, CHR 0xB9,
      CHR 0x98, CHR 0xEB, CHR 0x8F, CHR 0x84],
       jeonbuk),
      ([CHR 0xEC, CHR 0xA0, CHR 0x84, CHR 0xEB, CHR 0x9D, CHR 0xBC, CHR 0xEB, CHR 0x82, CHR
      0xA8, CHR 0xEB, CHR 0x8F, CHR 0x84],
       jeonnam),
      ([CHR 0xEA, CHR 0xB2, CHR 0xBD, CHR 0xEC, CHR 0x83, CHR 0x81, CHR 0xEB, CHR 0xB6, CHR
      0x81, CHR 0xEB, CHR 0x8F, CHR 0x84],
       gyeongbuk),
      ([CHR 0xEA, CHR 0xB2, CHR 0xBD, CHR 0xEC, CHR 0x83, CHR 0x81, CHR 0xEB, CHR 0x82, CHR
      0xA8, CHR 0xEB, CHR 0x8F, CHR 0x84],
       gyeongnam),
      ([CHR 0xEC, CHR 0xA0, CHR 0x9C, CHR 0xEC, CHR 0xA3, CHR 0xBC, CHR 0xED, CHR 0x8A, CHR
      0xB9, CHR 0xEB, CHR 0xB3, CHR 0x84, CHR 0xEC, CHR 0x9E, CHR 0x90, CHR 0xEC, CHR 0xB9,
      CHR 0x98, CHR 0xEB, CHR 0x8F, CHR 0x84],
       jeju)]"

definition abbreviate_sido :: "string option \<Rightarrow> string option" where
  "abbreviate_sido region_province =
     (case region_province of
        None \<Rightarrow> None
      | Some p \<Rightarrow> Some (case map_of SIDO_ABBR p of None \<Rightarrow> p | Some a \<Rightarrow> a))"

definition REGION_PROVINCE_WHITELIST :: "string list" where
  "REGION_PROVINCE_WHITELIST = remdups (map snd SIDO_ABBR)"

definition RAW_NAMES_BY_ABBR :: "(string \<times> string list) list" where
  "RAW_NAMES_BY_ABBR =
     map (\<lambda>abbr. (abbr, abbr # map fst (filter (\<lambda>p. snd p = abbr) SIDO_ABBR)))
       REGION_PROVINCE_WHITELIST"

definition raw_names_for_region_filter :: "string \<Rightarrow> string list" where
  "raw_names_for_region_filter abbr =
     (case map_of RAW_NAMES_BY_ABBR abbr of None \<Rightarrow> [] | Some names \<Rightarrow> names)"

section \<open>Laws\<close>

lemma sido_keys_distinct: "distinct (map fst SIDO_ABBR)"
  by code_simp

lemma sido_no_abbr_is_full: "list_all (\<lambda>a. map_of SIDO_ABBR a = None) REGION_PROVINCE_WHITELIST"
  by code_simp

lemma raw_names_eq:
  "raw_names_for_region_filter abbr =
     (if abbr \<in> set REGION_PROVINCE_WHITELIST
      then abbr # map fst (filter (\<lambda>p. snd p = abbr) SIDO_ABBR) else [])"
  by (simp add: raw_names_for_region_filter_def RAW_NAMES_BY_ABBR_def map_of_map_restrict restrict_map_def)

lemma check_bbox_Inr:
  "check_bbox a1 b1 a2 b2 = Inr b \<longleftrightarrow>
     (\<exists>x1 y1 x2 y2. a1 = Fin x1 \<and> b1 = Fin y1 \<and> a2 = Fin x2 \<and> b2 = Fin y2
        \<and> - 180 \<le> x1 \<and> x1 < x2 \<and> x2 \<le> 180 \<and> - 90 \<le> y1 \<and> y1 < y2 \<and> y2 \<le> 90
        \<and> b = \<lparr>min_lng = Fin x1, min_lat = Fin y1, max_lng = Fin x2, max_lat = Fin y2\<rparr>)"
  by (cases a1; cases a2; cases b1; cases b2) (auto simp: check_bbox_def)

section \<open>Properties\<close>

text \<open>
  The region filter and the region shown are inverse to each other: for every short name
  offered as a filter, the stored province values the filter matches are exactly those
  that are displayed as that short name, whether they hold the old full name, the new one or
  the short name itself; and a value that is not offered matches nothing.
\<close>

theorem region_filter_matches_display:
  "p \<in> set (raw_names_for_region_filter abbr) \<longleftrightarrow>
     abbr \<in> set REGION_PROVINCE_WHITELIST \<and> abbreviate_sido (Some p) = Some abbr"
proof (cases "abbr \<in> set REGION_PROVINCE_WHITELIST")
  case True
  then have no_key: "map_of SIDO_ABBR abbr = None"
    using sido_no_abbr_is_full by (simp add: list_all_iff)
  have "p \<in> fst ` {q \<in> set SIDO_ABBR. snd q = abbr} \<longleftrightarrow> map_of SIDO_ABBR p = Some abbr"
    using sido_keys_distinct by (auto simp: image_iff)
  with no_key True show ?thesis
    by (auto simp: raw_names_eq abbreviate_sido_def split: option.splits)
qed (simp add: raw_names_eq)

text \<open>
  \<open>parse_bbox\<close> accepts exactly the texts of four finite numbers, separated by commas,
  that describe a rectangle of positive width and height on the globe, and returns that
  rectangle in the order given; every other text (an infinity, a NaN, a swapped or empty
  side, a missing part) is a validation error.
\<close>

theorem parse_bbox_spec:
  "(parse_bbox py_float raw = Inr b \<longleftrightarrow>
      (\<exists>p1 p2 p3 p4 x1 y1 x2 y2. str_split (CHR '','') raw = [p1, p2, p3, p4]
         \<and> py_float p1 = Some (Fin x1) \<and> py_float p2 = Some (Fin y1)
         \<and> py_float p3 = Some (Fin x2) \<and> py_float p4 = Some (Fin y2)
         \<and> - 180 \<le> x1 \<and> x1 < x2 \<and> x2 \<le> 180 \<and> - 90 \<le> y1 \<and> y1 < y2 \<and> y2 \<le> 90
         \<and> b = \<lparr>min_lng = Fin x1, min_lat = Fin y1, max_lng = Fin x2, max_lat = Fin y2\<rparr>))
   \<and> (parse_bbox py_float raw = Inl (app_error VALIDATION_ERROR)
       \<or> (\<exists>b'. parse_bbox py_float raw = Inr b'))"
proof
  show "parse_bbox py_float raw = Inr b \<longleftrightarrow>
      (\<exists>p1 p2 p3 p4 x1 y1 x2 y2. str_split (CHR '','') raw = [p1, p2, p3, p4]
         \<and> py_float p1 = Some (Fin x1) \<and> py_float p2 = Some (Fin y1)
         \<and> py_float p3 = Some (Fin x2) \<and> py_float p4 = Some (Fin y2)
         \<and> - 180 \<le> x1 \<and> x1 < x2 \<and> x2 \<le> 180 \<and> - 90 \<le> y1 \<and> y1 < y2 \<and> y2 \<le> 90
         \<and> b = \<lparr>min_lng = Fin x1, min_lat = Fin y1, max_lng = Fin x2, max_lat = Fin y2\<rparr>)"
    by (auto simp: parse_bbox_def check_bbox_Inr split: list.splits option.splits)
  show "parse_bbox py_float raw = Inl (app_error VALIDATION_ERROR)
      \<or> (\<exists>b'. parse_bbox py_float raw = Inr b')"
    by (auto simp: parse_bbox_def check_bbox_def split: list.splits option.splits)
qed

end
