(* ===== verification/Spots.thy ===== *)
theory Spots
  imports Cache Paging Geo
begin

text \<open>
  \<open>crud/spot.py\<close>: what the public listings may show, the keyset listings, the search, the
  counts, the assignments, the decay of trust and the writes with the cache invalidations they
  end in.  The statements are evaluated on the rows in insertion order; where a statement has
  \<open>LIMIT\<close> without \<open>ORDER BY\<close> that is the order taken.  \<open>now\<close> is the time of the
  transaction.  Parameters: \<open>fts\<close> (PostgreSQL's ranking, matching and trigram similarity),
  \<open>fmt6\<close> (\<open>:.6f\<close>), \<open>sha\<close> (\<open>sha256(...).hexdigest()\<close>), \<open>codec\<close> (JSON in base64).
\<close>

section \<open>What explore may show\<close>

definition TOTAL_CAP :: nat where
  "TOTAL_CAP = 10000"

definition MAP_LIMIT_MAX :: nat where
  "MAP_LIMIT_MAX = 8000"

text \<open>SQL comparisons with NULL are not true.\<close>

definition overlaps :: "string list option \<Rightarrow> string list \<Rightarrow> bool" where
  "overlaps column xs =
     (case column of None \<Rightarrow> False | Some ys \<Rightarrow> list_ex (\<lambda>y. y \<in> set xs) ys)"

definition between :: "rat option \<Rightarrow> pyfloat \<Rightarrow> pyfloat \<Rightarrow> bool" where
  "between column lo hi =
     (case column of None \<Rightarrow> False | Some x \<Rightarrow> fle lo (Fin x) \<and> fle (Fin x) hi)"

definition in_texts :: "string option \<Rightarrow> string list \<Rightarrow> bool" where
  "in_texts column xs = (case column of None \<Rightarrow> False | Some x \<Rightarrow> x \<in> set xs)"

definition region_condition :: "string option \<Rightarrow> (spot \<Rightarrow> bool) res" where
  "region_condition region_province =
     (if truthy region_province
      then let raw_names = raw_names_for_region_filter (the region_province)
           in if raw_names = [] then Inl (app_error VALIDATION_ERROR)
              else Inr (\<lambda>s. in_texts (s_region_province s) raw_names)
      else Inr (\<lambda>_. True))"

definition apply_explore_filters ::
    "settings \<Rightarrow> string list option \<Rightarrow> string option \<Rightarrow> bbox option \<Rightarrow> bool option
       \<Rightarrow> (spot \<Rightarrow> bool) res" where
  "apply_explore_filters cfg category region_province box require_coordinates =
     (let require = (case require_coordinates of
            None \<Rightarrow> EXPLORE_REQUIRE_COORDINATES cfg | Some b \<Rightarrow> b)
      in bindE (region_condition region_province) (\<lambda>in_region.
         Inr (\<lambda>s.
           s_pipeline_status s = PUBLISHED \<and> s_deleted_at s = None
         \<and> (require \<longrightarrow> s_latitude s \<noteq> None \<and> s_longitude s \<noteq> None)
         \<and> (case category of None \<Rightarrow> True | Some cs \<Rightarrow> cs = [] \<or> overlaps (s_category s) cs)
         \<and> in_region s
         \<and> (case box of None \<Rightarrow> True
            | Some b \<Rightarrow> between (s_latitude s) (min_lat b) (max_lat b)
                       \<and> between (s_longitude s) (min_lng b) (max_lng b)))))"

section \<open>Cursors\<close>

definition scope_token :: "(pyfloat \<Rightarrow> string) \<Rightarrow> (string \<Rightarrow> string) \<Rightarrow> bbox option \<Rightarrow> string" where
  "scope_token fmt6 sha box =
     (case box of
        None \<Rightarrow> ''''
      | Some b \<Rightarrow> str_take 12 (sha (str_join '',''
          (map fmt6 [min_lng b, min_lat b, max_lng b, max_lat b]))))"

definition reject_scope_mismatch :: "string \<Rightarrow> string \<Rightarrow> unit res" where
  "reject_scope_mismatch cursor_scope scope =
     ensure (cursor_scope = scope) (app_error CURSOR_SCOPE_MISMATCH)"

section \<open>The keyset listing\<close>

definition spot_cursor :: "string \<Rightarrow> spot \<Rightarrow> string" where
  "spot_cursor scope s = scope @ '':'' @ s_uid s"

definition list_spots_page ::
    "string \<Rightarrow> nat \<Rightarrow> spot list \<Rightarrow> string option \<Rightarrow> (spot, string) page res" where
  "list_spots_page scope limit rows cursor =
     (let query = sort_key s_uid rows
      in if truthy cursor
         then (case str_rpartition (CHR '':'') (the cursor) of
                 (cursor_scope, _, last_uid) \<Rightarrow>
                   bindE (reject_scope_mismatch cursor_scope scope) (\<lambda>_.
                     Inr (first_page (spot_cursor scope) limit (filter (\<lambda>s. last_uid < s_uid s) query))))
         else Inr (first_page (spot_cursor scope) limit query))"

definition list_spots ::
    "settings \<Rightarrow> (pyfloat \<Rightarrow> string) \<Rightarrow> (string \<Rightarrow> string) \<Rightarrow> string list option \<Rightarrow> string option
       \<Rightarrow> bbox option \<Rightarrow> nat \<Rightarrow> string option \<Rightarrow> 'r world \<Rightarrow> (spot, string) page res" where
  "list_spots cfg fmt6 sha category region_province box limit cursor w =
     bindE (apply_explore_filters cfg category region_province box None) (\<lambda>shown.
       list_spots_page (scope_token fmt6 sha box) limit (filter shown (spots w)) cursor)"

section \<open>Search\<close>

record fts =
  ts_rank :: "string \<Rightarrow> spot \<Rightarrow> rat"
  fts_match :: "string \<Rightarrow> spot \<Rightarrow> bool"
  similarity :: "string \<Rightarrow> string \<Rightarrow> rat"

definition SEARCH_TRIGRAM_WEIGHT :: rat where
  "SEARCH_TRIGRAM_WEIGHT = 3 / 10"

definition SEARCH_SIMILARITY_THRESHOLD :: rat where
  "SEARCH_SIMILARITY_THRESHOLD = 2 / 10"

definition search_terms :: "fts \<Rightarrow> string \<Rightarrow> (spot \<Rightarrow> rat) \<times> (spot \<Rightarrow> bool)" where
  "search_terms f query =
     (\<lambda>s. ts_rank f query s + similarity f (s_title s) query * SEARCH_TRIGRAM_WEIGHT,
      \<lambda>s. fts_match f query s \<or> similarity f (s_title s) query > SEARCH_SIMILARITY_THRESHOLD)"

definition has_query :: "string option \<Rightarrow> bool" where
  "has_query query = (case query of None \<Rightarrow> False | Some q \<Rightarrow> str_strip q \<noteq> [])"

definition count_spots ::
    "settings \<Rightarrow> fts \<Rightarrow> string option \<Rightarrow> string list option \<Rightarrow> string option \<Rightarrow> bbox option
       \<Rightarrow> 'r world \<Rightarrow> (nat \<times> bool) res" where
  "count_spots cfg f query category region_province box w =
     bindE (apply_explore_filters cfg category region_province box None) (\<lambda>shown.
       let matched = (\<lambda>s. has_query query \<longrightarrow> snd (search_terms f (the query)) s);
           total = length (take (TOTAL_CAP + 1) (filter (\<lambda>s. shown s \<and> matched s) (spots w)))
       in Inr (if total > TOTAL_CAP then (TOTAL_CAP, True) else (total, False)))"

definition list_spots_map ::
    "settings \<Rightarrow> fts \<Rightarrow> string option \<Rightarrow> string list option \<Rightarrow> string option \<Rightarrow> bbox option \<Rightarrow> nat
       \<Rightarrow> 'r world \<Rightarrow> (spot list \<times> bool) res" where
  "list_spots_map cfg f query category region_province box limit w =
     bindE (apply_explore_filters cfg category region_province box (Some True)) (\<lambda>shown.
       let matched = (\<lambda>s. has_query query \<longrightarrow> snd (search_terms f (the query)) s);
           found = take (limit + 1) (sort_key s_uid (filter (\<lambda>s. shown s \<and> matched s) (spots w)))
       in Inr (take limit found, length found > limit))"

definition get_random_spots :: "(spot list \<Rightarrow> spot list) \<Rightarrow> nat \<Rightarrow> 'r world \<Rightarrow> spot list" where
  "get_random_spots shuffle limit w =
     take limit (shuffle (filter (\<lambda>s. s_deleted_at s = None) (spots w)))"

type_synonym search_position = "rat \<times> rat \<times> string"

record cursor_codec =
  encode_payload :: "rat \<times> rat \<times> string \<times> string \<Rightarrow> string"
  decode_payload :: "string \<Rightarrow> (rat \<times> rat \<times> string \<times> string) option"

definition encode_search_cursor ::
    "cursor_codec \<Rightarrow> rat \<Rightarrow> rat \<Rightarrow> string \<Rightarrow> string \<Rightarrow> string" where
  "encode_search_cursor codec score rating_avg uid scope =
     encode_payload codec (score, rating_avg, uid, scope)"

definition decode_search_cursor ::
    "cursor_codec \<Rightarrow> string \<Rightarrow> (rat \<times> rat \<times> string \<times> string) res" where
  "decode_search_cursor codec cursor =
     (case decode_payload codec cursor of
        None \<Rightarrow> Inl (app_error VALIDATION_ERROR) | Some p \<Rightarrow> Inr p)"

definition search_position :: "(spot \<Rightarrow> rat) \<Rightarrow> spot \<Rightarrow> search_position" where
  "search_position score s = (score s, s_rating_avg s, s_uid s)"

text \<open>The rows of the query, best first, from the position given on.\<close>

definition search_page ::
    "(spot \<Rightarrow> rat) \<Rightarrow> nat \<Rightarrow> spot list \<Rightarrow> search_position option \<Rightarrow> (spot, search_position) page res" where
  "search_page score limit rows last_position =
     (let query = rev (sort_key (search_position score) rows)
      in Inr (first_page (search_position score) limit
           (case last_position of
              None \<Rightarrow> query
            | Some p \<Rightarrow> filter (\<lambda>s. search_position score s < p) query)))"

definition search_spots ::
    "settings \<Rightarrow> fts \<Rightarrow> cursor_codec \<Rightarrow> (pyfloat \<Rightarrow> string) \<Rightarrow> (string \<Rightarrow> string) \<Rightarrow> string
       \<Rightarrow> string list option \<Rightarrow> string option \<Rightarrow> bbox option \<Rightarrow> nat \<Rightarrow> string option \<Rightarrow> 'r world
       \<Rightarrow> (spot, string) page res" where
  "search_spots cfg f codec fmt6 sha query category region_province box limit cursor w =
     (let scope = scope_token fmt6 sha box;
          score = fst (search_terms f query); matched = snd (search_terms f query)
      in bindE (apply_explore_filters cfg category region_province box None) (\<lambda>shown.
         bindE (if truthy cursor
                then bindE (decode_search_cursor codec (the cursor))
                       (\<lambda>(last_score, last_rating_avg, last_uid, cursor_scope).
                         bindE (reject_scope_mismatch cursor_scope scope) (\<lambda>_.
                           Inr (Some (last_score, last_rating_avg, last_uid))))
                else Inr None)
           (\<lambda>last_position.
             bindE (search_page score limit (filter (\<lambda>s. shown s \<and> matched s) (spots w)) last_position)
               (\<lambda>(rows, next, has_more).
                  Inr (rows,
                       map_option (\<lambda>(r, v, u). encode_search_cursor codec r v u scope) next,
                       has_more)))))"

definition get_spot_by_uid :: "settings \<Rightarrow> uid \<Rightarrow> bool \<Rightarrow> 'r world \<Rightarrow> spot option res" where
  "get_spot_by_uid cfg uid published_only w =
     bindE (if published_only then apply_explore_filters cfg None None None None
            else Inr (\<lambda>_. True)) (\<lambda>shown.
       scalar_one_or_none multiple_results (filter (\<lambda>s. s_uid s = uid \<and> shown s) (spots w)))"
section \<open>Admin reads\<close>

definition pipeline_status_value :: "pipeline_status \<Rightarrow> string" where
  "pipeline_status_value s = (case s of RAW \<Rightarrow> ''RAW'' | ENRICHED \<Rightarrow> ''ENRICHED''
     | CURATED \<Rightarrow> ''CURATED'' | REVIEWED \<Rightarrow> ''REVIEWED'' | PUBLISHED \<Rightarrow> ''PUBLISHED''
     | REJECTED \<Rightarrow> ''REJECTED'')"

text \<open>
  The value of a column as PostgreSQL orders it: NULLs after every value (ascending), numbers
  and times by size, texts by code point.
\<close>

type_synonym sort_value = "nat \<times> rat \<times> string"

definition sort_text :: "string option \<Rightarrow> sort_value" where
  "sort_text v = (case v of None \<Rightarrow> (1, 0, []) | Some s \<Rightarrow> (0, 0, s))"

definition sort_number :: "rat option \<Rightarrow> sort_value" where
  "sort_number v = (case v of None \<Rightarrow> (1, 0, []) | Some q \<Rightarrow> (0, q, []))"

text \<open>Newest first: descending order puts NULLs first.\<close>

definition newest_first :: "('a \<Rightarrow> instant option) \<Rightarrow> 'a list \<Rightarrow> 'a list" where
  "newest_first t rows = rev (sort_key (\<lambda>r. sort_number (map_option of_int (t r))) rows)"

definition oldest_first :: "('a \<Rightarrow> instant option) \<Rightarrow> 'a list \<Rightarrow> 'a list" where
  "oldest_first t rows = sort_key (\<lambda>r. sort_number (map_option of_int (t r))) rows"

definition spot_column :: "string \<Rightarrow> (spot \<Rightarrow> sort_value) option" where
  "spot_column field = map_of
     [(''uid'', \<lambda>s. sort_text (Some (s_uid s))),
      (''title'', \<lambda>s. sort_text (Some (s_title s))),
      (''region_province'', \<lambda>s. sort_text (s_region_province s)),
      (''region_city'', \<lambda>s. sort_text (s_region_city s)),
      (''rating_avg'', \<lambda>s. sort_number (Some (s_rating_avg s))),
      (''review_count'', \<lambda>s. sort_number (Some (of_int (s_review_count s)))),
      (''created_at'', \<lambda>s. sort_number (map_option of_int (s_created_at s))),
      (''updated_at'', \<lambda>s. sort_number (map_option of_int (s_updated_at s)))] field"

definition spot_filter_column :: "string \<Rightarrow> (spot \<Rightarrow> string option) option" where
  "spot_filter_column field = map_of
     [(''region_province'', s_region_province), (''source'', s_source),
      (''pipeline_status'', \<lambda>s. Some (pipeline_status_value (s_pipeline_status s))),
      (''assigned_to_uid'', s_assigned_to_uid)] field"

definition icontains :: "string \<Rightarrow> string \<Rightarrow> bool" where
  "icontains column pattern = contains (str_lower column) (str_lower pattern)"

definition passes_filters :: "(string \<times> string option) list \<Rightarrow> spot \<Rightarrow> bool" where
  "passes_filters filters s = list_all (\<lambda>(field, v).
     case spot_filter_column field of
       None \<Rightarrow> True
     | Some col \<Rightarrow> truthy v \<longrightarrow> col s = v) filters"

definition order_rows :: "('a \<Rightarrow> sort_value) \<Rightarrow> string \<Rightarrow> 'a list \<Rightarrow> 'a list" where
  "order_rows column direction rows =
     (if direction = ''desc'' then rev (sort_key column rows) else sort_key column rows)"

definition list_spots_admin ::
    "nat \<Rightarrow> nat \<Rightarrow> string \<Rightarrow> string \<Rightarrow> string option \<Rightarrow> (string \<times> string option) list \<Rightarrow> bool
       \<Rightarrow> 'r world \<Rightarrow> spot list \<times> nat" where
  "list_spots_admin offset limit sort_field direction title filters include_deleted w =
     (let found = filter (\<lambda>s. (include_deleted \<or> s_deleted_at s = None)
                     \<and> (truthy title \<longrightarrow> icontains (s_title s) (the title))
                     \<and> passes_filters filters s) (spots w);
          column = (case spot_column sort_field of None \<Rightarrow> (\<lambda>s. sort_text (Some (s_uid s))) | Some c \<Rightarrow> c)
      in (offset_limit offset limit (order_rows column direction found), length found))"

text \<open>\<open>_FILTERABLE[field]\<close> raises \<open>KeyError\<close> outside the whitelist.\<close>

definition list_distinct :: "string \<Rightarrow> 'r world \<Rightarrow> string list res" where
  "list_distinct field w =
     (case spot_filter_column field of
        None \<Rightarrow> Inl key_error
      | Some col \<Rightarrow> Inr (remdups (sort (List.map_filter col (spots w)))))"

definition unspecified_label :: string where
  "unspecified_label = [CHR 0x28, CHR 0xEB, CHR 0xAF, CHR 0xB8, CHR 0xEC, CHR 0xA7, CHR 0x80, CHR 0xEC, CHR 0xA0, CHR 0x95, CHR 0x29]"

definition grouped :: "(spot \<Rightarrow> string option) \<Rightarrow> spot list \<Rightarrow> (string \<times> nat) list" where
  "grouped column rows =
     (let keys = map (\<lambda>s. case column s of None \<Rightarrow> unspecified_label | Some k \<Rightarrow> k) rows
      in rev (sort_key snd (map (\<lambda>k. (k, count_where (\<lambda>x. x = k) keys)) (remdups keys))))"

record spot_stats =
  st_total :: nat
  st_business_info_total :: nat
  st_missing_coordinates :: nat
  st_by_source :: "(string \<times> nat) list"
  st_by_region_province :: "(string \<times> nat) list"
  st_my_assigned_total :: nat
  st_my_completed :: nat

definition get_spot_stats :: "uid \<Rightarrow> 'r world \<Rightarrow> spot_stats" where
  "get_spot_stats staff_uid w =
     \<lparr>st_total = length (spots w),
      st_business_info_total = length (business_infos w),
      st_missing_coordinates =
        count_where (\<lambda>s. s_latitude s = None \<or> s_longitude s = None) (spots w),
      st_by_source = grouped s_source (spots w),
      st_by_region_province = grouped s_region_province (spots w),
      st_my_assigned_total = count_where (\<lambda>s. s_assigned_to_uid s = Some staff_uid) (spots w),
      st_my_completed =
        count_where (\<lambda>s. s_assigned_to_uid s = Some staff_uid \<and> s_pipeline_status s \<noteq> ENRICHED)
          (spots w)\<rparr>"

section \<open>Writes\<close>

text \<open>An UPDATE statement on \<open>spots\<close>: \<open>updated_at\<close> follows (\<open>onupdate\<close>).\<close>

definition update_spots :: "instant \<Rightarrow> (spot \<Rightarrow> bool) \<Rightarrow> (spot \<Rightarrow> spot) \<Rightarrow> 'r world \<Rightarrow> 'r world" where
  "update_spots now P f w =
     w\<lparr>spots := update_where P (\<lambda>s. (f s)\<lparr>s_updated_at := Some now\<rparr>) (spots w)\<rparr>"

text \<open>
  \<open>locked\<close> are the rows another transaction holds (\<open>SKIP LOCKED\<close>).
\<close>

definition pick_uids :: "(uid \<Rightarrow> bool) \<Rightarrow> (spot \<Rightarrow> bool) \<Rightarrow> nat \<Rightarrow> 'r world \<Rightarrow> uid list" where
  "pick_uids locked P n w =
     take n (map s_uid (filter (\<lambda>s. P s \<and> \<not> locked (s_uid s)) (spots w)))"

definition assign_spots ::
    "instant \<Rightarrow> (uid \<Rightarrow> bool) \<Rightarrow> uid \<Rightarrow> nat \<Rightarrow> 'r world \<Rightarrow> nat \<times> 'r world" where
  "assign_spots now locked user_uid n w =
     (let uids = pick_uids locked
            (\<lambda>s. s_pipeline_status s = ENRICHED \<and> s_assigned_to_uid s = None) n w
      in if uids = [] then (0, w)
         else (length uids,
               update_spots now (\<lambda>s. s_uid s \<in> set uids)
                 (\<lambda>s. s\<lparr>s_assigned_to_uid := Some user_uid\<rparr>) w))"

definition assign_spots_bulk :: "instant \<Rightarrow> uid list \<Rightarrow> uid \<Rightarrow> 'r world \<Rightarrow> nat \<times> 'r world" where
  "assign_spots_bulk now spot_uids user_uid w =
     (count_where (\<lambda>s. s_uid s \<in> set spot_uids) (spots w),
      update_spots now (\<lambda>s. s_uid s \<in> set spot_uids)
        (\<lambda>s. s\<lparr>s_assigned_to_uid := Some user_uid\<rparr>) w)"

definition transfer_spot_assignments ::
    "instant \<Rightarrow> (uid \<Rightarrow> bool) \<Rightarrow> uid \<Rightarrow> uid \<Rightarrow> nat \<Rightarrow> 'r world \<Rightarrow> nat \<times> 'r world" where
  "transfer_spot_assignments now locked from_user_uid to_user_uid n w =
     (let uids = pick_uids locked
            (\<lambda>s. s_pipeline_status s = ENRICHED \<and> s_assigned_to_uid s = Some from_user_uid) n w
      in if uids = [] then (0, w)
         else (length uids,
               update_spots now (\<lambda>s. s_uid s \<in> set uids)
                 (\<lambda>s. s\<lparr>s_assigned_to_uid := Some to_user_uid\<rparr>) w))"

definition TRUST_TIER_DECAY_DAYS :: int where
  "TRUST_TIER_DECAY_DAYS = 180"

definition is_stale :: "instant \<Rightarrow> spot \<Rightarrow> bool" where
  "is_stale cutoff s \<longleftrightarrow>
     s_pipeline_status s = PUBLISHED \<and> s_deleted_at s = None \<and> s_trust_tier s \<noteq> None
   \<and> (case s_last_verified_at s of None \<Rightarrow> True | Some t \<Rightarrow> t < cutoff)"

definition tier_below :: "int \<Rightarrow> spot \<Rightarrow> bool" where
  "tier_below n s = (case s_trust_tier s of None \<Rightarrow> False | Some t \<Rightarrow> t < n)"

definition decay_stale_trust_tiers ::
    "'r redis_client option \<Rightarrow> instant \<Rightarrow> int \<Rightarrow> 'r world \<Rightarrow> (nat \<times> nat) \<times> 'r world" where
  "decay_stale_trust_tiers client now threshold_days w =
     (let cutoff = now - days threshold_days;
          downgrade = (\<lambda>s. is_stale cutoff s \<and> tier_below 3 s);
          downgraded_uids = map s_uid (filter downgrade (spots w));
          w1 = update_spots now downgrade
                 (\<lambda>s. s\<lparr>s_trust_tier := map_option (\<lambda>t. t + 1) (s_trust_tier s),
                        s_last_verified_at := Some now\<rparr>) w;
          requeue = (\<lambda>s. is_stale cutoff s \<and> s_trust_tier s = Some 3);
          requeued = count_where requeue (spots w1);
          w2 = update_spots now requeue
                 (\<lambda>s. s\<lparr>s_assigned_to_uid := None, s_last_verified_at := Some now\<rparr>) w1;
          w3 = (if downgraded_uids \<noteq> []
                then invalidate_details client downgraded_uids (bump_spots client w2) else w2)
      in ((length downgraded_uids, requeued), w3))"

definition update_pipeline_status_bulk ::
    "'r redis_client option \<Rightarrow> instant \<Rightarrow> uid list \<Rightarrow> pipeline_status \<Rightarrow> 'r world
       \<Rightarrow> uid list \<times> 'r world" where
  "update_pipeline_status_bulk client now uids status w =
     (let found = map s_uid (filter (\<lambda>s. s_uid s \<in> set uids) (spots w))
      in if found = [] then ([], w)
         else (found,
               invalidate_details client found (bump_spots client
                 (update_spots now (\<lambda>s. s_uid s \<in> set found)
                    (\<lambda>s. s\<lparr>s_pipeline_status := status\<rparr>) w))))"

section \<open>Editing one spot\<close>

text \<open>
  The entries of a partial update, by the attribute they set: the keys a PATCH body had
  (\<open>exclude_unset\<close>), in order; \<open>None\<close> is an explicit null.  \<open>title\<close> and
  \<open>pipeline_status\<close> are NOT NULL and \<open>trust_tier\<close> is checked to lie in 1..3: the flush
  raises otherwise and nothing is stored.
\<close>

datatype spot_attr =
    Set_title "string option"
  | Set_address "string option"
  | Set_address_detail "string option"
  | Set_region_province "string option"
  | Set_region_city "string option"
  | Set_postal_code "string option"
  | Set_phone "string option"
  | Set_description "string option"
  | Set_tagline "string option"
  | Set_latitude "rat option"
  | Set_longitude "rat option"
  | Set_altitude "rat option"
  | Set_unit_count "int option"
  | Set_is_fee_required "bool option"
  | Set_is_pet_allowed "bool option"
  | Set_pet_policy "string option"
  | Set_has_equipment_rental "string list option"
  | Set_themes "string list option"
  | Set_fire_pit_type "string option"
  | Set_amenities "string list option"
  | Set_nearby_facilities "string list option"
  | Set_camp_sight_type "string option"
  | Set_website_url "string option"
  | Set_booking_url "string option"
  | Set_features "string option"
  | Set_category "string list option"
  | Set_total_area_m2 "rat option"
  | Set_has_liability_insurance "bool option"
  | Set_pipeline_status "pipeline_status option"
  | Set_trust_tier "int option"
  | Set_assigned_to_uid "uid option"

fun set_spot_attr :: "spot_attr \<Rightarrow> spot \<Rightarrow> spot option" where
  "set_spot_attr (Set_title v) s =
     (case v of None \<Rightarrow> None | Some x \<Rightarrow> Some (s\<lparr>s_title := x\<rparr>))"
| "set_spot_attr (Set_address v) s = Some (s\<lparr>s_address := v\<rparr>)"
| "set_spot_attr (Set_address_detail v) s = Some (s\<lparr>s_address_detail := v\<rparr>)"
| "set_spot_attr (Set_region_province v) s = Some (s\<lparr>s_region_province := v\<rparr>)"
| "set_spot_attr (Set_region_city v) s = Some (s\<lparr>s_region_city := v\<rparr>)"
| "set_spot_attr (Set_postal_code v) s = Some (s\<lparr>s_postal_code := v\<rparr>)"
| "set_spot_attr (Set_phone v) s = Some (s\<lparr>s_phone := v\<rparr>)"
| "set_spot_attr (Set_description v) s = Some (s\<lparr>s_description := v\<rparr>)"
| "set_spot_attr (Set_tagline v) s = Some (s\<lparr>s_tagline := v\<rparr>)"
| "set_spot_attr (Set_latitude v) s = Some (s\<lparr>s_latitude := v\<rparr>)"
| "set_spot_attr (Set_longitude v) s = Some (s\<lparr>s_longitude := v\<rparr>)"
| "set_spot_attr (Set_altitude v) s = Some (s\<lparr>s_altitude := v\<rparr>)"
| "set_spot_attr (Set_unit_count v) s = Some (s\<lparr>s_unit_count := v\<rparr>)"
| "set_spot_attr (Set_is_fee_required v) s = Some (s\<lparr>s_is_fee_required := v\<rparr>)"
| "set_spot_attr (Set_is_pet_allowed v) s = Some (s\<lparr>s_is_pet_allowed := v\<rparr>)"
| "set_spot_attr (Set_pet_policy v) s = Some (s\<lparr>s_pet_policy := v\<rparr>)"
| "set_spot_attr (Set_has_equipment_rental v) s = Some (s\<lparr>s_has_equipment_rental := v\<rparr>)"
| "set_spot_attr (Set_themes v) s = Some (s\<lparr>s_themes := v\<rparr>)"
| "set_spot_attr (Set_fire_pit_type v) s = Some (s\<lparr>s_fire_pit_type := v\<rparr>)"
| "set_spot_attr (Set_amenities v) s = Some (s\<lparr>s_amenities := v\<rparr>)"
| "set_spot_attr (Set_nearby_facilities v) s = Some (s\<lparr>s_nearby_facilities := v\<rparr>)"
| "set_spot_attr (Set_camp_sight_type v) s = Some (s\<lparr>s_camp_sight_type := v\<rparr>)"
| "set_spot_attr (Set_website_url v) s = Some (s\<lparr>s_website_url := v\<rparr>)"
| "set_spot_attr (Set_booking_url v) s = Some (s\<lparr>s_booking_url := v\<rparr>)"
| "set_spot_attr (Set_features v) s = Some (s\<lparr>s_features := v\<rparr>)"
| "set_spot_attr (Set_category v) s = Some (s\<lparr>s_category := v\<rparr>)"
| "set_spot_attr (Set_total_area_m2 v) s = Some (s\<lparr>s_total_area_m2 := v\<rparr>)"
| "set_spot_attr (Set_has_liability_insurance v) s = Some (s\<lparr>s_has_liability_insurance := v\<rparr>)"
| "set_spot_attr (Set_pipeline_status v) s =
     (case v of None \<Rightarrow> None | Some x \<Rightarrow> Some (s\<lparr>s_pipeline_status := x\<rparr>))"
| "set_spot_attr (Set_trust_tier v) s =
     (case v of None \<Rightarrow> Some (s\<lparr>s_trust_tier := None\<rparr>)
      | Some n \<Rightarrow> if 1 \<le> n \<and> n \<le> 3 then Some (s\<lparr>s_trust_tier := Some n\<rparr>) else None)"
| "set_spot_attr (Set_assigned_to_uid v) s = Some (s\<lparr>s_assigned_to_uid := v\<rparr>)"

fun set_spot_attrs :: "spot_attr list \<Rightarrow> spot \<Rightarrow> spot option" where
  "set_spot_attrs [] s = Some s"
| "set_spot_attrs (a # as) s =
     (case set_spot_attr a s of None \<Rightarrow> None | Some s' \<Rightarrow> set_spot_attrs as s')"

text \<open>The columns of one row are written when one changed.\<close>

definition save_spot :: "instant \<Rightarrow> spot \<Rightarrow> spot \<Rightarrow> 'r world \<Rightarrow> 'r world" where
  "save_spot now old new w =
     (if new = old then w
      else w\<lparr>spots := update_where (\<lambda>s. s_uid s = s_uid old)
                        (\<lambda>_. new\<lparr>s_updated_at := Some now\<rparr>) (spots w)\<rparr>)"

definition saved_spot :: "instant \<Rightarrow> spot \<Rightarrow> spot \<Rightarrow> spot" where
  "saved_spot now old new = (if new = old then old else new\<lparr>s_updated_at := Some now\<rparr>)"

definition update_spot ::
    "'r redis_client option \<Rightarrow> settings \<Rightarrow> instant \<Rightarrow> uid \<Rightarrow> spot_attr list \<Rightarrow> 'r world
       \<Rightarrow> spot option res \<times> 'r world" where
  "update_spot client cfg now uid data w =
     check (get_spot_by_uid cfg uid False w) w (\<lambda>found.
       case found of
         None \<Rightarrow> ret None w
       | Some s \<Rightarrow>
           (case set_spot_attrs data s of
              None \<Rightarrow> raise integrity_error w
            | Some s' \<Rightarrow>
                ret (Some (saved_spot now s s'))
                  (invalidate_detail client uid (bump_spots client (save_spot now s s' w)))))"

definition delete_spot :: "'r redis_client option \<Rightarrow> instant \<Rightarrow> spot \<Rightarrow> 'r world \<Rightarrow> 'r world" where
  "delete_spot client now s w =
     invalidate_detail client (s_uid s) (bump_spots client
       (update_spots now (\<lambda>x. s_uid x = s_uid s) (\<lambda>x. x\<lparr>s_deleted_at := Some now\<rparr>) w))"

definition restore_spot ::
    "'r redis_client option \<Rightarrow> instant \<Rightarrow> spot \<Rightarrow> 'r world \<Rightarrow> spot \<times> 'r world" where
  "restore_spot client now s w =
     (s\<lparr>s_deleted_at := None, s_updated_at := Some now\<rparr>,
      invalidate_detail client (s_uid s) (bump_spots client
        (update_spots now (\<lambda>x. s_uid x = s_uid s) (\<lambda>x. x\<lparr>s_deleted_at := None\<rparr>) w)))"


section \<open>Laws of the listings\<close>

lemma sort_key_strict:
  fixes key :: "'a \<Rightarrow> 'k::linorder"
  assumes "distinct (map key rows)"
  shows "sorted_wrt (\<lambda>a b. key a < key b) (sort_key key rows)"
proof -
  have "distinct (map key (sort_key key rows))"
    using assms by (metis distinct_map distinct_sort set_sort)
  moreover have "sorted (map key (sort_key key rows))" by (rule sorted_sort_key)
  ultimately have "sorted_wrt (<) (map key (sort_key key rows))"
    by (simp add: strict_sorted_iff)
  then show ?thesis by (simp add: sorted_wrt_map)
qed

lemma sort_key_strict_desc:
  fixes key :: "'a \<Rightarrow> 'k::linorder"
  assumes "distinct (map key rows)"
  shows "sorted_wrt (\<lambda>a b. key b < key a) (rev (sort_key key rows))"
  using sort_key_strict [OF assms] by (simp add: sorted_wrt_rev)

interpretation spots_pager: keyset_pager "(<)" s_uid "\<lambda>s. CHR '':'' \<notin> set (s_uid s)"
    "sort_key s_uid" "spot_cursor scope" "list_spots_page scope" for scope
  by unfold_locales
    (auto simp: list_spots_page_def truthy_def spot_cursor_def str_rpartition_snoc
      reject_scope_mismatch_def sort_key_strict)

interpretation search_pager: keyset_pager "\<lambda>p q. q < p" "search_position score" "\<lambda>_. True"
    "\<lambda>rows. rev (sort_key (search_position score) rows)" "search_position score" "search_page score"
  for score
  by unfold_locales (auto simp: search_page_def sort_key_strict_desc)

text \<open>A table of spots whose key is the key the columns promise: a short UUID.\<close>

definition spots_ok :: "spot list \<Rightarrow> bool" where
  "spots_ok rows \<longleftrightarrow> unique_key s_uid rows \<and> list_all (\<lambda>s. CHR '':'' \<notin> set (s_uid s)) rows"

lemma spots_ok_distinct: "spots_ok rows \<Longrightarrow> distinct (map s_uid (filter P rows))"
  by (simp add: spots_ok_def unique_key_def distinct_map_filter_rows)

lemma list_spots_walk:
  assumes "spots_ok (spots w)" and "apply_explore_filters cfg category region box None = Inr shown"
    and "0 < limit" "length (filter shown (spots w)) \<le> n * limit" "0 < n"
  shows "walk_pages (\<lambda>c. list_spots cfg fmt6 sha category region box limit c w) n None
     = Inr (sort_key s_uid (filter shown (spots w)))"
  using spots_pager.walk_complete [of "filter shown (spots w)" limit n "scope_token fmt6 sha box"] assms
  by (simp add: list_spots_def spots_ok_distinct) (simp add: spots_ok_def list_all_iff)

text \<open>What the JSON codec does: it reads back what it wrote, and writes no empty text.\<close>

definition codec_ok :: "cursor_codec \<Rightarrow> bool" where
  "codec_ok codec \<longleftrightarrow> (\<forall>p. decode_payload codec (encode_payload codec p) = Some p
     \<and> encode_payload codec p \<noteq> [])"

lemma search_spots_walk:
  assumes "spots_ok (spots w)" and "codec_ok codec"
    and "apply_explore_filters cfg category region box None = Inr shown"
    and "0 < limit" "length (filter (\<lambda>s. shown s \<and> snd (search_terms f query) s) (spots w)) \<le> n * limit"
      "0 < n"
  shows "walk_pages (\<lambda>c. search_spots cfg f codec fmt6 sha query category region box limit c w) n None
     = Inr (rev (sort_key (search_position (fst (search_terms f query)))
              (filter (\<lambda>s. shown s \<and> snd (search_terms f query) s) (spots w))))"
proof -
  let ?score = "fst (search_terms f query)" and ?scope = "scope_token fmt6 sha box"
  let ?rows = "filter (\<lambda>s. shown s \<and> snd (search_terms f query) s) (spots w)"
  let ?enc = "\<lambda>(r, v, u). encode_search_cursor codec r v u ?scope"
  have rename: "search_spots cfg f codec fmt6 sha query category region box limit (map_option ?enc c) w =
      bindE (search_page ?score limit ?rows c) (\<lambda>(rows, next, more). Inr (rows, map_option ?enc next, more))"
    for c
    using assms(2)
    by (cases c) (auto simp: search_spots_def assms(3) codec_ok_def truthy_def encode_search_cursor_def
        decode_search_cursor_def reject_scope_mismatch_def Let_def)
  have "inj_on (search_position ?score) (set (spots w))"
    using assms(1) by (auto simp: spots_ok_def unique_key_def distinct_map inj_on_def search_position_def)
  moreover have "distinct (spots w)"
    using assms(1) by (simp add: spots_ok_def unique_key_def distinct_map)
  ultimately have "distinct (map (search_position ?score) ?rows)"
    by (auto simp: distinct_map intro: inj_on_subset)
  then have "walk_pages (search_page ?score limit ?rows) n None
      = Inr (rev (sort_key (search_position ?score) ?rows))"
    using assms(4-6) by (intro search_pager.walk_complete) auto
  then show ?thesis
    using walk_pages_rename [where f = ?enc and c = None and n = n
        and fetch = "search_page ?score limit ?rows"
        and fetch' = "\<lambda>c. search_spots cfg f codec fmt6 sha query category region box limit c w",
        OF rename] by simp
qed

lemma filter_shown:
  assumes "apply_explore_filters cfg category region box req = Inr shown" and "shown s"
  shows "s_pipeline_status s = PUBLISHED" "s_deleted_at s = None"
    "req = Some True \<or> req = None \<and> EXPLORE_REQUIRE_COORDINATES cfg \<Longrightarrow>
       s_latitude s \<noteq> None \<and> s_longitude s \<noteq> None"
  using assms by (auto simp: apply_explore_filters_def bindE_Inr_iff)

lemma filter_coordinates:
  assumes "apply_explore_filters cfg category region box None = Inr shown"
  shows "\<exists>shown'. apply_explore_filters cfg category region box (Some True) = Inr shown'
     \<and> (\<forall>s. shown' s \<longleftrightarrow> shown s \<and> s_latitude s \<noteq> None \<and> s_longitude s \<noteq> None)"
  using assms by (auto simp: apply_explore_filters_def bindE_Inr_iff)

lemma set_first_page: "first_page issue limit found = (rows, c, b) \<Longrightarrow> set rows \<subseteq> set found"
  by (auto simp: first_page_eq dest: in_set_takeD)

lemma list_spots_page_set:
  assumes "list_spots_page scope limit rows cursor = Inr (p, c, b)"
  shows "set p \<subseteq> set rows \<and> length p \<le> limit"
proof -
  obtain found where "first_page (spot_cursor scope) limit found = (p, c, b)" "set found \<subseteq> set rows"
    using assms by (auto simp: list_spots_page_def bindE_Inr_iff Let_def split: if_splits prod.splits)
  then show ?thesis
    using set_first_page [of "spot_cursor scope" limit found p c b]
      first_page_length [of "spot_cursor scope" limit found] by auto
qed

lemma search_page_set:
  assumes "search_page score limit rows p0 = Inr (p, c, b)"
  shows "set p \<subseteq> set rows"
  using assms set_first_page [of "search_position score" limit _ p c b]
  by (fastforce simp: search_page_def Let_def split: option.splits)
end
