(* ===== verification/Spots_Properties.thy ===== *)
theory Spots_Properties
  imports Spots "HOL-Library.Countable"
begin

text \<open>
  What the operations of \<open>Spots\<close> guarantee: the public listings show every publishable spot
  exactly once and nothing else, the three ways to look at a selection agree, the decay of
  trust moves a spot at most one step per period, and assignments never take a spot from
  someone.
\<close>

section \<open>A small table\<close>

definition sample_spot :: "uid \<Rightarrow> spot" where
  "sample_spot i =
     \<lparr>s_uid = i, s_source = None, s_external_id = None, s_title = i, s_address = None,
      s_address_detail = None, s_region_province = None, s_region_city = None,
      s_postal_code = None, s_phone = None, s_description = None, s_tagline = None,
      s_latitude = None, s_longitude = None, s_altitude = None, s_unit_count = None,
      s_is_fee_required = None, s_is_pet_allowed = None, s_pet_policy = None,
      s_has_equipment_rental = None, s_themes = None, s_fire_pit_type = None,
      s_amenities = None, s_nearby_facilities = None, s_camp_sight_type = None,
      s_rating_avg = 0, s_review_count = 0, s_pipeline_status = PUBLISHED,
      s_trust_tier = Some 1, s_last_verified_at = None, s_website_url = None,
      s_booking_url = None, s_features = None, s_category = None, s_total_area_m2 = None,
      s_has_liability_insurance = None, s_created_at = None, s_updated_at = None,
      s_deleted_at = None, s_assigned_to_uid = None\<rparr>"

lemma sample_spot_sel [simp]:
  "s_uid (sample_spot i) = i" "s_pipeline_status (sample_spot i) = PUBLISHED"
  "s_deleted_at (sample_spot i) = None" "s_trust_tier (sample_spot i) = Some 1"
  "s_last_verified_at (sample_spot i) = None" "s_assigned_to_uid (sample_spot i) = None"
  "s_rating_avg (sample_spot i) = 0" "s_review_count (sample_spot i) = 0"
  "s_latitude (sample_spot i) = None" "s_longitude (sample_spot i) = None"
  "s_category (sample_spot i) = None" "s_title (sample_spot i) = i"
  by (simp_all add: sample_spot_def)

definition three_spots :: "unit world" where
  "three_spots = (empty_world ())\<lparr>spots := [sample_spot ''b'', sample_spot ''a'', sample_spot ''c'']\<rparr>"

lemma three_spots_spots [simp]:
  "spots three_spots = [sample_spot ''b'', sample_spot ''a'', sample_spot ''c'']"
  by (simp add: three_spots_def)

lemma three_spots_ok: "spots_ok (spots three_spots)"
  by (simp add: spots_ok_def unique_key_def)

lemma no_filters: "EXPLORE_REQUIRE_COORDINATES sample_settings = False"
  by (simp add: sample_settings_def default_settings_def)

lemma no_filters_condition:
  "apply_explore_filters sample_settings None None None None
     = Inr (\<lambda>s. s_pipeline_status s = PUBLISHED \<and> s_deleted_at s = None)"
  by (simp add: apply_explore_filters_def region_condition_def truthy_def no_filters)

section \<open>Properties\<close>



text \<open>
  C25: Search is complete and deterministic in the same sense: following the cursors returns
  every spot that passes the filters and matches the query exactly once, by decreasing score,
  then rating, then uid, although the position travels through an encoded cursor.
\<close>

theorem search_spots_complete:
  assumes "spots_ok (spots w)" and "codec_ok codec"
    and "apply_explore_filters cfg category region box None = Inr shown"
    and "0 < limit"
    and "length (filter (\<lambda>s. shown s \<and> snd (search_terms f query) s) (spots w)) \<le> n * limit"
    and "0 < n"
  shows "\<exists>listed. walk_pages
         (\<lambda>c. search_spots cfg f codec fmt6 sha query category region box limit c w) n None = Inr listed
     \<and> mset listed = mset (filter (\<lambda>s. shown s \<and> snd (search_terms f query) s) (spots w))
     \<and> sorted_wrt (\<lambda>a b. search_position (fst (search_terms f query)) b
                       < search_position (fst (search_terms f query)) a) listed"
proof -
  have "inj_on (search_position (fst (search_terms f query))) (set (spots w))" "distinct (spots w)"
    using assms(1) by (auto simp: spots_ok_def unique_key_def distinct_map inj_on_def search_position_def)
  then have "distinct (map (search_position (fst (search_terms f query)))
      (filter (\<lambda>s. shown s \<and> snd (search_terms f query) s) (spots w)))"
    by (auto simp: distinct_map intro: inj_on_subset)
  from sort_key_strict_desc [OF this] search_spots_walk [OF assms] show ?thesis by auto
qed

text \<open>A codec and a matcher for the concrete instances: a payload is written in unary.\<close>

definition flat_fts :: fts where
  "flat_fts = \<lparr>ts_rank = (\<lambda>_ _. 1), fts_match = (\<lambda>_ _. True), similarity = (\<lambda>_ _. 0)\<rparr>"

definition some_codec :: cursor_codec where
  "some_codec = \<lparr>encode_payload = (\<lambda>p. replicate (Suc (to_nat p)) CHR ''x''),
                 decode_payload = (\<lambda>s. if s = [] then None else Some (from_nat (length s - 1)))\<rparr>"

lemma some_codec_ok: "codec_ok some_codec"
  by (simp add: codec_ok_def some_codec_def)

lemma search_spots_complete_witness:
  "\<exists>listed. walk_pages (\<lambda>c. search_spots sample_settings flat_fts some_codec (\<lambda>_. '''') id ''q''
       None None None 2 c three_spots) 2 None = Inr listed
     \<and> mset listed = mset (spots three_spots)"
proof -
  have matched: "snd (search_terms flat_fts ''q'') s" for s
    by (simp add: search_terms_def flat_fts_def)
  show ?thesis
    using search_spots_complete [OF three_spots_ok some_codec_ok no_filters_condition,
        where limit = 2 and n = 2 and f = flat_fts and query = "''q''"]
    by (fastforce simp: matched)
qed

lemma list_spots_map_set:
  assumes "list_spots_map cfg f q category region box limit w = Inr (p, m)"
  shows "\<exists>shown. apply_explore_filters cfg category region box (Some True) = Inr shown
     \<and> set p \<subseteq> {s \<in> set (spots w). shown s}"
proof -
  obtain shown P where "apply_explore_filters cfg category region box (Some True) = Inr shown"
      and "p = take limit (sort_key s_uid (filter (\<lambda>s. shown s \<and> P s) (spots w)))"
    using assms by (auto simp: list_spots_map_def bindE_Inr_iff Let_def min_def)
  then show ?thesis
    using set_take_subset [of limit "sort_key s_uid (filter (\<lambda>s. shown s \<and> P s) (spots w))"] by auto
qed





text \<open>
  A cursor is bound to the rectangle it was issued for: reused with another one, by the
  listing or by the search, the request is refused with \<open>CURSOR_SCOPE_MISMATCH\<close>.
\<close>

theorem cursor_scope_checked:
  assumes "apply_explore_filters cfg category region box None = Inr shown"
    and "codec_ok codec" and "CHR '':'' \<notin> set (s_uid s)"
    and "scope_token fmt6 sha box \<noteq> scope_token fmt6 sha box'"
  shows "list_spots cfg fmt6 sha category region box limit
           (Some (spot_cursor (scope_token fmt6 sha box') s)) w = Inl (app_error CURSOR_SCOPE_MISMATCH)
     \<and> search_spots cfg f codec fmt6 sha query category region box limit
           (Some (encode_search_cursor codec r v u (scope_token fmt6 sha box'))) w
         = Inl (app_error CURSOR_SCOPE_MISMATCH)"
proof -
  have "reject_scope_mismatch (scope_token fmt6 sha box') (scope_token fmt6 sha box)
      = Inl (app_error CURSOR_SCOPE_MISMATCH)"
    using assms(4) by (simp add: reject_scope_mismatch_def)
  with assms(1-3) show ?thesis
    by (simp add: list_spots_def list_spots_page_def truthy_def spot_cursor_def str_rpartition_snoc
        search_spots_def encode_search_cursor_def decode_search_cursor_def codec_ok_def Let_def)
qed

lemma cursor_scope_checked_witness:
  "list_spots sample_settings (\<lambda>_. ''1'') id None None None 2
     (Some (spot_cursor ''1,1,1,1'' (sample_spot ''a''))) three_spots
   = Inl (app_error CURSOR_SCOPE_MISMATCH)"
proof -
  have tokens: "scope_token (\<lambda>_. ''1'') id None = ''''"
    "scope_token (\<lambda>_. ''1'') id (Some \<lparr>min_lng = Fin 1, min_lat = Fin 1, max_lng = Fin 2, max_lat = Fin 2\<rparr>)
       = ''1,1,1,1''"
    by (simp_all add: scope_token_def is_continuation_def)
  show ?thesis
    using cursor_scope_checked [OF no_filters_condition some_codec_ok, of "sample_spot ''a''" "\<lambda>_. ''1''" id
        "Some \<lparr>min_lng = Fin 1, min_lat = Fin 1, max_lng = Fin 2, max_lat = Fin 2\<rparr>" 2 three_spots]
    by (simp add: tokens)
qed

section \<open>Decay of trust\<close>

definition decayed :: "instant \<Rightarrow> int \<Rightarrow> spot \<Rightarrow> spot" where
  "decayed now threshold_days s =
     (if is_stale (now - days threshold_days) s
      then if tier_below 3 s
           then s\<lparr>s_trust_tier := map_option (\<lambda>t. t + 1) (s_trust_tier s),
                  s_last_verified_at := Some now, s_updated_at := Some now\<rparr>
           else if s_trust_tier s = Some 3
           then s\<lparr>s_assigned_to_uid := None, s_last_verified_at := Some now, s_updated_at := Some now\<rparr>
           else s
      else s)"

lemma spots_cache [simp]:
  "spots (bump_spots client w) = spots w" "spots (invalidate_detail client uid w) = spots w"
  "spots (invalidate_details client uids w) = spots w"
proof -
  show detail: "spots (invalidate_detail client uid w) = spots w" for uid and w :: "'a world"
    by (simp add: invalidate_detail_def)
  show "spots (invalidate_details client uids w) = spots w"
    by (induction uids arbitrary: w) (simp_all add: invalidate_details_def detail)
qed (simp add: bump_spots_def)

lemma not_stale_now: "0 \<le> threshold_days \<Longrightarrow> s_last_verified_at s = Some now \<Longrightarrow> \<not> is_stale (now - days threshold_days) s"
  by (simp add: is_stale_def days_def seconds_def)

lemma spots_decay:
  assumes "0 \<le> threshold_days"
  shows "spots (snd (decay_stale_trust_tiers client now threshold_days w))
     = map (decayed now threshold_days) (spots w)"
  using not_stale_now [OF assms]
  by (auto simp: decay_stale_trust_tiers_def Let_def update_spots_def update_where_def decayed_def
      tier_below_def split: option.splits)

lemma decayed_fresh:
  assumes "decayed now threshold_days s \<noteq> s"
  shows "s_last_verified_at (decayed now threshold_days s) = Some now"
  using assms by (simp add: decayed_def split: if_splits)

lemma decayed_not_stale:
  assumes "s_last_verified_at s = Some now" and "later \<le> now + days threshold_days"
  shows "decayed later threshold_days s = s"
  using assms by (simp add: decayed_def is_stale_def)

text \<open>
  C38: The decay of trust takes each stale spot exactly one step per period.  A published,
  undeleted spot with a tier whose last verification is missing or older than the threshold
  loses one tier, or at the last tier its assignee; every other spot is unchanged; the count
  reported is the number of downgraded spots; and a later run within the threshold leaves
  alone every spot the first one touched.
\<close>

theorem decay_is_one_step:
  assumes "0 \<le> threshold_days" and "later \<le> now + days threshold_days"
  shows "(let ((downgraded, requeued), w') = decay_stale_trust_tiers client now threshold_days w;
              (counts, w'') = decay_stale_trust_tiers client later threshold_days w'
          in spots w' = map (decayed now threshold_days) (spots w)
           \<and> downgraded = count_where (\<lambda>s. is_stale (now - days threshold_days) s \<and> tier_below 3 s) (spots w)
           \<and> spots w'' = map (\<lambda>s. if decayed now threshold_days s = s then decayed later threshold_days s
                                  else decayed now threshold_days s) (spots w))"
proof -
  have count: "fst (fst (decay_stale_trust_tiers client now threshold_days w))
      = count_where (\<lambda>s. is_stale (now - days threshold_days) s \<and> tier_below 3 s) (spots w)"
    by (simp only: decay_stale_trust_tiers_def Let_def fst_conv count_where_def length_map)
  have twice: "decayed later threshold_days (decayed now threshold_days s)
      = (if decayed now threshold_days s = s then decayed later threshold_days s
         else decayed now threshold_days s)" for s
  proof (cases "decayed now threshold_days s = s")
    case False
    then show ?thesis using decayed_not_stale [OF decayed_fresh [OF False] assms(2)] by simp
  qed simp
  show ?thesis
    unfolding Let_def case_prod_beta
    by (simp only: spots_decay [OF assms(1)] count map_map comp_def twice simp_thms)
qed

lemma decay_is_one_step_witness:
  "map s_trust_tier (spots (snd (decay_stale_trust_tiers None 0 180 three_spots))) = [Some 2, Some 2, Some 2]"
proof -
  have "map s_trust_tier (map (decayed 0 180) (spots three_spots)) = [Some 2, Some 2, Some 2]"
    by (simp add: decayed_def is_stale_def tier_below_def)
  moreover have "0 \<le> (180 :: int)" "0 \<le> 0 + days 180"
    by (simp_all add: days_def seconds_def)
  ultimately show ?thesis
    using decay_is_one_step [of 180 0 0 None three_spots, unfolded Let_def case_prod_beta, THEN conjunct1]
    by (simp only:)
qed

section \<open>Assignments\<close>

lemma picked_rows:
  assumes "unique_key s_uid rows" and "uids = take n (map s_uid (filter Q rows))"
  shows "\<And>r. r \<in> set rows \<Longrightarrow> s_uid r \<in> set uids \<Longrightarrow> Q r"
    and "count_where (\<lambda>r. s_uid r \<in> set uids) rows = length uids"
proof -
  have distinct: "distinct (map s_uid rows)" using assms(1) by (simp add: unique_key_def)
  have sub: "set uids \<subseteq> s_uid ` {r \<in> set rows. Q r}"
    using assms(2) by (auto dest!: in_set_takeD)
  show "Q r" if "r \<in> set rows" "s_uid r \<in> set uids" for r
    using that sub distinct by (auto simp: distinct_map inj_on_def)
  have "distinct uids"
    using distinct by (simp add: assms(2) distinct_map_filter_rows)
  then have "length uids = card (set uids)" by (simp add: distinct_card)
  also have "set uids = set (map s_uid (filter (\<lambda>r. s_uid r \<in> set uids) rows))"
    using sub by auto
  also have "card \<dots> = length (map s_uid (filter (\<lambda>r. s_uid r \<in> set uids) rows))"
    by (rule distinct_card [OF distinct_map_filter_rows [OF distinct]])
  finally show "count_where (\<lambda>r. s_uid r \<in> set uids) rows = length uids"
    by (simp add: count_where_def)
qed

text \<open>
  What an assignment to \<open>target\<close> may do to the table: change the assignee of \<open>k\<close> rows that
  satisfy \<open>Q\<close>, nothing else.
\<close>

definition assigned_rows :: "instant \<Rightarrow> uid \<Rightarrow> (spot \<Rightarrow> bool) \<Rightarrow> nat \<Rightarrow> spot list \<Rightarrow> spot list \<Rightarrow> bool" where
  "assigned_rows now target Q k rows rows' \<longleftrightarrow>
     (\<exists>chosen. (\<forall>s \<in> set rows. chosen s \<longrightarrow> Q s) \<and> count_where chosen rows = k
       \<and> rows' = map (\<lambda>s. if chosen s then s\<lparr>s_assigned_to_uid := Some target, s_updated_at := Some now\<rparr>
                          else s) rows)"

lemma assigned_rows_pick:
  assumes "unique_key s_uid (spots w)" and "uids = pick_uids locked Q n w"
  shows "assigned_rows now target (\<lambda>s. Q s \<and> \<not> locked (s_uid s)) (length uids) (spots w)
     (spots (if uids = [] then w
             else update_spots now (\<lambda>s. s_uid s \<in> set uids) (\<lambda>s. s\<lparr>s_assigned_to_uid := Some target\<rparr>) w))"
proof -
  note picked = picked_rows [OF assms(1) assms(2) [unfolded pick_uids_def]]
  show ?thesis
    unfolding assigned_rows_def
    by (rule exI [of _ "\<lambda>s. s_uid s \<in> set uids"])
      (use picked in \<open>auto simp: update_spots_def update_where_def count_where_def\<close>)
qed

text \<open>
  C39: Assignment never takes a spot from someone.  Assigning \<open>n\<close> spots gives exactly
  \<open>min n\<close> of the available ones, each waiting for verification, unassigned and not locked by
  a concurrent request, and a transfer only moves the waiting spots of the person it names;
  the number returned is the number of rows changed, and no other row or column changes.
\<close>

theorem assignments_take_only_free:
  assumes "spots_ok (spots w)"
  shows "(let free = (\<lambda>s. (s_pipeline_status s = ENRICHED \<and> s_assigned_to_uid s = None) \<and> \<not> locked (s_uid s));
              (k, w') = assign_spots now locked target n w
          in k = min n (count_where free (spots w))
           \<and> assigned_rows now target free k (spots w) (spots w'))
   \<and> (let held = (\<lambda>s. (s_pipeline_status s = ENRICHED \<and> s_assigned_to_uid s = Some holder) \<and> \<not> locked (s_uid s));
              (k, w') = transfer_spot_assignments now locked holder target n w
          in k = min n (count_where held (spots w))
           \<and> assigned_rows now target held k (spots w) (spots w'))"
proof -
  have key: "unique_key s_uid (spots w)" using assms by (simp add: spots_ok_def)
  note rows = assigned_rows_pick [OF key refl]
  have len: "length (pick_uids locked Q n w) = min n (count_where (\<lambda>s. Q s \<and> \<not> locked (s_uid s)) (spots w))" for Q
    by (simp add: pick_uids_def count_where_def min.commute)
  show ?thesis
    using rows [where locked = locked and n = n and now = now and target = target
        and Q = "\<lambda>s. s_pipeline_status s = ENRICHED \<and> s_assigned_to_uid s = None"]
      rows [where locked = locked and n = n and now = now and target = target
        and Q = "\<lambda>s. s_pipeline_status s = ENRICHED \<and> s_assigned_to_uid s = Some holder"]
      len [of "\<lambda>s. s_pipeline_status s = ENRICHED \<and> s_assigned_to_uid s = None"]
      len [of "\<lambda>s. s_pipeline_status s = ENRICHED \<and> s_assigned_to_uid s = Some holder"]
    by (auto simp: assign_spots_def transfer_spot_assignments_def Let_def split: if_splits)
qed

lemma assignments_take_only_free_witness:
  "fst (assign_spots 0 (\<lambda>_. False) ''ann'' 5 three_spots) = 0"
  using assignments_take_only_free [OF three_spots_ok, of "\<lambda>_. False" 0 "''ann''" 5, THEN conjunct1]
  by (auto simp: Let_def split: prod.splits)

end
