(* ===== verification/Images.thy ===== *)
theory Images
  imports Spots_Properties
begin

text \<open>
  \<open>core/storage.py\<close>, \<open>crud/spot_image.py\<close> and \<open>endpoints/internal_spot_images.py\<close>:
  presigned uploads, the registration of an uploaded object, and the images of a spot.

  S3 is a parameter: \<open>s3_client\<close> holds the calls of boto3 the code makes, over the contents
  of the bucket of any type.  \<open>PyError ''ClientError'' code\<close> is botocore's exception with the
  error code of its response.  An operation that touches both the database and the bucket
  passes the pair of them.
\<close>

section \<open>Storage\<close>

record 'b s3_client =
  s3_presign_put :: "string \<Rightarrow> string \<Rightarrow> string \<Rightarrow> nat \<Rightarrow> string"
  s3_presign_get :: "string \<Rightarrow> string \<Rightarrow> string option \<Rightarrow> nat \<Rightarrow> string"
  s3_head :: "string \<Rightarrow> string \<Rightarrow> 'b \<Rightarrow> nat res"
  s3_delete :: "string \<Rightarrow> string \<Rightarrow> 'b \<Rightarrow> unit res \<times> 'b"
  s3_copy :: "string \<Rightarrow> string \<Rightarrow> string \<Rightarrow> 'b \<Rightarrow> unit res \<times> 'b"
  s3_upload :: "string \<Rightarrow> string \<Rightarrow> string \<Rightarrow> 'b \<Rightarrow> unit res \<times> 'b"

definition s3_bucket :: "settings \<Rightarrow> string res" where
  "s3_bucket cfg =
     (if truthy (S3_BUCKET cfg) then Inr (the (S3_BUCKET cfg))
      else Inl (app_error SERVICE_UNAVAILABLE))"

definition generate_presigned_put :: "'b s3_client \<Rightarrow> settings \<Rightarrow> string \<Rightarrow> string \<Rightarrow> string res" where
  "generate_presigned_put s3 cfg key content_type =
     bindE (s3_bucket cfg) (\<lambda>bucket.
       Inr (s3_presign_put s3 bucket key content_type (S3_PRESIGN_EXPIRE_SECONDS cfg)))"

definition generate_presigned_get ::
    "'b s3_client \<Rightarrow> settings \<Rightarrow> string \<Rightarrow> string option \<Rightarrow> string res" where
  "generate_presigned_get s3 cfg key filename =
     bindE (s3_bucket cfg) (\<lambda>bucket.
       Inr (s3_presign_get s3 bucket key
              (if truthy filename
               then Some (''attachment; filename='' @ [CHR 0x22] @ the filename @ [CHR 0x22])
               else None)
              (S3_PRESIGN_EXPIRE_SECONDS cfg)))"

definition public_url :: "settings \<Rightarrow> string \<Rightarrow> string res" where
  "public_url cfg key =
     (if truthy (CDN_BASE_URL cfg)
      then Inr (str_rstrip_char (CHR ''/'') (the (CDN_BASE_URL cfg)) @ ''/'' @ key)
      else Inl (app_error SERVICE_UNAVAILABLE))"

definition resolve_url :: "'b s3_client \<Rightarrow> settings \<Rightarrow> string \<Rightarrow> bool \<Rightarrow> string res" where
  "resolve_url s3 cfg key is_public =
     (if is_public then public_url cfg key else generate_presigned_get s3 cfg key None)"

definition not_found_codes :: "string list" where
  "not_found_codes = [''404'', ''NoSuchKey'', ''NotFound'']"

definition is_client_error :: "exn \<Rightarrow> bool" where
  "is_client_error e = (case e of PyError n _ \<Rightarrow> n = ''ClientError'' | _ \<Rightarrow> False)"

definition head_object :: "'b s3_client \<Rightarrow> settings \<Rightarrow> string \<Rightarrow> 'b \<Rightarrow> nat option res" where
  "head_object s3 cfg key b =
     bindE (s3_bucket cfg) (\<lambda>bucket.
       case s3_head s3 bucket key b of
         Inr n \<Rightarrow> Inr (Some n)
       | Inl e \<Rightarrow> if is_client_error e \<and> exn_text e \<in> set not_found_codes then Inr None else Inl e)"

definition delete_object :: "'b s3_client \<Rightarrow> settings \<Rightarrow> string \<Rightarrow> 'b \<Rightarrow> unit res \<times> 'b" where
  "delete_object s3 cfg key b = check (s3_bucket cfg) b (\<lambda>bucket. s3_delete s3 bucket key b)"

definition upload_file :: "'b s3_client \<Rightarrow> settings \<Rightarrow> string \<Rightarrow> string \<Rightarrow> 'b \<Rightarrow> unit res \<times> 'b" where
  "upload_file s3 cfg key file_path b =
     check (s3_bucket cfg) b (\<lambda>bucket. s3_upload s3 bucket key file_path b)"

definition copy_object :: "'b s3_client \<Rightarrow> settings \<Rightarrow> string \<Rightarrow> string \<Rightarrow> 'b \<Rightarrow> unit res \<times> 'b" where
  "copy_object s3 cfg src_key dest_key b =
     check (s3_bucket cfg) b (\<lambda>bucket. s3_copy s3 bucket src_key dest_key b)"

section \<open>Rows\<close>

definition list_images_by_spot :: "uid \<Rightarrow> 'r world \<Rightarrow> spot_image list" where
  "list_images_by_spot spot_uid w =
     sort_key (\<lambda>i. (si_sort_order i, sort_number (map_option of_int (si_created_at i))))
       (filter (\<lambda>i. si_spot_uid i = spot_uid \<and> si_deleted_at i = None) (spot_images w))"

text \<open>The dictionary keeps the first image of each spot (\<open>setdefault\<close>).\<close>

definition get_thumbnails_by_spots :: "uid list \<Rightarrow> 'r world \<Rightarrow> uid \<Rightarrow> spot_image option" where
  "get_thumbnails_by_spots spot_uids w =
     map_of (map (\<lambda>i. (si_spot_uid i, i))
       (sort_key (\<lambda>i. (si_spot_uid i, si_sort_order i, sort_number (map_option of_int (si_created_at i))))
         (filter (\<lambda>i. si_spot_uid i \<in> set spot_uids \<and> si_role i = THUMBNAIL \<and> si_deleted_at i = None)
            (spot_images w))))"

definition count_images_by_spot :: "uid \<Rightarrow> 'r world \<Rightarrow> nat" where
  "count_images_by_spot spot_uid w =
     count_where (\<lambda>i. si_spot_uid i = spot_uid \<and> si_deleted_at i = None) (spot_images w)"

definition get_image_by_uid :: "uid \<Rightarrow> uid \<Rightarrow> 'r world \<Rightarrow> spot_image option res" where
  "get_image_by_uid spot_uid image_uid w =
     scalar_one_or_none multiple_results
       (filter (\<lambda>i. si_uid i = image_uid \<and> si_spot_uid i = spot_uid \<and> si_deleted_at i = None)
          (spot_images w))"

text \<open>The two invalidations every write of images ends in.\<close>

definition invalidate_spot :: "'r redis_client option \<Rightarrow> uid \<Rightarrow> 'r world \<Rightarrow> 'r world" where
  "invalidate_spot client uid w = invalidate_detail client uid (bump_spots client w)"

text \<open>The insert fails on a used uid and on a missing spot (foreign key).\<close>

definition create_image ::
    "'r redis_client option \<Rightarrow> uid \<Rightarrow> instant \<Rightarrow> uid \<Rightarrow> string \<Rightarrow> spot_image_role \<Rightarrow> int \<Rightarrow> bool
       \<Rightarrow> string option \<Rightarrow> 'r world \<Rightarrow> spot_image res \<times> 'r world" where
  "create_image client uid now spot_uid s3_key role sort_order is_public content_type w =
     (let img = \<lparr>si_uid = uid, si_spot_uid = spot_uid, si_s3_key = s3_key, si_role = role,
                   si_sort_order = sort_order, si_is_public = is_public,
                   si_content_type = content_type, si_deleted_at = None,
                   si_created_at = Some now, si_updated_at = Some now\<rparr>
      in if spot_uid \<notin> s_uid ` set (spots w) then raise integrity_error w
         else case insert_row si_uid img (spot_images w) of
                None \<Rightarrow> raise integrity_error w
              | Some rows \<Rightarrow> ret img (invalidate_spot client spot_uid (w\<lparr>spot_images := rows\<rparr>)))"

datatype image_attr =
    Set_role "spot_image_role option"
  | Set_sort_order "int option"
  | Set_is_public "bool option"

fun set_image_attr :: "image_attr \<Rightarrow> spot_image \<Rightarrow> spot_image option" where
  "set_image_attr (Set_role v) i = map_option (\<lambda>x. i\<lparr>si_role := x\<rparr>) v"
| "set_image_attr (Set_sort_order v) i = map_option (\<lambda>x. i\<lparr>si_sort_order := x\<rparr>) v"
| "set_image_attr (Set_is_public v) i = map_option (\<lambda>x. i\<lparr>si_is_public := x\<rparr>) v"

fun set_image_attrs :: "image_attr list \<Rightarrow> spot_image \<Rightarrow> spot_image option" where
  "set_image_attrs [] i = Some i"
| "set_image_attrs (a # as) i =
     (case set_image_attr a i of None \<Rightarrow> None | Some i' \<Rightarrow> set_image_attrs as i')"

definition save_image :: "instant \<Rightarrow> spot_image \<Rightarrow> spot_image \<Rightarrow> spot_image" where
  "save_image now old new = (if new = old then old else new\<lparr>si_updated_at := Some now\<rparr>)"

definition update_image ::
    "'r redis_client option \<Rightarrow> instant \<Rightarrow> spot_image \<Rightarrow> image_attr list \<Rightarrow> 'r world
       \<Rightarrow> spot_image res \<times> 'r world" where
  "update_image client now img data w =
     (case set_image_attrs data img of
        None \<Rightarrow> raise integrity_error w
      | Some changed \<Rightarrow>
          let saved = save_image now img changed
          in ret saved (invalidate_spot client (si_spot_uid img)
               (w\<lparr>spot_images := update_where (\<lambda>i. si_uid i = si_uid img) (\<lambda>_. saved) (spot_images w)\<rparr>)))"

definition delete_image ::
    "'r redis_client option \<Rightarrow> instant \<Rightarrow> spot_image \<Rightarrow> 'r world \<Rightarrow> 'r world" where
  "delete_image client now img w =
     invalidate_spot client (si_spot_uid img)
       (w\<lparr>spot_images := update_where (\<lambda>i. si_uid i = si_uid img)
             (\<lambda>i. i\<lparr>si_deleted_at := Some now, si_updated_at := Some now\<rparr>) (spot_images w)\<rparr>)"

section \<open>Endpoints\<close>

definition EXT_BY_CONTENT_TYPE :: "(string \<times> string) list" where
  "EXT_BY_CONTENT_TYPE =
     [(''image/jpeg'', ''.jpg''), (''image/png'', ''.png''), (''image/webp'', ''.webp'')]"

definition check_content_type :: "string \<Rightarrow> string res" where
  "check_content_type v =
     (if v \<in> {''image/jpeg'', ''image/png'', ''image/webp''} then Inr v else Inl RequestValidationError)"

definition PENDING_PREFIX :: string where
  "PENDING_PREFIX = ''uploads/pending''"

definition is_alnum :: "char \<Rightarrow> bool" where
  "is_alnum c = (let n = (of_char c :: nat) in
     (48 \<le> n \<and> n \<le> 57) \<or> (65 \<le> n \<and> n \<le> 90) \<or> (97 \<le> n \<and> n \<le> 122))"

definition pending_dir :: "uid \<Rightarrow> string" where
  "pending_dir spot_uid = PENDING_PREFIX @ ''/'' @ spot_uid @ ''/''"

text \<open>
  The full match of \<open>_pending_key_re\<close>: the directory of the spot, then 22 alphanumerics and a
  known extension; the group is what follows the directory.
\<close>

definition match_pending_key :: "uid \<Rightarrow> string \<Rightarrow> string option" where
  "match_pending_key spot_uid key =
     (let dir = pending_dir spot_uid; name = drop (length dir) key
      in if prefix dir key \<and> 22 \<le> length name \<and> list_all is_alnum (take 22 name)
            \<and> drop 22 name \<in> set (map snd EXT_BY_CONTENT_TYPE)
         then Some name else None)"

definition get_spot_or_404 :: "settings \<Rightarrow> uid \<Rightarrow> 'r world \<Rightarrow> unit res" where
  "get_spot_or_404 cfg uid w =
     bindE (get_spot_by_uid cfg uid False w) (\<lambda>found.
       if found = None then Inl (app_error SPOT_NOT_FOUND) else Inr ())"

definition get_image_or_404 :: "uid \<Rightarrow> uid \<Rightarrow> 'r world \<Rightarrow> spot_image res" where
  "get_image_or_404 spot_uid image_uid w =
     bindE (get_image_by_uid spot_uid image_uid w) (\<lambda>found.
       case found of None \<Rightarrow> Inl (app_error SPOT_IMAGE_NOT_FOUND) | Some i \<Rightarrow> Inr i)"

record presign_response =
  pr_upload_url :: string
  pr_s3_key :: string
  pr_expires_in :: nat

record presign_request =
  pq_filename :: string
  pq_content_type :: string
  pq_role :: spot_image_role

definition valid_presign_request :: "presign_request \<Rightarrow> bool" where
  "valid_presign_request p \<longleftrightarrow> 1 \<le> str_len (pq_filename p) \<and> str_len (pq_filename p) \<le> 255
     \<and> check_content_type (pq_content_type p) = Inr (pq_content_type p)"

definition presign_image_upload ::
    "'b s3_client \<Rightarrow> settings \<Rightarrow> uid \<Rightarrow> uid \<Rightarrow> presign_request \<Rightarrow> 'r world \<Rightarrow> presign_response res" where
  "presign_image_upload s3 cfg fresh uid p w =
     (if \<not> valid_presign_request p then Inl RequestValidationError
      else bindE (get_spot_or_404 cfg uid w) (\<lambda>_.
       let ext = (case map_of EXT_BY_CONTENT_TYPE (pq_content_type p) of None \<Rightarrow> '''' | Some e \<Rightarrow> e);
           s3_key = PENDING_PREFIX @ ''/'' @ uid @ ''/'' @ fresh @ ext
       in bindE (generate_presigned_put s3 cfg s3_key (pq_content_type p)) (\<lambda>upload_url.
            Inr \<lparr>pr_upload_url = upload_url, pr_s3_key = s3_key,
                 pr_expires_in = S3_PRESIGN_EXPIRE_SECONDS cfg\<rparr>)))"

record image_out =
  io_uid :: uid
  io_role :: spot_image_role
  io_sort_order :: int
  io_is_public :: bool
  io_url :: string

definition image_out_of :: "'b s3_client \<Rightarrow> settings \<Rightarrow> spot_image \<Rightarrow> image_out res" where
  "image_out_of s3 cfg img =
     bindE (resolve_url s3 cfg (si_s3_key img) (si_is_public img)) (\<lambda>url.
       Inr \<lparr>io_uid = si_uid img, io_role = si_role img, io_sort_order = si_sort_order img,
            io_is_public = si_is_public img, io_url = url\<rparr>)"

record register_request =
  rq_s3_key :: string
  rq_role :: spot_image_role
  rq_sort_order :: int
  rq_is_public :: bool
  rq_content_type :: "string option"
definition valid_register_request :: "register_request \<Rightarrow> bool" where
  "valid_register_request p \<longleftrightarrow> rq_s3_key p \<noteq> []
     \<and> (case rq_content_type p of None \<Rightarrow> True | Some c \<Rightarrow> check_content_type c = Inr c)"

definition final_key :: "uid \<Rightarrow> string \<Rightarrow> string" where
  "final_key uid name = ''spots/'' @ uid @ ''/'' @ name"

text \<open>An object that is too large: \<open>try: delete except ClientError\<close>, then the real cause.\<close>

definition reject_too_large ::
    "'b s3_client \<Rightarrow> settings \<Rightarrow> string \<Rightarrow> 'b \<Rightarrow> exn \<times> 'b" where
  "reject_too_large s3 cfg key b =
     (case delete_object s3 cfg key b of
        (Inl e, b') \<Rightarrow> (if is_client_error e then app_error SPOT_IMAGE_TOO_LARGE else e, b')
      | (Inr _, b') \<Rightarrow> (app_error SPOT_IMAGE_TOO_LARGE, b'))"

text \<open>
  After the copy: insert the row; on any failure undo the copy (a failure of that is only
  logged) and raise the first exception, else delete the pending original.
\<close>

definition insert_registered ::
    "'r redis_client option \<Rightarrow> 'b s3_client \<Rightarrow> settings \<Rightarrow> uid \<Rightarrow> instant \<Rightarrow> uid \<Rightarrow> register_request
       \<Rightarrow> string \<Rightarrow> 'r world \<times> 'b \<Rightarrow> image_out res \<times> ('r world \<times> 'b)" where
  "insert_registered client s3 cfg fresh now uid p key s =
     (case create_image client fresh now uid key (rq_role p) (rq_sort_order p) (rq_is_public p)
             (rq_content_type p) (fst s) of
        (Inl e, w') \<Rightarrow> raise e (w', snd (delete_object s3 cfg key (snd s)))
      | (Inr img, w') \<Rightarrow>
          (case delete_object s3 cfg (rq_s3_key p) (snd s) of
             (Inl e, b') \<Rightarrow> raise e (w', b')
           | (Inr _, b') \<Rightarrow> (image_out_of s3 cfg img, (w', b'))))"

definition register_image ::
    "'r redis_client option \<Rightarrow> 'b s3_client \<Rightarrow> settings \<Rightarrow> uid \<Rightarrow> instant \<Rightarrow> uid \<Rightarrow> register_request
       \<Rightarrow> 'r world \<times> 'b \<Rightarrow> image_out res \<times> ('r world \<times> 'b)" where
  "register_image client s3 cfg fresh now uid p s =
     (if \<not> valid_register_request p then raise RequestValidationError s
      else check (get_spot_or_404 cfg uid (fst s)) s (\<lambda>_.
        case match_pending_key uid (rq_s3_key p) of
          None \<Rightarrow> raise (app_error VALIDATION_ERROR) s
        | Some name \<Rightarrow>
            if count_images_by_spot uid (fst s) \<ge> IMAGE_MAX_COUNT_PER_SPOT cfg
            then raise (app_error SPOT_IMAGE_COUNT_LIMIT_EXCEEDED) s
            else check (head_object s3 cfg (rq_s3_key p) (snd s)) s (\<lambda>found.
              case found of
                None \<Rightarrow> raise (app_error VALIDATION_ERROR) s
              | Some n \<Rightarrow>
                  if n > IMAGE_MAX_BYTES cfg
                  then (case reject_too_large s3 cfg (rq_s3_key p) (snd s) of
                          (e, b') \<Rightarrow> raise e (fst s, b'))
                  else (case copy_object s3 cfg (rq_s3_key p) (final_key uid name) (snd s) of
                          (Inl e, b') \<Rightarrow> raise e (fst s, b')
                        | (Inr _, b') \<Rightarrow>
                            insert_registered client s3 cfg fresh now uid p (final_key uid name)
                              (fst s, b')))))"

definition update_image_endpoint ::
    "'r redis_client option \<Rightarrow> 'b s3_client \<Rightarrow> settings \<Rightarrow> instant \<Rightarrow> uid \<Rightarrow> uid \<Rightarrow> image_attr list
       \<Rightarrow> 'r world \<Rightarrow> image_out res \<times> 'r world" where
  "update_image_endpoint client s3 cfg now uid image_uid data w =
     check (get_image_or_404 uid image_uid w) w (\<lambda>img.
     bindR (update_image client now img data w) (\<lambda>saved w'. (image_out_of s3 cfg saved, w')))"

definition delete_image_endpoint ::
    "'r redis_client option \<Rightarrow> instant \<Rightarrow> uid \<Rightarrow> uid \<Rightarrow> 'r world \<Rightarrow> unit res \<times> 'r world" where
  "delete_image_endpoint client now uid image_uid w =
     check (get_image_or_404 uid image_uid w) w (\<lambda>img. ret () (delete_image client now img w))"

text \<open>The public list of \<open>endpoints/explore.py\<close>: the URLs are made in order; the first failure ends it.\<close>

fun image_outs :: "'b s3_client \<Rightarrow> settings \<Rightarrow> spot_image list \<Rightarrow> image_out list res" where
  "image_outs s3 cfg [] = Inr []"
| "image_outs s3 cfg (i # is) =
     bindE (image_out_of s3 cfg i) (\<lambda>x. bindE (image_outs s3 cfg is) (\<lambda>xs. Inr (x # xs)))"

definition list_spot_images ::
    "'b s3_client \<Rightarrow> settings \<Rightarrow> uid \<Rightarrow> 'r world \<Rightarrow> image_out list res" where
  "list_spot_images s3 cfg uid w =
     bindE (get_spot_by_uid cfg uid True w) (\<lambda>found.
       if found = None then Inl (app_error SPOT_NOT_FOUND)
       else image_outs s3 cfg (list_images_by_spot uid w))"

section \<open>Laws\<close>

text \<open>
  A key that was presigned for a spot is one the registration takes for that spot, and for no
  other.
\<close>

lemma presigned_key_accepted:
  assumes "presign_image_upload s3 cfg fresh uid p w = Inr r"
    and "length fresh = 22" "list_all is_alnum fresh"
  shows "match_pending_key uid (pr_s3_key r) = Some (drop (length (pending_dir uid)) (pr_s3_key r))"
    and "match_pending_key uid' (pr_s3_key r) \<noteq> None \<Longrightarrow> CHR ''/'' \<notin> set uid \<Longrightarrow> CHR ''/'' \<notin> set uid' \<Longrightarrow>
      uid' = uid"
proof -
  have valid: "valid_presign_request p"
    using assms(1) by (simp add: presign_image_upload_def split: if_splits)
  then have "pq_content_type p \<in> {''image/jpeg'', ''image/png'', ''image/webp''}"
    by (cases "pq_content_type p \<in> {''image/jpeg'', ''image/png'', ''image/webp''}")
       (simp_all only: valid_presign_request_def check_content_type_def if_True if_False sum.distinct simp_thms)
  then have "map_of EXT_BY_CONTENT_TYPE (pq_content_type p) \<noteq> None"
    by (auto simp: EXT_BY_CONTENT_TYPE_def)
  then obtain ext where ext: "map_of EXT_BY_CONTENT_TYPE (pq_content_type p) = Some ext" by blast
  then have known: "ext \<in> set (map snd EXT_BY_CONTENT_TYPE)" by (force dest: map_of_SomeD)
  have key: "pr_s3_key r = pending_dir uid @ fresh @ ext"
    using assms(1) valid
    by (auto simp: presign_image_upload_def pending_dir_def bindE_Inr_iff ext Let_def)
  show "match_pending_key uid (pr_s3_key r) = Some (drop (length (pending_dir uid)) (pr_s3_key r))"
    using assms(2,3) known by (simp add: match_pending_key_def key Let_def)
  assume other: "match_pending_key uid' (pr_s3_key r) \<noteq> None" and slash: "CHR ''/'' \<notin> set uid" "CHR ''/'' \<notin> set uid'"
  from other obtain rest where "pr_s3_key r = pending_dir uid' @ rest"
    by (auto simp: match_pending_key_def Let_def prefix_def split: if_splits)
  then have "uid' @ CHR ''/'' # rest = uid @ CHR ''/'' # (fresh @ ext)"
    using key by (simp add: pending_dir_def)
  then show "uid' = uid" using append_sep_inject [OF slash(2,1)] by simp
qed

text \<open>The table of images: its key, and no spot above the limit.\<close>

definition images_ok :: "settings \<Rightarrow> 'r world \<Rightarrow> bool" where
  "images_ok cfg w \<longleftrightarrow> unique_key si_uid (spot_images w)
     \<and> (\<forall>i \<in> set (spot_images w). count_images_by_spot (si_spot_uid i) w \<le> IMAGE_MAX_COUNT_PER_SPOT cfg)"

lemma spot_images_invalidate [simp]: "spot_images (invalidate_spot client uid w) = spot_images w"
proof -
  have detail: "spot_images (invalidate_detail client uid w) = spot_images w" for uid and w :: "'a world"
    by (simp add: invalidate_detail_def)
  show ?thesis by (simp add: invalidate_spot_def detail bump_spots_def)
qed

lemma create_image_rows:
  "snd (create_image client fresh now uid key role so pub ct w) = w
     \<and> (\<exists>e. fst (create_image client fresh now uid key role so pub ct w) = Inl e)
   \<or> (\<exists>img. fst (create_image client fresh now uid key role so pub ct w) = Inr img
      \<and> si_spot_uid img = uid \<and> si_s3_key img = key \<and> si_deleted_at img = None
      \<and> si_uid img = fresh \<and> fresh \<notin> si_uid ` set (spot_images w)
      \<and> spot_images (snd (create_image client fresh now uid key role so pub ct w))
          = spot_images w @ [img])"
  by (auto simp: create_image_def Let_def insert_row_def)

text \<open>
  Everything a registration may do to the table: nothing, or one new row for a checked object
  while the spot is below its limit.
\<close>

lemma register_image_rows:
  fixes client s3 cfg fresh now uid p and s :: "'r world \<times> 'b"
  defines "res \<equiv> register_image client s3 cfg fresh now uid p s"
  shows "spot_images (fst (snd res)) = spot_images (fst s)
     \<and> (\<forall>out. fst res \<noteq> Inr out)
   \<or> (\<exists>img name n. spot_images (fst (snd res)) = spot_images (fst s) @ [img]
        \<and> si_spot_uid img = uid \<and> si_s3_key img = final_key uid name \<and> si_deleted_at img = None
        \<and> si_uid img \<notin> si_uid ` set (spot_images (fst s))
        \<and> match_pending_key uid (rq_s3_key p) = Some name
        \<and> head_object s3 cfg (rq_s3_key p) (snd s) = Inr (Some n) \<and> n \<le> IMAGE_MAX_BYTES cfg
        \<and> count_images_by_spot uid (fst s) < IMAGE_MAX_COUNT_PER_SPOT cfg)"
proof (cases "\<exists>name n b'. valid_register_request p \<and> get_spot_or_404 cfg uid (fst s) = Inr ()
    \<and> match_pending_key uid (rq_s3_key p) = Some name
    \<and> count_images_by_spot uid (fst s) < IMAGE_MAX_COUNT_PER_SPOT cfg
    \<and> head_object s3 cfg (rq_s3_key p) (snd s) = Inr (Some n) \<and> n \<le> IMAGE_MAX_BYTES cfg
    \<and> copy_object s3 cfg (rq_s3_key p) (final_key uid name) (snd s) = (Inr (), b')")
  case True
  then obtain name n b' where ok: "valid_register_request p" "get_spot_or_404 cfg uid (fst s) = Inr ()"
      "match_pending_key uid (rq_s3_key p) = Some name"
      "count_images_by_spot uid (fst s) < IMAGE_MAX_COUNT_PER_SPOT cfg"
      "head_object s3 cfg (rq_s3_key p) (snd s) = Inr (Some n)" "n \<le> IMAGE_MAX_BYTES cfg"
      "copy_object s3 cfg (rq_s3_key p) (final_key uid name) (snd s) = (Inr (), b')" by blast
  then have res: "res = insert_registered client s3 cfg fresh now uid p (final_key uid name) (fst s, b')"
    by (simp add: res_def register_image_def not_le)
  from create_image_rows [of client fresh now uid "final_key uid name" "rq_role p" "rq_sort_order p"
      "rq_is_public p" "rq_content_type p" "fst s"] ok show ?thesis
    unfolding res insert_registered_def
    by (auto split: prod.split sum.split)
next
  case False
  then show ?thesis
    by (auto simp: res_def register_image_def check_def raise_def not_le split: sum.split option.split prod.split)
qed

lemma count_images_snoc:
  "spot_images w' = spot_images w @ [i] \<Longrightarrow> count_images_by_spot u w' =
     count_images_by_spot u w + (if si_spot_uid i = u \<and> si_deleted_at i = None then 1 else 0)"
  by (simp add: count_images_by_spot_def)

section \<open>Properties\<close>

text \<open>
  The documented behaviour of a bucket that is reachable: \<open>objects\<close> are its keys and their
  sizes.
\<close>

definition s3_ok :: "'b s3_client \<Rightarrow> ('b \<Rightarrow> string \<Rightarrow> nat option) \<Rightarrow> bool" where
  "s3_ok s3 objects \<longleftrightarrow>
     (\<forall>bucket key b. s3_head s3 bucket key b =
        (case objects b key of None \<Rightarrow> Inl (PyError ''ClientError'' ''404'') | Some n \<Rightarrow> Inr n))
   \<and> (\<forall>bucket key b. fst (s3_delete s3 bucket key b) = Inr ()
        \<and> objects (snd (s3_delete s3 bucket key b)) = (objects b)(key := None))
   \<and> (\<forall>bucket src dest b. objects b src \<noteq> None \<longrightarrow> fst (s3_copy s3 bucket src dest b) = Inr ()
        \<and> objects (snd (s3_copy s3 bucket src dest b)) = (objects b)(dest := objects b src))"

definition map_s3 :: "(string \<Rightarrow> nat option) s3_client" where
  "map_s3 =
     \<lparr>s3_presign_put = (\<lambda>bucket key ct e. key), s3_presign_get = (\<lambda>bucket key f e. key),
      s3_head = (\<lambda>bucket key b. case b key of None \<Rightarrow> Inl (PyError ''ClientError'' ''404'') | Some n \<Rightarrow> Inr n),
      s3_delete = (\<lambda>bucket key b. (Inr (), b(key := None))),
      s3_copy = (\<lambda>bucket src dest b. (Inr (), b(dest := b src))),
      s3_upload = (\<lambda>bucket key path b. (Inr (), b(key \<mapsto> 0)))\<rparr>"

lemma map_s3_ok: "s3_ok map_s3 (\<lambda>b. b)"
  by (simp add: s3_ok_def map_s3_def)

lemma delete_object_ok:
  assumes "s3_ok s3 objects" and "truthy (S3_BUCKET cfg)"
  shows "fst (delete_object s3 cfg key b) = Inr ()"
    and "objects (snd (delete_object s3 cfg key b)) = (objects b)(key := None)"
  using assms by (simp_all add: delete_object_def s3_bucket_def s3_ok_def)

lemma copy_object_ok:
  assumes "s3_ok s3 objects" and "truthy (S3_BUCKET cfg)" and "objects b src \<noteq> None"
  shows "fst (copy_object s3 cfg src dest b) = Inr ()"
    and "objects (snd (copy_object s3 cfg src dest b)) = (objects b)(dest := objects b src)"
  using assms by (simp_all add: copy_object_def s3_bucket_def s3_ok_def)

lemma head_object_ok:
  assumes "s3_ok s3 objects" and "truthy (S3_BUCKET cfg)"
  shows "head_object s3 cfg key b = Inr (objects b key)"
  using assms by (simp add: head_object_def s3_bucket_def s3_ok_def is_client_error_def exn_text_def
      not_found_codes_def split: option.split)

text \<open>
  C27: Registration is guarded.  Whatever the storage answers, \<open>register_image\<close> either leaves
  the table of images alone and raises, or adds exactly one row: for a key this spot was issued,
  for an object the storage reported to exist within the size limit, stored under the spot's
  own directory, and only while the spot had fewer images than the limit; so no spot ever
  exceeds the limit.
\<close>

theorem register_image_guarded:
  fixes client s3 fresh now uid p and s :: "'r world \<times> 'b"
  assumes "images_ok cfg (fst s)"
  shows "images_ok cfg (fst (snd (register_image client s3 cfg fresh now uid p s)))
   \<and> (spot_images (fst (snd (register_image client s3 cfg fresh now uid p s))) = spot_images (fst s)
        \<and> (\<exists>e. fst (register_image client s3 cfg fresh now uid p s) = Inl e)
     \<or> (\<exists>i name n. spot_images (fst (snd (register_image client s3 cfg fresh now uid p s)))
            = spot_images (fst s) @ [i]
          \<and> si_spot_uid i = uid \<and> si_s3_key i = final_key uid name
          \<and> match_pending_key uid (rq_s3_key p) = Some name
          \<and> head_object s3 cfg (rq_s3_key p) (snd s) = Inr (Some n) \<and> n \<le> IMAGE_MAX_BYTES cfg
          \<and> count_images_by_spot uid (fst s) < IMAGE_MAX_COUNT_PER_SPOT cfg))"
proof -
  let ?w' = "fst (snd (register_image client s3 cfg fresh now uid p s))"
  from register_image_rows [of client s3 cfg fresh now uid p s] show ?thesis
  proof (elim disjE exE conjE)
    assume rows: "spot_images ?w' = spot_images (fst s)"
      and "\<forall>out. fst (register_image client s3 cfg fresh now uid p s) \<noteq> Inr out"
    then have "\<exists>e. fst (register_image client s3 cfg fresh now uid p s) = Inl e"
      by (cases "fst (register_image client s3 cfg fresh now uid p s)") auto
    with rows assms show ?thesis by (simp add: images_ok_def count_images_by_spot_def)
  next
    fix i name n
    assume new: "spot_images ?w' = spot_images (fst s) @ [i]"
        "si_uid i \<notin> si_uid ` set (spot_images (fst s))" "si_spot_uid i = uid"
        "count_images_by_spot uid (fst s) < IMAGE_MAX_COUNT_PER_SPOT cfg"
      and rest: "si_s3_key i = final_key uid name" "match_pending_key uid (rq_s3_key p) = Some name"
        "head_object s3 cfg (rq_s3_key p) (snd s) = Inr (Some n)" "n \<le> IMAGE_MAX_BYTES cfg"
    have "count_images_by_spot (si_spot_uid x) ?w' \<le> IMAGE_MAX_COUNT_PER_SPOT cfg"
      if "x \<in> set (spot_images ?w')" for x
      using that new assms by (auto simp: count_images_snoc [OF new(1)] images_ok_def)
    then have "images_ok cfg ?w'"
      using new(1,2) assms by (auto simp: images_ok_def unique_key_snoc)
    with new rest show ?thesis by blast
  qed
qed

definition pending_sample :: string where
  "pending_sample = ''uploads/pending/a/0123456789012345678901.png''"

definition sample_register :: register_request where
  "sample_register = \<lparr>rq_s3_key = pending_sample, rq_role = DETAIL, rq_sort_order = 0,
                      rq_is_public = False, rq_content_type = None\<rparr>"

lemma register_image_guarded_witness:
  "images_ok sample_settings (fst (snd (register_image None map_s3 sample_settings ''i'' 0 ''a''
     sample_register (empty_world (), \<lambda>_. None))))"
proof -
  have "images_ok sample_settings (fst (empty_world (), \<lambda>_. None :: nat option))"
    by (simp add: images_ok_def empty_world_def unique_key_def)
  then show ?thesis using register_image_guarded by blast
qed

text \<open>
  C28: Registration moves the object and never leaves an orphan.  With a working bucket, every
  object in it afterwards was there before or is the object of a stored image; when a row was
  stored, the object is at its final key with its size and the pending original is gone.
\<close>

theorem register_image_no_orphan:
  fixes client s3 fresh now uid p and s :: "'r world \<times> 'b"
  assumes "s3_ok s3 objects" and "truthy (S3_BUCKET cfg)"
    and "register_image client s3 cfg fresh now uid p s = (r, s')"
  shows "(\<forall>k. objects (snd s') k \<noteq> None \<longrightarrow> objects (snd s) k \<noteq> None
            \<or> (\<exists>i \<in> set (spot_images (fst s')). si_s3_key i = k))
     \<and> (spot_images (fst s') \<noteq> spot_images (fst s) \<longrightarrow>
          (\<exists>name. match_pending_key uid (rq_s3_key p) = Some name
             \<and> objects (snd s') = (objects (snd s))
                 (final_key uid name := objects (snd s) (rq_s3_key p), rq_s3_key p := None)))"
proof (cases "valid_register_request p \<and> get_spot_or_404 cfg uid (fst s) = Inr ()
    \<and> count_images_by_spot uid (fst s) < IMAGE_MAX_COUNT_PER_SPOT cfg
    \<and> match_pending_key uid (rq_s3_key p) \<noteq> None \<and> objects (snd s) (rq_s3_key p) \<noteq> None")
  case False
  then have "s' = s"
    using assms(3)
    by (auto simp: register_image_def head_object_ok [OF assms(1,2)] check_def not_le
        split: if_splits option.splits sum.splits)
  then show ?thesis by simp
next
  case True
  then obtain name n where ok: "match_pending_key uid (rq_s3_key p) = Some name"
      "objects (snd s) (rq_s3_key p) = Some n" by blast
  note s3 = delete_object_ok [OF assms(1,2)]
  show ?thesis
  proof (cases "n > IMAGE_MAX_BYTES cfg")
    case too_large: True
    have "s' = (fst s, snd (delete_object s3 cfg (rq_s3_key p) (snd s)))"
      using assms(3) True ok too_large
      by (auto simp: register_image_def head_object_ok [OF assms(1,2)] not_le reject_too_large_def
          split: prod.splits sum.splits)
    then show ?thesis by (simp add: s3)
  next
    case False
    obtain b' where copied: "copy_object s3 cfg (rq_s3_key p) (final_key uid name) (snd s) = (Inr (), b')"
        "objects b' = (objects (snd s))(final_key uid name := Some n)"
      using copy_object_ok [OF assms(1,2), of "snd s" "rq_s3_key p" "final_key uid name"] ok(2)
      by (cases "copy_object s3 cfg (rq_s3_key p) (final_key uid name) (snd s)") auto
    have run: "insert_registered client s3 cfg fresh now uid p (final_key uid name) (fst s, b') = (r, s')"
      using assms(3) True ok False copied(1)
      by (simp add: register_image_def head_object_ok [OF assms(1,2)] not_le)
    from create_image_rows [of client fresh now uid "final_key uid name" "rq_role p" "rq_sort_order p"
        "rq_is_public p" "rq_content_type p" "fst s"]
    show ?thesis
    proof (elim disjE exE conjE)
      fix e
      assume "snd (create_image client fresh now uid (final_key uid name) (rq_role p) (rq_sort_order p)
          (rq_is_public p) (rq_content_type p) (fst s)) = fst s"
        and "fst (create_image client fresh now uid (final_key uid name) (rq_role p) (rq_sort_order p)
          (rq_is_public p) (rq_content_type p) (fst s)) = Inl e"
      then have "s' = (fst s, snd (delete_object s3 cfg (final_key uid name) b'))"
        using run by (auto simp: insert_registered_def split: prod.splits)
      then show ?thesis by (simp add: s3 copied(2))
    next
      fix i
      assume new: "fst (create_image client fresh now uid (final_key uid name) (rq_role p) (rq_sort_order p)
          (rq_is_public p) (rq_content_type p) (fst s)) = Inr i"
        and key: "si_s3_key i = final_key uid name"
        and rows: "spot_images (snd (create_image client fresh now uid (final_key uid name) (rq_role p)
          (rq_sort_order p) (rq_is_public p) (rq_content_type p) (fst s))) = spot_images (fst s) @ [i]"
      have "snd s' = snd (delete_object s3 cfg (rq_s3_key p) b')"
          "spot_images (fst s') = spot_images (fst s) @ [i]"
        using run new rows s3(1) [of "rq_s3_key p" b']
        by (auto simp: insert_registered_def split: prod.splits sum.splits)
      then show ?thesis using ok by (simp add: s3 copied(2) key)
    qed
  qed
qed

lemma register_image_no_orphan_witness:
  "\<exists>r s'. register_image None map_s3 (sample_settings\<lparr>S3_BUCKET := Some ''b''\<rparr>) ''i'' 0 ''a''
       sample_register (three_spots, [pending_sample \<mapsto> 7]) = (r, s')
     \<and> (\<forall>k. snd s' k \<noteq> None \<longrightarrow> k = pending_sample \<or> (\<exists>i \<in> set (spot_images (fst s')). si_s3_key i = k))"
proof -
  let ?cfg = "sample_settings\<lparr>S3_BUCKET := Some ''b''\<rparr>"
  obtain r s' where run: "register_image None map_s3 ?cfg ''i'' 0 ''a'' sample_register
      (three_spots, [pending_sample \<mapsto> 7]) = (r, s')"
    by (cases "register_image None map_s3 ?cfg ''i'' 0 ''a'' sample_register
      (three_spots, [pending_sample \<mapsto> 7])")
  have "truthy (S3_BUCKET ?cfg)" by (simp add: truthy_def)
  from register_image_no_orphan [OF map_s3_ok this run] run show ?thesis
    by (auto split: if_splits)
qed

end
