(* ===== verification/Spot_Groups.thy ===== *)
theory Spot_Groups
  imports Images
begin

text \<open>
  Groups of spots: \<open>crud/spot_group.py\<close>, the dependencies and endpoints of
  \<open>endpoints/spot_groups.py\<close> and those of \<open>endpoints/internal_spot_groups.py\<close>.

  An endpoint gets its caller as the result of the authentication (\<open>caller :: user res\<close>), and
  uses it where FastAPI resolves that dependency: after the group for the role gates, first
  elsewhere.  A request runs alone: what two concurrent requests may do between a check and a
  commit is outside this theory.
\<close>

section \<open>Roles\<close>

definition GROUP_ROLE_RANK :: "group_role \<Rightarrow> nat" where
  "GROUP_ROLE_RANK r = (case r of VIEWER \<Rightarrow> 1 | CONTRIBUTOR \<Rightarrow> 2 | EDITOR \<Rightarrow> 3 | OWNER \<Rightarrow> 4)"

interpretation group_ladder: role_ladder GROUP_ROLE_RANK
  by unfold_locales (auto simp: GROUP_ROLE_RANK_def split: group_role.splits)

instantiation group_role :: linorder
begin

definition less_eq_group_role :: "group_role \<Rightarrow> group_role \<Rightarrow> bool" where
  "less_eq_group_role a b \<longleftrightarrow> GROUP_ROLE_RANK a \<le> GROUP_ROLE_RANK b"

definition less_group_role :: "group_role \<Rightarrow> group_role \<Rightarrow> bool" where
  "less_group_role a b \<longleftrightarrow> GROUP_ROLE_RANK a < GROUP_ROLE_RANK b"

instance
  by standard (auto simp: less_eq_group_role_def less_group_role_def intro: group_ladder.rank_inj)

end

lemma OWNER_top [simp]: "OWNER \<le> r \<longleftrightarrow> r = OWNER"
  by (cases r) (auto simp: less_eq_group_role_def GROUP_ROLE_RANK_def)

section \<open>Statements\<close>

definition create_group ::
    "uid \<Rightarrow> instant \<Rightarrow> uid \<Rightarrow> string \<Rightarrow> string option \<Rightarrow> group_visibility \<Rightarrow> 'r world
       \<Rightarrow> spot_group res \<times> 'r world" where
  "create_group fresh now owner_uid name description visibility w =
     (let g = \<lparr>g_uid = fresh, g_name = name, g_description = description,
               g_visibility = visibility, g_created_at = Some now, g_updated_at = Some now\<rparr>;
          m = \<lparr>gm_group_uid = fresh, gm_user_uid = owner_uid, gm_role = OWNER,
               gm_invited_by_uid = None, gm_created_at = Some now\<rparr>
      in case (insert_row g_uid g (spot_groups w), insert_row member_key m (group_members w)) of
           (Some gs, Some ms) \<Rightarrow> ret g (w\<lparr>spot_groups := gs, group_members := ms\<rparr>)
         | _ \<Rightarrow> raise integrity_error w)"

definition get_group_by_uid :: "uid \<Rightarrow> 'r world \<Rightarrow> spot_group option res" where
  "get_group_by_uid uid w =
     scalar_one_or_none multiple_results (filter (\<lambda>g. g_uid g = uid) (spot_groups w))"

definition get_membership :: "uid \<Rightarrow> uid \<Rightarrow> 'r world \<Rightarrow> group_member option res" where
  "get_membership group_uid user_uid w =
     scalar_one_or_none multiple_results
       (filter (\<lambda>m. gm_group_uid m = group_uid \<and> gm_user_uid m = user_uid) (group_members w))"

text \<open>The join of the items of a group with their spots.\<close>

definition group_spot_rows :: "uid \<Rightarrow> 'r world \<Rightarrow> (spot \<times> group_spot) list" where
  "group_spot_rows group_uid w =
     [(s, x). x \<leftarrow> group_spots w, s \<leftarrow> spots w,
        s_uid s = gs_spot_uid x \<and> gs_group_uid x = group_uid \<and> s_deleted_at s = None]"

definition count_group_spots :: "uid \<Rightarrow> 'r world \<Rightarrow> nat" where
  "count_group_spots group_uid w = length (group_spot_rows group_uid w)"

definition list_groups_for_user ::
    "uid \<Rightarrow> nat \<Rightarrow> nat \<Rightarrow> 'r world \<Rightarrow> (spot_group \<times> group_role \<times> nat) list" where
  "list_groups_for_user user_uid offset limit w =
     offset_limit offset limit
       (newest_first (\<lambda>(g, r, n). g_updated_at g)
         [(g, gm_role m, count_where (\<lambda>x. gs_group_uid x = g_uid g) (group_spots w)).
            g \<leftarrow> spot_groups w, m \<leftarrow> group_members w,
            gm_group_uid m = g_uid g \<and> gm_user_uid m = user_uid])"

datatype group_attr =
    Set_group_name "string option"
  | Set_group_description "string option"
  | Set_group_visibility "group_visibility option"

fun set_group_attr :: "group_attr \<Rightarrow> spot_group \<Rightarrow> spot_group option" where
  "set_group_attr (Set_group_name v) g = map_option (\<lambda>x. g\<lparr>g_name := x\<rparr>) v"
| "set_group_attr (Set_group_description v) g = Some (g\<lparr>g_description := v\<rparr>)"
| "set_group_attr (Set_group_visibility v) g = map_option (\<lambda>x. g\<lparr>g_visibility := x\<rparr>) v"

fun set_group_attrs :: "group_attr list \<Rightarrow> spot_group \<Rightarrow> spot_group option" where
  "set_group_attrs [] g = Some g"
| "set_group_attrs (a # as) g =
     (case set_group_attr a g of None \<Rightarrow> None | Some g' \<Rightarrow> set_group_attrs as g')"

definition update_group ::
    "instant \<Rightarrow> spot_group \<Rightarrow> group_attr list \<Rightarrow> 'r world \<Rightarrow> spot_group res \<times> 'r world" where
  "update_group now g data w =
     (case set_group_attrs data g of
        None \<Rightarrow> raise integrity_error w
      | Some changed \<Rightarrow>
          let saved = (if changed = g then g else changed\<lparr>g_updated_at := Some now\<rparr>)
          in ret saved
               (w\<lparr>spot_groups := update_where (\<lambda>x. g_uid x = g_uid g) (\<lambda>_. saved) (spot_groups w)\<rparr>))"

text \<open>The foreign keys to a group cascade: members, items and invites go with it.\<close>

definition delete_group :: "spot_group \<Rightarrow> 'r world \<Rightarrow> 'r world" where
  "delete_group g w =
     w\<lparr>spot_groups := delete_where (\<lambda>x. g_uid x = g_uid g) (spot_groups w),
       group_members := delete_where (\<lambda>m. gm_group_uid m = g_uid g) (group_members w),
       group_spots := delete_where (\<lambda>x. gs_group_uid x = g_uid g) (group_spots w),
       invites := delete_where (\<lambda>i. iv_group_uid i = Some (g_uid g)) (invites w)\<rparr>"

definition add_member ::
    "instant \<Rightarrow> uid \<Rightarrow> uid \<Rightarrow> group_role \<Rightarrow> uid \<Rightarrow> 'r world \<Rightarrow> group_member res \<times> 'r world" where
  "add_member now group_uid user_uid role invited_by_uid w =
     check (get_membership group_uid user_uid w) w (\<lambda>existing.
       if existing \<noteq> None then raise (app_error SPOT_GROUP_MEMBER_ALREADY_EXISTS) w
       else let m = \<lparr>gm_group_uid = group_uid, gm_user_uid = user_uid, gm_role = role,
                     gm_invited_by_uid = Some invited_by_uid, gm_created_at = Some now\<rparr>
            in case insert_row member_key m (group_members w) of
                 None \<Rightarrow> raise integrity_error w
               | Some ms \<Rightarrow> ret m (w\<lparr>group_members := ms\<rparr>))"

definition list_members :: "uid \<Rightarrow> 'r world \<Rightarrow> group_member list" where
  "list_members group_uid w =
     oldest_first gm_created_at (filter (\<lambda>m. gm_group_uid m = group_uid) (group_members w))"

definition count_owners :: "uid \<Rightarrow> 'r world \<Rightarrow> nat" where
  "count_owners group_uid w =
     count_where (\<lambda>m. gm_group_uid m = group_uid \<and> gm_role m = OWNER) (group_members w)"

definition update_member_role ::
    "group_member \<Rightarrow> group_role \<Rightarrow> 'r world \<Rightarrow> group_member res \<times> 'r world" where
  "update_member_role m role w =
     (if gm_role m = OWNER \<and> role \<noteq> OWNER \<and> count_owners (gm_group_uid m) w \<le> 1
      then raise (app_error SPOT_GROUP_LAST_OWNER_REQUIRED) w
      else ret (m\<lparr>gm_role := role\<rparr>)
             (w\<lparr>group_members := update_where (\<lambda>x. member_key x = member_key m)
                  (\<lambda>x. x\<lparr>gm_role := role\<rparr>) (group_members w)\<rparr>))"

definition remove_member :: "group_member \<Rightarrow> 'r world \<Rightarrow> unit res \<times> 'r world" where
  "remove_member m w =
     (if gm_role m = OWNER \<and> count_owners (gm_group_uid m) w \<le> 1
      then raise (app_error SPOT_GROUP_LAST_OWNER_REQUIRED) w
      else ret () (w\<lparr>group_members := delete_where (\<lambda>x. member_key x = member_key m) (group_members w)\<rparr>))"

definition get_group_spot :: "uid \<Rightarrow> uid \<Rightarrow> 'r world \<Rightarrow> group_spot option res" where
  "get_group_spot group_uid spot_uid w =
     scalar_one_or_none multiple_results
       (filter (\<lambda>x. gs_group_uid x = group_uid \<and> gs_spot_uid x = spot_uid) (group_spots w))"

definition add_spot ::
    "instant \<Rightarrow> uid \<Rightarrow> uid \<Rightarrow> uid \<Rightarrow> 'r world \<Rightarrow> group_spot res \<times> 'r world" where
  "add_spot now group_uid spot_uid added_by_uid w =
     check (get_group_spot group_uid spot_uid w) w (\<lambda>existing.
       if existing \<noteq> None then raise (app_error SPOT_GROUP_SPOT_ALREADY_EXISTS) w
       else let x = \<lparr>gs_group_uid = group_uid, gs_spot_uid = spot_uid,
                     gs_added_by_uid = added_by_uid, gs_created_at = Some now\<rparr>
            in case insert_row group_spot_key x (group_spots w) of
                 None \<Rightarrow> raise integrity_error w
               | Some xs \<Rightarrow> ret x (w\<lparr>group_spots := xs\<rparr>))"

definition remove_spot :: "uid \<Rightarrow> uid \<Rightarrow> 'r world \<Rightarrow> bool res \<times> 'r world" where
  "remove_spot group_uid spot_uid w =
     check (get_group_spot group_uid spot_uid w) w (\<lambda>item.
       if item = None then ret False w
       else ret True (w\<lparr>group_spots := delete_where
              (\<lambda>x. gs_group_uid x = group_uid \<and> gs_spot_uid x = spot_uid) (group_spots w)\<rparr>))"

definition list_group_spots :: "uid \<Rightarrow> nat \<Rightarrow> nat \<Rightarrow> 'r world \<Rightarrow> (spot \<times> group_spot) list" where
  "list_group_spots group_uid offset limit w =
     offset_limit offset limit (newest_first (\<lambda>(s, x). gs_created_at x) (group_spot_rows group_uid w))"

section \<open>Statements of the admin console\<close>

definition count_group_members :: "uid \<Rightarrow> 'r world \<Rightarrow> nat" where
  "count_group_members group_uid w = count_where (\<lambda>m. gm_group_uid m = group_uid) (group_members w)"

definition list_members_admin :: "uid \<Rightarrow> 'r world \<Rightarrow> (group_member \<times> user) list" where
  "list_members_admin group_uid w =
     oldest_first (\<lambda>(m, u). gm_created_at m)
       [(m, u). m \<leftarrow> group_members w, u \<leftarrow> users w,
          u_uid u = gm_user_uid m \<and> gm_group_uid m = group_uid]"

definition list_groups_for_spot :: "uid \<Rightarrow> 'r world \<Rightarrow> (spot_group \<times> instant option) list" where
  "list_groups_for_spot spot_uid w =
     newest_first snd
       [(g, gs_created_at x). g \<leftarrow> spot_groups w, x \<leftarrow> group_spots w,
          gs_group_uid x = g_uid g \<and> gs_spot_uid x = spot_uid]"

definition visibility_value :: "group_visibility \<Rightarrow> string" where
  "visibility_value v = (case v of PRIVATE \<Rightarrow> ''private'' | INVITE_ONLY \<Rightarrow> ''invite_only''
     | PUBLIC \<Rightarrow> ''public'')"

definition visibility_rank :: "group_visibility \<Rightarrow> rat" where
  "visibility_rank v = (case v of PRIVATE \<Rightarrow> 0 | INVITE_ONLY \<Rightarrow> 1 | PUBLIC \<Rightarrow> 2)"

definition group_column :: "string \<Rightarrow> (spot_group \<Rightarrow> sort_value) option" where
  "group_column field = map_of
     [(''uid'', \<lambda>g. sort_text (Some (g_uid g))),
      (''name'', \<lambda>g. sort_text (Some (g_name g))),
      (''visibility'', \<lambda>g. sort_number (Some (visibility_rank (g_visibility g)))),
      (''created_at'', \<lambda>g. sort_number (map_option of_int (g_created_at g))),
      (''updated_at'', \<lambda>g. sort_number (map_option of_int (g_updated_at g)))] field"

definition group_joined :: "string option \<Rightarrow> 'r world \<Rightarrow> spot_group list" where
  "group_joined user_uid w =
     (if truthy user_uid
      then [g. g \<leftarrow> spot_groups w, m \<leftarrow> group_members w,
               gm_group_uid m = g_uid g \<and> gm_user_uid m = the user_uid]
      else spot_groups w)"

text \<open>A text that is no value of the enum fails in the database.\<close>

definition list_groups_admin ::
    "nat \<Rightarrow> nat \<Rightarrow> string \<Rightarrow> string \<Rightarrow> string option \<Rightarrow> string option \<Rightarrow> string option \<Rightarrow> 'r world
       \<Rightarrow> ((spot_group \<times> nat \<times> nat) list \<times> nat) res" where
  "list_groups_admin offset limit sort_field direction name_like visibility user_uid w =
     (if truthy visibility \<and> the visibility \<notin> visibility_value ` {PRIVATE, INVITE_ONLY, PUBLIC}
      then Inl (PyError ''DBAPIError'' '''')
      else
        let found = filter (\<lambda>g. (truthy name_like \<longrightarrow> icontains (g_name g) (the name_like))
                        \<and> (truthy visibility \<longrightarrow> visibility_value (g_visibility g) = the visibility))
                      (group_joined user_uid w);
            column = (case group_column sort_field of
                        None \<Rightarrow> (\<lambda>g. sort_text (Some (g_uid g))) | Some c \<Rightarrow> c)
        in Inr (map (\<lambda>g. (g, count_group_members (g_uid g) w,
                          count_where (\<lambda>x. gs_group_uid x = g_uid g) (group_spots w)))
                  (offset_limit offset limit (order_rows column direction found)),
                length found))"
section \<open>Dependencies of the endpoints\<close>

definition get_group_or_404 :: "uid \<Rightarrow> 'r world \<Rightarrow> spot_group res" where
  "get_group_or_404 group_uid w =
     bindE (get_group_by_uid group_uid w) (\<lambda>found.
       case found of None \<Rightarrow> Inl (app_error SPOT_GROUP_NOT_FOUND) | Some g \<Rightarrow> Inr g)"

definition my_membership :: "uid \<Rightarrow> user option \<Rightarrow> 'r world \<Rightarrow> group_member option res" where
  "my_membership group_uid u w =
     (case u of None \<Rightarrow> Inr None | Some u \<Rightarrow> get_membership group_uid (u_uid u) w)"

definition get_readable_group ::
    "user option res \<Rightarrow> uid \<Rightarrow> 'r world \<Rightarrow> spot_group res" where
  "get_readable_group visitor group_uid w =
     bindE (get_group_or_404 group_uid w) (\<lambda>g.
     bindE visitor (\<lambda>u.
       if g_visibility g \<noteq> PUBLIC
       then bindE (my_membership (g_uid g) u w) (\<lambda>m.
              if m = None then Inl (app_error SPOT_GROUP_NOT_FOUND) else Inr g)
       else Inr g))"

definition get_membership_or_404 ::
    "user res \<Rightarrow> uid \<Rightarrow> 'r world \<Rightarrow> (spot_group \<times> group_member) res" where
  "get_membership_or_404 caller group_uid w =
     bindE (get_group_or_404 group_uid w) (\<lambda>g.
     bindE caller (\<lambda>u.
     bindE (get_membership (g_uid g) (u_uid u) w) (\<lambda>m.
       case m of None \<Rightarrow> Inl (app_error SPOT_GROUP_NOT_FOUND) | Some m \<Rightarrow> Inr (g, m))))"

definition require_group_role ::
    "group_role \<Rightarrow> user res \<Rightarrow> uid \<Rightarrow> 'r world \<Rightarrow> (spot_group \<times> group_member) res" where
  "require_group_role min_role caller group_uid w =
     bindE (get_membership_or_404 caller group_uid w) (\<lambda>(g, m).
       if GROUP_ROLE_RANK (gm_role m) < GROUP_ROLE_RANK min_role
       then Inl (app_error FORBIDDEN) else Inr (g, m))"

section \<open>Requests and responses\<close>

text \<open>The bounds pydantic checks on a name; the length is in code points.\<close>

definition valid_group_name :: "string \<Rightarrow> bool" where
  "valid_group_name n \<longleftrightarrow> 1 \<le> str_len n \<and> str_len n \<le> 100"

definition valid_group_attr :: "group_attr \<Rightarrow> bool" where
  "valid_group_attr a = (case a of Set_group_name (Some n) \<Rightarrow> valid_group_name n | _ \<Rightarrow> True)"

record group_detail =
  gd_uid :: uid
  gd_name :: string
  gd_description :: "string option"
  gd_visibility :: group_visibility
  gd_spot_count :: nat
  gd_my_role :: "group_role option"
  gd_created_at :: "instant option"
  gd_updated_at :: "instant option"

definition to_detail :: "'r world \<Rightarrow> spot_group \<Rightarrow> group_role option \<Rightarrow> group_detail" where
  "to_detail w g my_role =
     \<lparr>gd_uid = g_uid g, gd_name = g_name g, gd_description = g_description g,
      gd_visibility = g_visibility g, gd_spot_count = count_group_spots (g_uid g) w,
      gd_my_role = my_role, gd_created_at = g_created_at g, gd_updated_at = g_updated_at g\<rparr>"

record group_list_item =
  gl_uid :: uid
  gl_name :: string
  gl_visibility :: group_visibility
  gl_my_role :: group_role
  gl_spot_count :: nat
  gl_updated_at :: "instant option"

record member_out =
  mo_user_uid :: uid
  mo_role :: group_role
  mo_created_at :: "instant option"

definition member_out_of :: "group_member \<Rightarrow> member_out" where
  "member_out_of m =
     \<lparr>mo_user_uid = gm_user_uid m, mo_role = gm_role m, mo_created_at = gm_created_at m\<rparr>"

record group_spot_item =
  gi_uid :: uid
  gi_title :: string
  gi_trust_tier :: "int option"
  gi_thumbnail_url :: "string option"
  gi_region_short :: "string option"
  gi_category :: "string list option"
  gi_tagline :: "string option"
  gi_amenities :: "string list option"
  gi_added_by_uid :: uid
  gi_added_at :: "instant option"

definition thumbnail_url ::
    "'b s3_client \<Rightarrow> settings \<Rightarrow> (uid \<Rightarrow> spot_image option) \<Rightarrow> uid \<Rightarrow> string option res" where
  "thumbnail_url s3 cfg thumbnails uid =
     (case thumbnails uid of
        None \<Rightarrow> Inr None
      | Some img \<Rightarrow> bindE (resolve_url s3 cfg (si_s3_key img) (si_is_public img)) (\<lambda>url. Inr (Some url)))"

definition group_spot_item_of ::
    "'b s3_client \<Rightarrow> settings \<Rightarrow> (uid \<Rightarrow> spot_image option) \<Rightarrow> spot \<times> group_spot
       \<Rightarrow> group_spot_item res" where
  "group_spot_item_of s3 cfg thumbnails row =
     (case row of (s, x) \<Rightarrow>
       bindE (thumbnail_url s3 cfg thumbnails (s_uid s)) (\<lambda>url.
         Inr \<lparr>gi_uid = s_uid s, gi_title = s_title s, gi_trust_tier = s_trust_tier s,
              gi_thumbnail_url = url, gi_region_short = abbreviate_sido (s_region_province s),
              gi_category = s_category s, gi_tagline = s_tagline s,
              gi_amenities = s_amenities s, gi_added_by_uid = gs_added_by_uid x,
              gi_added_at = gs_created_at x\<rparr>))"

fun group_spot_items ::
    "'b s3_client \<Rightarrow> settings \<Rightarrow> (uid \<Rightarrow> spot_image option) \<Rightarrow> (spot \<times> group_spot) list
       \<Rightarrow> group_spot_item list res" where
  "group_spot_items s3 cfg thumbnails [] = Inr []"
| "group_spot_items s3 cfg thumbnails (row # rows) =
     bindE (group_spot_item_of s3 cfg thumbnails row) (\<lambda>x.
     bindE (group_spot_items s3 cfg thumbnails rows) (\<lambda>xs. Inr (x # xs)))"

definition group_spots_response ::
    "'b s3_client \<Rightarrow> settings \<Rightarrow> uid \<Rightarrow> int \<Rightarrow> int \<Rightarrow> 'r world \<Rightarrow> group_spot_item list res" where
  "group_spots_response s3 cfg group_uid offset limit w =
     bindE (paging_query offset limit) (\<lambda>(o', l).
       let rows = list_group_spots group_uid o' l w;
           thumbnails = get_thumbnails_by_spots (map (\<lambda>(s, x). s_uid s) rows) w
       in group_spot_items s3 cfg thumbnails rows)"

section \<open>Endpoints of the app\<close>

definition create_group_endpoint ::
    "uid \<Rightarrow> instant \<Rightarrow> user res \<Rightarrow> string \<Rightarrow> string option \<Rightarrow> group_visibility option \<Rightarrow> 'r world
       \<Rightarrow> group_detail res \<times> 'r world" where
  "create_group_endpoint fresh now caller name description visibility w =
     check caller w (\<lambda>u.
       if \<not> valid_group_name name then raise RequestValidationError w
       else bindR (create_group fresh now (u_uid u) name description
                     (case visibility of None \<Rightarrow> PRIVATE | Some v \<Rightarrow> v) w)
              (\<lambda>g w'. ret (to_detail w' g (Some OWNER)) w'))"

definition list_my_groups ::
    "user res \<Rightarrow> int \<Rightarrow> int \<Rightarrow> 'r world \<Rightarrow> group_list_item list res" where
  "list_my_groups caller offset limit w =
     bindE caller (\<lambda>u.
     bindE (paging_query offset limit) (\<lambda>(o', l).
       Inr (map (\<lambda>(g, r, n). \<lparr>gl_uid = g_uid g, gl_name = g_name g,
                    gl_visibility = g_visibility g, gl_my_role = r, gl_spot_count = n,
                    gl_updated_at = g_updated_at g\<rparr>)
              (list_groups_for_user (u_uid u) o' l w))))"

definition get_group :: "user option res \<Rightarrow> uid \<Rightarrow> 'r world \<Rightarrow> group_detail res" where
  "get_group visitor group_uid w =
     bindE (get_readable_group visitor group_uid w) (\<lambda>g.
     bindE visitor (\<lambda>u.
     bindE (my_membership (g_uid g) u w) (\<lambda>m.
       Inr (to_detail w g (map_option gm_role m)))))"

definition update_group_endpoint ::
    "instant \<Rightarrow> user res \<Rightarrow> uid \<Rightarrow> group_attr list \<Rightarrow> 'r world \<Rightarrow> group_detail res \<times> 'r world" where
  "update_group_endpoint now caller group_uid data w =
     check (require_group_role EDITOR caller group_uid w) w (\<lambda>(g, m).
       if \<not> list_all valid_group_attr data then raise RequestValidationError w
       else bindR (update_group now g data w)
              (\<lambda>g' w'. ret (to_detail w' g' (Some (gm_role m))) w'))"

definition delete_group_endpoint :: "user res \<Rightarrow> uid \<Rightarrow> 'r world \<Rightarrow> unit res \<times> 'r world" where
  "delete_group_endpoint caller group_uid w =
     check (require_group_role OWNER caller group_uid w) w (\<lambda>(g, m). ret () (delete_group g w))"

definition list_group_spots_endpoint ::
    "'b s3_client \<Rightarrow> settings \<Rightarrow> user option res \<Rightarrow> uid \<Rightarrow> int \<Rightarrow> int \<Rightarrow> 'r world
       \<Rightarrow> group_spot_item list res" where
  "list_group_spots_endpoint s3 cfg visitor group_uid offset limit w =
     bindE (get_readable_group visitor group_uid w) (\<lambda>g.
       group_spots_response s3 cfg (g_uid g) offset limit w)"

text \<open>The item is committed before the URL of its thumbnail is made.\<close>

definition stored_spot_item ::
    "'b s3_client \<Rightarrow> settings \<Rightarrow> instant \<Rightarrow> uid \<Rightarrow> spot \<Rightarrow> uid \<Rightarrow> 'r world
       \<Rightarrow> group_spot_item res \<times> 'r world" where
  "stored_spot_item s3 cfg now group_uid s added_by_uid w =
     bindR (add_spot now group_uid (s_uid s) added_by_uid w) (\<lambda>x w'.
       (group_spot_item_of s3 cfg (get_thumbnails_by_spots [s_uid s] w') (s, x), w'))"

definition add_group_spot ::
    "'b s3_client \<Rightarrow> settings \<Rightarrow> instant \<Rightarrow> user res \<Rightarrow> uid \<Rightarrow> uid \<Rightarrow> 'r world
       \<Rightarrow> group_spot_item res \<times> 'r world" where
  "add_group_spot s3 cfg now caller group_uid spot_uid w =
     check (require_group_role CONTRIBUTOR caller group_uid w) w (\<lambda>(g, m).
     check (get_spot_by_uid cfg spot_uid True w) w (\<lambda>found.
       case found of
         None \<Rightarrow> raise (app_error SPOT_NOT_FOUND) w
       | Some s \<Rightarrow> stored_spot_item s3 cfg now (g_uid g) s (gm_user_uid m) w))"

definition remove_group_spot ::
    "user res \<Rightarrow> uid \<Rightarrow> uid \<Rightarrow> 'r world \<Rightarrow> unit res \<times> 'r world" where
  "remove_group_spot caller group_uid spot_uid w =
     check (require_group_role EDITOR caller group_uid w) w (\<lambda>(g, m).
     bindR (remove_spot (g_uid g) spot_uid w) (\<lambda>removed w'.
       if \<not> removed then raise (app_error SPOT_NOT_FOUND) w' else ret () w'))"

definition list_group_members :: "user res \<Rightarrow> uid \<Rightarrow> 'r world \<Rightarrow> member_out list res" where
  "list_group_members caller group_uid w =
     bindE (require_group_role VIEWER caller group_uid w) (\<lambda>(g, m).
       Inr (map member_out_of (list_members (g_uid g) w)))"

definition invite_group_member ::
    "instant \<Rightarrow> user res \<Rightarrow> uid \<Rightarrow> uid \<Rightarrow> group_role \<Rightarrow> 'r world \<Rightarrow> member_out res \<times> 'r world" where
  "invite_group_member now caller group_uid user_uid role w =
     check (require_group_role OWNER caller group_uid w) w (\<lambda>(g, m).
       if g_visibility g = PRIVATE then raise (app_error SPOT_GROUP_INVITE_NOT_ALLOWED) w
       else check (get_user_by_id user_uid w) w (\<lambda>target.
         case target of
           None \<Rightarrow> raise (app_error USER_NOT_FOUND) w
         | Some u \<Rightarrow> bindR (add_member now (g_uid g) (u_uid u) role (gm_user_uid m) w)
                       (\<lambda>x w'. ret (member_out_of x) w')))"

text \<open>The member a moderator or an owner acts on.\<close>

definition target_member :: "uid \<Rightarrow> uid \<Rightarrow> 'r world \<Rightarrow> group_member res" where
  "target_member group_uid user_uid w =
     bindE (get_membership group_uid user_uid w) (\<lambda>m.
       case m of None \<Rightarrow> Inl (app_error SPOT_GROUP_MEMBER_NOT_FOUND) | Some m \<Rightarrow> Inr m)"

definition update_group_member_role ::
    "user res \<Rightarrow> uid \<Rightarrow> uid \<Rightarrow> group_role \<Rightarrow> 'r world \<Rightarrow> member_out res \<times> 'r world" where
  "update_group_member_role caller group_uid user_uid role w =
     check (require_group_role OWNER caller group_uid w) w (\<lambda>(g, m).
     check (target_member (g_uid g) user_uid w) w (\<lambda>target.
     bindR (update_member_role target role w) (\<lambda>x w'. ret (member_out_of x) w')))"

definition remove_group_member ::
    "user res \<Rightarrow> uid \<Rightarrow> uid \<Rightarrow> 'r world \<Rightarrow> unit res \<times> 'r world" where
  "remove_group_member caller group_uid user_uid w =
     check (require_group_role OWNER caller group_uid w) w (\<lambda>(g, m).
     check (target_member (g_uid g) user_uid w) w (\<lambda>target. remove_member target w))"

section \<open>Endpoints of the admin console\<close>

record group_admin_detail =
  ga_uid :: uid
  ga_name :: string
  ga_description :: "string option"
  ga_visibility :: group_visibility
  ga_member_count :: nat
  ga_spot_count :: nat
  ga_created_at :: "instant option"
  ga_updated_at :: "instant option"

definition to_admin_detail :: "'r world \<Rightarrow> spot_group \<Rightarrow> group_admin_detail" where
  "to_admin_detail w g =
     \<lparr>ga_uid = g_uid g, ga_name = g_name g, ga_description = g_description g,
      ga_visibility = g_visibility g, ga_member_count = count_group_members (g_uid g) w,
      ga_spot_count = count_group_spots (g_uid g) w,
      ga_created_at = g_created_at g, ga_updated_at = g_updated_at g\<rparr>"

record admin_member_out =
  am_user_uid :: uid
  am_nickname :: string
  am_email :: string
  am_role :: group_role
  am_invited_by_uid :: "uid option"
  am_created_at :: "instant option"

definition admin_member_out_of :: "group_member \<Rightarrow> user \<Rightarrow> admin_member_out" where
  "admin_member_out_of m u =
     \<lparr>am_user_uid = gm_user_uid m, am_nickname = u_nickname u, am_email = u_email u,
      am_role = gm_role m, am_invited_by_uid = gm_invited_by_uid m,
      am_created_at = gm_created_at m\<rparr>"

definition create_group_admin ::
    "uid \<Rightarrow> instant \<Rightarrow> user res \<Rightarrow> string \<Rightarrow> string option \<Rightarrow> group_visibility option \<Rightarrow> 'r world
       \<Rightarrow> group_admin_detail res \<times> 'r world" where
  "create_group_admin fresh now caller name description visibility w =
     check (as_staff caller) w (\<lambda>staff.
       if \<not> valid_group_name name then raise RequestValidationError w
       else bindR (create_group fresh now (u_uid staff) name description
                     (case visibility of None \<Rightarrow> PRIVATE | Some v \<Rightarrow> v) w)
              (\<lambda>g w'. ret (to_admin_detail w' g) w'))"

text \<open>The items with the value of the header \<open>X-Total-Count\<close>.\<close>

record group_admin_item =
  gt_uid :: uid
  gt_name :: string
  gt_visibility :: group_visibility
  gt_member_count :: nat
  gt_spot_count :: nat
  gt_created_at :: "instant option"
  gt_updated_at :: "instant option"

definition list_groups ::
    "user res \<Rightarrow> int \<Rightarrow> int \<Rightarrow> string \<Rightarrow> string \<Rightarrow> string option \<Rightarrow> string option \<Rightarrow> string option
       \<Rightarrow> 'r world \<Rightarrow> (group_admin_item list \<times> nat) res" where
  "list_groups caller start to sort_field direction name_like visibility user_uid w =
     bindE (as_staff caller) (\<lambda>_.
       if start < 0 \<or> to < 0 then Inl RequestValidationError
       else if group_column sort_field = None then Inl (app_error VALIDATION_ERROR)
       else bindE (list_groups_admin (nat start) (nat (to - start)) sort_field (str_lower direction)
                     name_like visibility user_uid w) (\<lambda>(found, total).
         Inr (map (\<lambda>(g, members, items). \<lparr>gt_uid = g_uid g, gt_name = g_name g,
                      gt_visibility = g_visibility g, gt_member_count = members,
                      gt_spot_count = items, gt_created_at = g_created_at g,
                      gt_updated_at = g_updated_at g\<rparr>) found, total)))"

definition get_group_admin :: "user res \<Rightarrow> uid \<Rightarrow> 'r world \<Rightarrow> group_admin_detail res" where
  "get_group_admin caller group_uid w =
     bindE (as_staff caller) (\<lambda>_.
     bindE (get_group_or_404 group_uid w) (\<lambda>g. Inr (to_admin_detail w g)))"

definition update_group_admin ::
    "instant \<Rightarrow> user res \<Rightarrow> uid \<Rightarrow> group_attr list \<Rightarrow> 'r world
       \<Rightarrow> group_admin_detail res \<times> 'r world" where
  "update_group_admin now caller group_uid data w =
     check (as_staff caller) w (\<lambda>_.
     check (get_group_or_404 group_uid w) w (\<lambda>g.
       if \<not> list_all valid_group_attr data then raise RequestValidationError w
       else bindR (update_group now g data w) (\<lambda>g' w'. ret (to_admin_detail w' g') w')))"

definition delete_group_admin :: "user res \<Rightarrow> uid \<Rightarrow> 'r world \<Rightarrow> unit res \<times> 'r world" where
  "delete_group_admin caller group_uid w =
     check (as_role MANAGER caller) w (\<lambda>_.
     check (get_group_or_404 group_uid w) w (\<lambda>g. ret () (delete_group g w)))"

definition list_group_members_admin ::
    "user res \<Rightarrow> uid \<Rightarrow> 'r world \<Rightarrow> admin_member_out list res" where
  "list_group_members_admin caller group_uid w =
     bindE (as_staff caller) (\<lambda>_.
     bindE (get_group_or_404 group_uid w) (\<lambda>g.
       Inr (map (\<lambda>(m, u). admin_member_out_of m u) (list_members_admin (g_uid g) w))))"

definition add_group_member ::
    "instant \<Rightarrow> user res \<Rightarrow> uid \<Rightarrow> uid \<Rightarrow> group_role \<Rightarrow> 'r world
       \<Rightarrow> admin_member_out res \<times> 'r world" where
  "add_group_member now caller group_uid user_uid role w =
     check (as_role MANAGER caller) w (\<lambda>staff.
     check (get_group_or_404 group_uid w) w (\<lambda>g.
     check (get_user_by_id user_uid w) w (\<lambda>target.
       case target of
         None \<Rightarrow> raise (app_error USER_NOT_FOUND) w
       | Some u \<Rightarrow> bindR (add_member now (g_uid g) (u_uid u) role (u_uid staff) w)
                     (\<lambda>m w'. ret (admin_member_out_of m u) w'))))"

text \<open>The role is committed before the user is looked up again.\<close>

definition update_group_member_role_admin ::
    "user res \<Rightarrow> uid \<Rightarrow> uid \<Rightarrow> group_role \<Rightarrow> 'r world \<Rightarrow> admin_member_out res \<times> 'r world" where
  "update_group_member_role_admin caller group_uid user_uid role w =
     check (as_role MANAGER caller) w (\<lambda>_.
     check (get_group_or_404 group_uid w) w (\<lambda>g.
     check (target_member (g_uid g) user_uid w) w (\<lambda>target.
     bindR (update_member_role target role w) (\<lambda>m w'.
       check (get_user_by_id (gm_user_uid m) w') w' (\<lambda>found.
         case found of
           None \<Rightarrow> raise (app_error USER_NOT_FOUND) w'
         | Some u \<Rightarrow> ret (admin_member_out_of m u) w')))))"

definition remove_group_member_admin ::
    "user res \<Rightarrow> uid \<Rightarrow> uid \<Rightarrow> 'r world \<Rightarrow> unit res \<times> 'r world" where
  "remove_group_member_admin caller group_uid user_uid w =
     check (as_role MANAGER caller) w (\<lambda>_.
     check (get_group_or_404 group_uid w) w (\<lambda>g.
     check (target_member (g_uid g) user_uid w) w (\<lambda>target. remove_member target w)))"

definition list_group_spots_admin ::
    "'b s3_client \<Rightarrow> settings \<Rightarrow> user res \<Rightarrow> uid \<Rightarrow> int \<Rightarrow> int \<Rightarrow> 'r world
       \<Rightarrow> group_spot_item list res" where
  "list_group_spots_admin s3 cfg caller group_uid offset limit w =
     bindE (as_staff caller) (\<lambda>_.
     bindE (get_group_or_404 group_uid w) (\<lambda>g.
       group_spots_response s3 cfg (g_uid g) offset limit w))"

definition add_group_spot_admin ::
    "'b s3_client \<Rightarrow> settings \<Rightarrow> instant \<Rightarrow> user res \<Rightarrow> uid \<Rightarrow> uid \<Rightarrow> 'r world
       \<Rightarrow> group_spot_item res \<times> 'r world" where
  "add_group_spot_admin s3 cfg now caller group_uid spot_uid w =
     check (as_staff caller) w (\<lambda>staff.
     check (get_group_or_404 group_uid w) w (\<lambda>g.
     check (get_spot_by_uid cfg spot_uid False w) w (\<lambda>found.
       case found of
         None \<Rightarrow> raise (app_error SPOT_NOT_FOUND) w
       | Some s \<Rightarrow>
           if s_deleted_at s \<noteq> None then raise (app_error SPOT_NOT_FOUND) w
           else stored_spot_item s3 cfg now (g_uid g) s (u_uid staff) w)))"

definition remove_group_spot_admin ::
    "user res \<Rightarrow> uid \<Rightarrow> uid \<Rightarrow> 'r world \<Rightarrow> unit res \<times> 'r world" where
  "remove_group_spot_admin caller group_uid spot_uid w =
     check (as_staff caller) w (\<lambda>_.
     check (get_group_or_404 group_uid w) w (\<lambda>g.
     bindR (remove_spot (g_uid g) spot_uid w) (\<lambda>removed w'.
       if \<not> removed then raise (app_error SPOT_NOT_FOUND) w' else ret () w')))"

section \<open>Laws\<close>

text \<open>
  The tables of groups: their keys, every member and item in a group that exists, and at least
  one owner in every group.
\<close>

definition groups_ok :: "'r world \<Rightarrow> bool" where
  "groups_ok w \<longleftrightarrow> unique_key g_uid (spot_groups w) \<and> unique_key member_key (group_members w)
     \<and> unique_key group_spot_key (group_spots w)
     \<and> gm_group_uid ` set (group_members w) \<subseteq> g_uid ` set (spot_groups w)
     \<and> gs_group_uid ` set (group_spots w) \<subseteq> g_uid ` set (spot_groups w)
     \<and> (\<forall>g \<in> set (spot_groups w). 1 \<le> count_owners (g_uid g) w)"

text \<open>What the invariant reads.\<close>

definition group_tables ::
    "'r world \<Rightarrow> spot_group list \<times> group_member list \<times> group_spot list" where
  "group_tables w = (spot_groups w, group_members w, group_spots w)"

lemma groups_ok_cong: "group_tables w' = group_tables w \<Longrightarrow> groups_ok w' = groups_ok w"
  by (simp add: groups_ok_def group_tables_def count_owners_def)

lemma groups_ok_empty [simp]: "groups_ok (empty_world r)"
  by (simp add: groups_ok_def empty_world_def unique_key_def)

lemma get_membership_ok:
  assumes "unique_key member_key (group_members w)"
  shows "get_membership g u w = Inr (get_by_key member_key (g, u) (group_members w))"
proof -
  have "filter (\<lambda>m. gm_group_uid m = g \<and> gm_user_uid m = u) (group_members w)
      = filter (\<lambda>m. member_key m = (g, u)) (group_members w)"
    by (simp add: member_key_def)
  then show ?thesis
    by (simp add: get_membership_def scalar_one_or_none_unique [OF assms])
qed

lemma get_group_by_uid_ok:
  "unique_key g_uid (spot_groups w) \<Longrightarrow>
     get_group_by_uid k w = Inr (get_by_key g_uid k (spot_groups w))"
  by (simp add: get_group_by_uid_def scalar_one_or_none_unique)

lemma get_group_or_404_mem:
  "get_group_or_404 k w = Inr g \<Longrightarrow> g \<in> set (spot_groups w) \<and> g_uid g = k"
  by (auto simp: get_group_or_404_def get_group_by_uid_def bindE_Inr_iff scalar_one_or_none_Some_iff
      filter_eq_Cons_iff split: option.splits)

lemma get_membership_mem:
  "get_membership k u w = Inr (Some m) \<Longrightarrow>
     m \<in> set (group_members w) \<and> gm_group_uid m = k \<and> gm_user_uid m = u"
  by (auto simp: get_membership_def scalar_one_or_none_Some_iff filter_eq_Cons_iff)

lemma target_member_mem:
  "target_member k u w = Inr m \<Longrightarrow>
     m \<in> set (group_members w) \<and> gm_group_uid m = k \<and> gm_user_uid m = u"
  by (auto simp: target_member_def bindE_Inr_iff split: option.splits dest: get_membership_mem)

text \<open>The statements keep the invariant.\<close>

lemma groups_ok_create: "groups_ok w \<Longrightarrow> groups_ok (snd (create_group i t u n d v w))"
  by (auto simp: create_group_def Let_def groups_ok_def insert_row_Some unique_key_snoc
      count_owners_def split: option.split dest!: insert_row_Some [THEN iffD1]; fastforce)

lemma set_group_attr_uid: "set_group_attr a g = Some g' \<Longrightarrow> g_uid g' = g_uid g"
  by (cases a) auto

lemma set_group_attrs_uid: "set_group_attrs as g = Some g' \<Longrightarrow> g_uid g' = g_uid g"
  by (induction as arbitrary: g) (auto split: option.splits dest: set_group_attr_uid)

lemma groups_ok_update: "groups_ok w \<Longrightarrow> groups_ok (snd (update_group t g data w))"
proof (cases "set_group_attrs data g")
  case (Some changed)
  let ?w' = "snd (update_group t g data w)"
  from Some have rows: "map g_uid (spot_groups ?w') = map g_uid (spot_groups w)"
      "group_members ?w' = group_members w" "group_spots ?w' = group_spots w"
    by (auto simp: update_group_def Let_def map_key_update_where set_group_attrs_uid)
  then have uids: "g_uid ` set (spot_groups ?w') = g_uid ` set (spot_groups w)"
    by (metis list.set_map)
  assume "groups_ok w"
  moreover have owners: "1 \<le> count_owners (g_uid g') ?w'" if "g' \<in> set (spot_groups ?w')" for g'
  proof -
    from that have "g_uid g' \<in> g_uid ` set (spot_groups w)" using uids by blast
    with \<open>groups_ok w\<close> show ?thesis by (auto simp: groups_ok_def count_owners_def rows(2))
  qed
  ultimately show ?thesis
    unfolding groups_ok_def unique_key_def rows uids using owners by blast
qed (simp add: update_group_def)

lemma groups_ok_delete: "groups_ok w \<Longrightarrow> groups_ok (delete_group g w)"
proof -
  have "count_where (\<lambda>m. gm_group_uid m = k \<and> gm_role m = OWNER)
          (delete_where (\<lambda>m. gm_group_uid m = g_uid g) (group_members w))
        = count_where (\<lambda>m. gm_group_uid m = k \<and> gm_role m = OWNER) (group_members w)"
    if "k \<noteq> g_uid g" for k
    by (rule count_where_delete_other) (use that in auto)
  then show "groups_ok w \<Longrightarrow> ?thesis"
    by (auto simp: groups_ok_def delete_group_def unique_key_delete_where count_owners_def)
qed

lemma groups_ok_add_member:
  "groups_ok w \<Longrightarrow> k \<in> g_uid ` set (spot_groups w) \<Longrightarrow> groups_ok (snd (add_member t k u r by w))"
  by (auto simp: add_member_def Let_def check_def groups_ok_def insert_row_Some unique_key_snoc
      count_owners_def intro: le_SucI split: option.split sum.split)

lemma groups_ok_add_spot:
  "groups_ok w \<Longrightarrow> k \<in> g_uid ` set (spot_groups w) \<Longrightarrow> groups_ok (snd (add_spot t k s by w))"
  by (auto simp: add_spot_def Let_def check_def groups_ok_def insert_row_Some unique_key_snoc
      count_owners_def split: option.split sum.split)

lemma groups_ok_remove_spot: "groups_ok w \<Longrightarrow> groups_ok (snd (remove_spot k s w))"
  by (auto simp: remove_spot_def check_def groups_ok_def unique_key_delete_where
      count_owners_def split: sum.split)

lemma groups_ok_update_role:
  assumes ok: "groups_ok w" and m: "m \<in> set (group_members w)"
  shows "groups_ok (snd (update_member_role m role w))"
proof (cases "gm_role m = OWNER \<and> role \<noteq> OWNER \<and> count_owners (gm_group_uid m) w \<le> 1")
  case False
  let ?ms = "update_where (\<lambda>x. member_key x = member_key m) (\<lambda>x. x\<lparr>gm_role := role\<rparr>) (group_members w)"
  have keys: "map member_key ?ms = map member_key (group_members w)"
    by (simp add: map_key_update_where member_key_def)
  have "map gm_group_uid ?ms = map gm_group_uid (group_members w)"
    by (simp add: map_key_update_where)
  then have groups: "gm_group_uid ` set ?ms = gm_group_uid ` set (group_members w)"
    by (metis list.set_map)
  have "1 \<le> count_where (\<lambda>x. gm_group_uid x = g_uid g \<and> gm_role x = OWNER) ?ms"
    if g: "g \<in> set (spot_groups w)" for g
  proof (cases "g_uid g = gm_group_uid m \<and> gm_role m = OWNER \<and> role \<noteq> OWNER")
    case True
    with False have "2 \<le> count_where (\<lambda>x. gm_group_uid x = g_uid g \<and> gm_role x = OWNER) (group_members w)"
      by (simp add: count_owners_def)
    also have "\<dots> \<le> Suc (count_where (\<lambda>x. gm_group_uid x = g_uid g \<and> gm_role x = OWNER) ?ms)"
      using ok by (intro count_where_update_key) (simp add: groups_ok_def)
    finally show ?thesis by simp
  next
    case other: False
    have "1 \<le> count_where (\<lambda>x. gm_group_uid x = g_uid g \<and> gm_role x = OWNER) (group_members w)"
      using ok g by (simp add: groups_ok_def count_owners_def)
    also have "\<dots> \<le> count_where (\<lambda>x. gm_group_uid x = g_uid g \<and> gm_role x = OWNER) ?ms"
    proof (rule count_where_update_mono)
      fix r
      assume r: "r \<in> set (group_members w)" "member_key r = member_key m"
        and owner: "gm_group_uid r = g_uid g \<and> gm_role r = OWNER"
      then have "r = m" using unique_key_eq [of member_key "group_members w" r m] ok m
        by (simp add: groups_ok_def)
      with other owner show "gm_group_uid (r\<lparr>gm_role := role\<rparr>) = g_uid g \<and> gm_role (r\<lparr>gm_role := role\<rparr>) = OWNER"
        by auto
    qed
    finally show ?thesis .
  qed
  then show ?thesis
    using ok keys groups False by (simp add: update_member_role_def groups_ok_def unique_key_def count_owners_def)
qed (use ok in \<open>simp add: update_member_role_def\<close>)

lemma groups_ok_remove_member:
  assumes ok: "groups_ok w" and m: "m \<in> set (group_members w)"
  shows "groups_ok (snd (remove_member m w))"
proof (cases "gm_role m = OWNER \<and> count_owners (gm_group_uid m) w \<le> 1")
  case False
  let ?ms = "delete_where (\<lambda>x. member_key x = member_key m) (group_members w)"
  have "1 \<le> count_where (\<lambda>x. gm_group_uid x = g_uid g \<and> gm_role x = OWNER) ?ms"
    if g: "g \<in> set (spot_groups w)" for g
  proof (cases "g_uid g = gm_group_uid m \<and> gm_role m = OWNER")
    case True
    with False have "2 \<le> count_where (\<lambda>x. gm_group_uid x = g_uid g \<and> gm_role x = OWNER) (group_members w)"
      by (simp add: count_owners_def)
    also have "\<dots> \<le> Suc (count_where (\<lambda>x. gm_group_uid x = g_uid g \<and> gm_role x = OWNER) ?ms)"
      using ok by (intro count_where_delete_key) (simp add: groups_ok_def)
    finally show ?thesis by simp
  next
    case other: False
    have "count_where (\<lambda>x. gm_group_uid x = g_uid g \<and> gm_role x = OWNER) ?ms
        = count_where (\<lambda>x. gm_group_uid x = g_uid g \<and> gm_role x = OWNER) (group_members w)"
    proof (rule count_where_delete_other)
      fix r
      assume "r \<in> set (group_members w)" and owner: "gm_group_uid r = g_uid g \<and> gm_role r = OWNER"
      then show "member_key r \<noteq> member_key m"
        using unique_key_eq [of member_key "group_members w" r m] ok m other
        by (auto simp: groups_ok_def)
    qed
    with ok g show ?thesis by (simp add: groups_ok_def count_owners_def)
  qed
  then show ?thesis
    using ok False by (auto simp: remove_member_def groups_ok_def unique_key_delete_where count_owners_def)
qed (use ok in \<open>simp add: remove_member_def\<close>)

section \<open>Requests\<close>

text \<open>
  The requests that may write, with who makes them; \<open>run_group_request\<close> is the database after
  the request.
\<close>

datatype group_request =
    Create_Group uid string "string option" "group_visibility option"
  | Update_Group uid "group_attr list"
  | Delete_Group uid
  | Add_Group_Spot uid uid
  | Remove_Group_Spot uid uid
  | Invite_Group_Member uid uid group_role
  | Update_Group_Member_Role uid uid group_role
  | Remove_Group_Member uid uid

fun run_group_request ::
    "'b s3_client \<Rightarrow> settings \<Rightarrow> instant \<Rightarrow> user res \<Rightarrow> group_request \<Rightarrow> 'r world \<Rightarrow> 'r world" where
  "run_group_request s3 cfg now caller (Create_Group fresh name description visibility) w =
     snd (create_group_endpoint fresh now caller name description visibility w)"
| "run_group_request s3 cfg now caller (Update_Group g data) w =
     snd (update_group_endpoint now caller g data w)"
| "run_group_request s3 cfg now caller (Delete_Group g) w = snd (delete_group_endpoint caller g w)"
| "run_group_request s3 cfg now caller (Add_Group_Spot g s) w =
     snd (add_group_spot s3 cfg now caller g s w)"
| "run_group_request s3 cfg now caller (Remove_Group_Spot g s) w =
     snd (remove_group_spot caller g s w)"
| "run_group_request s3 cfg now caller (Invite_Group_Member g u role) w =
     snd (invite_group_member now caller g u role w)"
| "run_group_request s3 cfg now caller (Update_Group_Member_Role g u role) w =
     snd (update_group_member_role caller g u role w)"
| "run_group_request s3 cfg now caller (Remove_Group_Member g u) w =
     snd (remove_group_member caller g u w)"

text \<open>The same requests to the admin console.\<close>

fun run_group_request_admin ::
    "'b s3_client \<Rightarrow> settings \<Rightarrow> instant \<Rightarrow> user res \<Rightarrow> group_request \<Rightarrow> 'r world \<Rightarrow> 'r world" where
  "run_group_request_admin s3 cfg now caller (Create_Group fresh name description visibility) w =
     snd (create_group_admin fresh now caller name description visibility w)"
| "run_group_request_admin s3 cfg now caller (Update_Group g data) w =
     snd (update_group_admin now caller g data w)"
| "run_group_request_admin s3 cfg now caller (Delete_Group g) w =
     snd (delete_group_admin caller g w)"
| "run_group_request_admin s3 cfg now caller (Add_Group_Spot g s) w =
     snd (add_group_spot_admin s3 cfg now caller g s w)"
| "run_group_request_admin s3 cfg now caller (Remove_Group_Spot g s) w =
     snd (remove_group_spot_admin caller g s w)"
| "run_group_request_admin s3 cfg now caller (Invite_Group_Member g u role) w =
     snd (add_group_member now caller g u role w)"
| "run_group_request_admin s3 cfg now caller (Update_Group_Member_Role g u role) w =
     snd (update_group_member_role_admin caller g u role w)"
| "run_group_request_admin s3 cfg now caller (Remove_Group_Member g u) w =
     snd (remove_group_member_admin caller g u w)"

text \<open>The group a request is about and the role the app asks for it (none for a new group).\<close>

fun request_gate :: "group_request \<Rightarrow> (uid \<times> group_role) option" where
  "request_gate (Create_Group _ _ _ _) = None"
| "request_gate (Update_Group g _) = Some (g, EDITOR)"
| "request_gate (Delete_Group g) = Some (g, OWNER)"
| "request_gate (Add_Group_Spot g _) = Some (g, CONTRIBUTOR)"
| "request_gate (Remove_Group_Spot g _) = Some (g, EDITOR)"
| "request_gate (Invite_Group_Member g _ _) = Some (g, OWNER)"
| "request_gate (Update_Group_Member_Role g _ _) = Some (g, OWNER)"
| "request_gate (Remove_Group_Member g _) = Some (g, OWNER)"

lemmas app_group_defs = create_group_endpoint_def update_group_endpoint_def
  delete_group_endpoint_def add_group_spot_def remove_group_spot_def invite_group_member_def
  update_group_member_role_def remove_group_member_def

lemmas admin_group_defs = create_group_admin_def update_group_admin_def delete_group_admin_def
  add_group_spot_admin_def remove_group_spot_admin_def add_group_member_def
  update_group_member_role_admin_def remove_group_member_admin_def

lemma require_group_role_mem:
  assumes "require_group_role r caller k w = Inr (g, m)"
  obtains u where "caller = Inr u" and "g \<in> set (spot_groups w)" and "g_uid g = k"
    and "m \<in> set (group_members w)" and "gm_group_uid m = k" and "gm_user_uid m = u_uid u"
    and "r \<le> gm_role m"
  using assms
  by (auto simp: require_group_role_def get_membership_or_404_def bindE_Inr_iff not_less
      less_eq_group_role_def split: if_splits option.splits
      dest!: get_group_or_404_mem get_membership_mem)

lemma groups_ok_stored_spot:
  "groups_ok w \<Longrightarrow> k \<in> g_uid ` set (spot_groups w) \<Longrightarrow>
     groups_ok (snd (stored_spot_item s3 cfg t k s by w))"
  unfolding stored_spot_item_def by (rule bindR_state) (simp_all add: groups_ok_add_spot)

lemmas groups_ok_check = check_state [where P = groups_ok]
lemmas groups_ok_bind = bindR_state [where P = groups_ok]

lemma groups_ok_gate:
  assumes "groups_ok w"
    and "\<And>g m. g \<in> set (spot_groups w) \<Longrightarrow> m \<in> set (group_members w) \<Longrightarrow> groups_ok (snd (k (g, m)))"
  shows "groups_ok (snd (check (require_group_role r caller uid w) w k))"
  using assms(1) by (rule groups_ok_check) (auto elim!: require_group_role_mem intro: assms(2))

lemma groups_ok_found:
  assumes "groups_ok w" and "\<And>g. g \<in> set (spot_groups w) \<Longrightarrow> groups_ok (snd (k g))"
  shows "groups_ok (snd (check (get_group_or_404 uid w) w k))"
  using assms(1) by (rule groups_ok_check) (auto dest: get_group_or_404_mem intro: assms(2))

lemma groups_ok_target:
  assumes "groups_ok w" and "\<And>m. m \<in> set (group_members w) \<Longrightarrow> groups_ok (snd (k m))"
  shows "groups_ok (snd (check (target_member g uid w) w k))"
  using assms(1) by (rule groups_ok_check) (auto dest: target_member_mem intro: assms(2))

lemmas groups_ok_statements = groups_ok_create groups_ok_update groups_ok_delete
  groups_ok_stored_spot groups_ok_remove_spot groups_ok_add_member groups_ok_update_role
  groups_ok_remove_member

lemma groups_ok_run:
  assumes ok: "groups_ok w"
  shows "groups_ok (run_group_request s3 cfg now caller req w)"
proof (cases req)
  case (Create_Group i n d v)
  have "groups_ok (snd (create_group_endpoint i now caller n d v w))"
    unfolding create_group_endpoint_def
    by (rule groups_ok_check [OF ok]) (auto intro!: groups_ok_bind groups_ok_create ok)
  with Create_Group show ?thesis by simp
next
  case (Update_Group g data)
  have "groups_ok (snd (update_group_endpoint now caller g data w))"
    unfolding update_group_endpoint_def
    by (rule groups_ok_gate [OF ok]) (auto intro!: groups_ok_bind groups_ok_update ok)
  with Update_Group show ?thesis by simp
next
  case (Delete_Group g)
  have "groups_ok (snd (delete_group_endpoint caller g w))"
    unfolding delete_group_endpoint_def
    by (rule groups_ok_gate [OF ok]) (simp add: groups_ok_delete ok)
  with Delete_Group show ?thesis by simp
next
  case (Add_Group_Spot g s)
  have "groups_ok (snd (add_group_spot s3 cfg now caller g s w))"
    unfolding add_group_spot_def
    by (rule groups_ok_gate [OF ok], simp, rule groups_ok_check [OF ok])
      (simp add: groups_ok_stored_spot ok split: option.split)
  with Add_Group_Spot show ?thesis by simp
next
  case (Remove_Group_Spot g s)
  have "groups_ok (snd (remove_group_spot caller g s w))"
    unfolding remove_group_spot_def
    by (rule groups_ok_gate [OF ok]) (auto intro!: groups_ok_bind groups_ok_remove_spot ok)
  with Remove_Group_Spot show ?thesis by simp
next
  case (Invite_Group_Member g u r)
  have "groups_ok (snd (invite_group_member now caller g u r w))"
    unfolding invite_group_member_def
    by (rule groups_ok_gate [OF ok])
      (auto intro!: groups_ok_check groups_ok_bind groups_ok_add_member ok split: option.split)
  with Invite_Group_Member show ?thesis by simp
next
  case (Update_Group_Member_Role g u r)
  have "groups_ok (snd (update_group_member_role caller g u r w))"
    unfolding update_group_member_role_def
    by (rule groups_ok_gate [OF ok], simp, rule groups_ok_target [OF ok])
      (simp add: groups_ok_bind groups_ok_update_role ok)
  with Update_Group_Member_Role show ?thesis by simp
next
  case (Remove_Group_Member g u)
  have "groups_ok (snd (remove_group_member caller g u w))"
    unfolding remove_group_member_def
    by (rule groups_ok_gate [OF ok], simp, rule groups_ok_target [OF ok])
      (simp add: groups_ok_remove_member ok)
  with Remove_Group_Member show ?thesis by simp
qed

lemma groups_ok_run_admin:
  assumes ok: "groups_ok w"
  shows "groups_ok (run_group_request_admin s3 cfg now caller req w)"
proof (cases req)
  case (Create_Group i n d v)
  have "groups_ok (snd (create_group_admin i now caller n d v w))"
    unfolding create_group_admin_def
    by (rule groups_ok_check [OF ok]) (auto intro!: groups_ok_bind groups_ok_create ok)
  with Create_Group show ?thesis by simp
next
  case (Update_Group g data)
  have "groups_ok (snd (update_group_admin now caller g data w))"
    unfolding update_group_admin_def
    by (rule groups_ok_check [OF ok], rule groups_ok_found [OF ok])
      (auto intro!: groups_ok_bind groups_ok_update ok)
  with Update_Group show ?thesis by simp
next
  case (Delete_Group g)
  have "groups_ok (snd (delete_group_admin caller g w))"
    unfolding delete_group_admin_def
    by (rule groups_ok_check [OF ok], rule groups_ok_found [OF ok]) (simp add: groups_ok_delete ok)
  with Delete_Group show ?thesis by simp
next
  case (Add_Group_Spot g s)
  have "groups_ok (snd (add_group_spot_admin s3 cfg now caller g s w))"
    unfolding add_group_spot_admin_def
    by (rule groups_ok_check [OF ok], rule groups_ok_found [OF ok], rule groups_ok_check [OF ok])
      (simp add: groups_ok_stored_spot ok split: option.split)
  with Add_Group_Spot show ?thesis by simp
next
  case (Remove_Group_Spot g s)
  have "groups_ok (snd (remove_group_spot_admin caller g s w))"
    unfolding remove_group_spot_admin_def
    by (rule groups_ok_check [OF ok], rule groups_ok_found [OF ok])
      (auto intro!: groups_ok_bind groups_ok_remove_spot ok)
  with Remove_Group_Spot show ?thesis by simp
next
  case (Invite_Group_Member g u r)
  have "groups_ok (snd (add_group_member now caller g u r w))"
    unfolding add_group_member_def
    by (rule groups_ok_check [OF ok], rule groups_ok_found [OF ok], rule groups_ok_check [OF ok])
      (auto intro!: groups_ok_bind groups_ok_add_member ok split: option.split)
  with Invite_Group_Member show ?thesis by simp
next
  case (Update_Group_Member_Role g u r)
  have "groups_ok (snd (update_group_member_role_admin caller g u r w))"
    unfolding update_group_member_role_admin_def
    by (rule groups_ok_check [OF ok], rule groups_ok_found [OF ok], rule groups_ok_target [OF ok],
        rule groups_ok_bind)
      (auto intro!: groups_ok_check groups_ok_update_role ok split: option.split)
  with Update_Group_Member_Role show ?thesis by simp
next
  case (Remove_Group_Member g u)
  have "groups_ok (snd (remove_group_member_admin caller g u w))"
    unfolding remove_group_member_admin_def
    by (rule groups_ok_check [OF ok], rule groups_ok_found [OF ok], rule groups_ok_target [OF ok])
      (simp add: groups_ok_remove_member ok)
  with Remove_Group_Member show ?thesis by simp
qed

section \<open>Frames\<close>

text \<open>The rows of every group but one.\<close>

definition outside :: "uid \<Rightarrow> 'r world \<Rightarrow> spot_group list \<times> group_member list \<times> group_spot list" where
  "outside k w = (filter (\<lambda>g. g_uid g \<noteq> k) (spot_groups w),
     filter (\<lambda>m. gm_group_uid m \<noteq> k) (group_members w),
     filter (\<lambda>x. gs_group_uid x \<noteq> k) (group_spots w))"

lemma outside_update:
  assumes "g_uid g = k"
  shows "outside k (snd (update_group t g data w)) = outside k w"
proof (cases "set_group_attrs data g")
  case (Some changed)
  then have "g_uid (if changed = g then g else changed\<lparr>g_updated_at := Some t\<rparr>) = k"
    using assms by (simp add: set_group_attrs_uid)
  then show ?thesis
    using assms Some by (simp add: update_group_def Let_def outside_def filter_update_where)
qed (simp add: update_group_def)

lemma outside_delete: "g_uid g = k \<Longrightarrow> outside k (delete_group g w) = outside k w"
  by (simp add: outside_def delete_group_def delete_where_def)

lemma outside_add_member: "outside k (snd (add_member t k u r by w)) = outside k w"
  by (auto simp: add_member_def Let_def check_def outside_def insert_row_Some
      split: option.split sum.split)

lemma outside_stored_spot: "outside k (snd (stored_spot_item s3 cfg t k s by w)) = outside k w"
  unfolding stored_spot_item_def
  by (rule bindR_state) (auto simp: add_spot_def Let_def check_def outside_def insert_row_Some
      split: option.split sum.split)

lemma outside_remove_spot: "outside k (snd (remove_spot k s w)) = outside k w"
  by (auto simp: remove_spot_def check_def outside_def intro!: filter_delete_where split: sum.split)

lemma outside_update_role:
  "gm_group_uid m = k \<Longrightarrow> outside k (snd (update_member_role m r w)) = outside k w"
  by (auto simp: update_member_role_def outside_def member_key_def intro!: filter_update_where)

lemma outside_remove_member:
  "gm_group_uid m = k \<Longrightarrow> outside k (snd (remove_member m w)) = outside k w"
  by (auto simp: remove_member_def outside_def member_key_def intro!: filter_delete_where)

lemmas outside_simps = outside_update outside_delete outside_add_member outside_stored_spot
  outside_remove_spot outside_update_role outside_remove_member

text \<open>A gated handler fails at its gate or runs its body.\<close>

lemma gated_cases:
  obtains e where "check (require_group_role r caller k w) w body = raise e w"
  | g m u where "check (require_group_role r caller k w) w body = body (g, m)"
      and "caller = Inr u" and "g_uid g = k" and "m \<in> set (group_members w)"
      and "gm_group_uid m = k" and "gm_user_uid m = u_uid u" and "r \<le> gm_role m"
proof (cases "require_group_role r caller k w")
  case (Inl e)
  then show ?thesis by (intro that(1) [of e]) (simp add: raise_def)
next
  case (Inr gm)
  then obtain g m where ok: "require_group_role r caller k w = Inr (g, m)" by (cases gm) simp
  then have "check (require_group_role r caller k w) w body = body (g, m)" by simp
  with ok show ?thesis by (elim require_group_role_mem) (rule that(2))
qed

definition gate_passed :: "user res \<Rightarrow> uid \<Rightarrow> group_role \<Rightarrow> 'r world \<Rightarrow> bool" where
  "gate_passed caller k r w \<longleftrightarrow> (\<exists>u m. caller = Inr u \<and> m \<in> set (group_members w)
     \<and> gm_group_uid m = k \<and> gm_user_uid m = u_uid u \<and> r \<le> gm_role m)"

text \<open>
  A handler that is gated by a role and whose body keeps the other groups.
\<close>

lemma gated_frame:
  assumes run: "w' = snd (check (require_group_role r caller k w) w body)"
    and body: "\<And>g m. g_uid g = k \<Longrightarrow> gm_group_uid m = k \<Longrightarrow> outside k (snd (body (g, m))) = outside k w"
  shows "(w' = w \<or> gate_passed caller k r w) \<and> outside k w' = outside k w"
  by (rule gated_cases [of r caller k w body]) (auto simp: run body gate_passed_def)

lemma outside_check:
  "(\<And>x. c = Inr x \<Longrightarrow> outside k (snd (f x)) = outside k w) \<Longrightarrow>
     outside k (snd (check c w f)) = outside k w"
  by (cases c) auto

lemma outside_bind:
  "outside k (snd m) = outside k w \<Longrightarrow> (\<And>x w'. snd (f x w') = w') \<Longrightarrow>
     outside k (snd (bindR m f)) = outside k w"
  by (cases m; cases "fst m") (auto simp: bindR_def)

lemma gates_of_run:
  assumes gate: "request_gate req = Some (k, r)"
    and run: "w' = run_group_request s3 cfg now caller req w"
  shows "(w' = w \<or> gate_passed caller k r w) \<and> outside k w' = outside k w"
proof (cases req)
  case (Update_Group g data)
  with gate have kr: "k = g" "r = EDITOR" by simp_all
  show ?thesis
    unfolding run Update_Group run_group_request.simps update_group_endpoint_def kr
    by (rule gated_frame [OF refl]) (auto intro!: outside_bind outside_update)
next
  case (Delete_Group g)
  with gate have kr: "k = g" "r = OWNER" by simp_all
  show ?thesis
    unfolding run Delete_Group run_group_request.simps delete_group_endpoint_def kr
    by (rule gated_frame [OF refl]) (simp add: outside_delete)
next
  case (Add_Group_Spot g s)
  with gate have kr: "k = g" "r = CONTRIBUTOR" by simp_all
  show ?thesis
    unfolding run Add_Group_Spot run_group_request.simps add_group_spot_def kr
    by (rule gated_frame [OF refl]) (auto intro!: outside_check simp: outside_stored_spot split: option.split)
next
  case (Remove_Group_Spot g s)
  with gate have kr: "k = g" "r = EDITOR" by simp_all
  show ?thesis
    unfolding run Remove_Group_Spot run_group_request.simps remove_group_spot_def kr
    by (rule gated_frame [OF refl]) (auto intro!: outside_bind outside_remove_spot)
next
  case (Invite_Group_Member g u rl)
  with gate have kr: "k = g" "r = OWNER" by simp_all
  show ?thesis
    unfolding run Invite_Group_Member run_group_request.simps invite_group_member_def kr
    by (rule gated_frame [OF refl]) (auto intro!: outside_check outside_bind outside_add_member split: option.split)
next
  case (Update_Group_Member_Role g u rl)
  with gate have kr: "k = g" "r = OWNER" by simp_all
  show ?thesis
    unfolding run Update_Group_Member_Role run_group_request.simps update_group_member_role_def kr
    by (rule gated_frame [OF refl]) (auto intro!: outside_check outside_bind outside_update_role dest: target_member_mem)
next
  case (Remove_Group_Member g u)
  with gate have kr: "k = g" "r = OWNER" by simp_all
  show ?thesis
    unfolding run Remove_Group_Member run_group_request.simps remove_group_member_def kr
    by (rule gated_frame [OF refl]) (auto intro!: outside_check outside_remove_member dest: target_member_mem)
qed (use gate in simp)

section \<open>Properties\<close>

text \<open>The role the admin console asks for a request.\<close>

fun admin_gate :: "group_request \<Rightarrow> staff_role" where
  "admin_gate (Delete_Group _) = MANAGER"
| "admin_gate (Invite_Group_Member _ _ _) = MANAGER"
| "admin_gate (Update_Group_Member_Role _ _ _) = MANAGER"
| "admin_gate (Remove_Group_Member _ _) = MANAGER"
| "admin_gate _ = STAFF"

lemma STAFF_least [simp]: "STAFF \<le> r"
  by (cases r) (simp_all add: less_eq_staff_role_def STAFF_ROLE_RANK_def)

lemma check_unchanged: "snd (check c w f) \<noteq> w \<Longrightarrow> \<exists>x. c = Inr x"
  by (cases c) auto

lemma admin_gates_of_run:
  assumes "run_group_request_admin s3 cfg now caller req w \<noteq> w"
  shows "\<exists>u. caller = Inr u \<and> u_is_staff u \<and> admin_gate req \<le> u_staff_role u"
  using assms
  by (cases req) (auto simp: admin_group_defs as_staff_Inr as_role_Inr dest!: check_unchanged)

text \<open>
  C4: Group requests are gated.  A request to an existing group changes the database only
  when its caller is a member of that group with at least the role the action needs (editing
  and removing spots EDITOR, adding spots CONTRIBUTOR, deleting and managing members OWNER),
  and it never touches the rows of any other group.  From the admin console the caller must be
  staff, and MANAGER or higher for deleting a group and managing members.
\<close>

theorem group_requests_gated:
  fixes w :: "'r world"
  assumes "request_gate req = Some (k, r)"
  shows "(run_group_request s3 cfg now caller req w \<noteq> w \<longrightarrow>
            (\<exists>u m. caller = Inr u \<and> m \<in> set (group_members w) \<and> gm_group_uid m = k
               \<and> gm_user_uid m = u_uid u \<and> r \<le> gm_role m))
     \<and> outside k (run_group_request s3 cfg now caller req w) = outside k w
     \<and> (run_group_request_admin s3 cfg now caller req w \<noteq> w \<longrightarrow>
            (\<exists>u. caller = Inr u \<and> u_is_staff u \<and> admin_gate req \<le> u_staff_role u))"
  using gates_of_run [OF assms refl, of s3 cfg now caller w]
    admin_gates_of_run [of s3 cfg now caller req w]
  unfolding gate_passed_def by blast

definition sample_group :: spot_group where
  "sample_group = \<lparr>g_uid = ''g'', g_name = ''trip'', g_description = None,
     g_visibility = INVITE_ONLY, g_created_at = None, g_updated_at = None\<rparr>"

definition sample_member :: "uid \<Rightarrow> group_role \<Rightarrow> group_member" where
  "sample_member u r = \<lparr>gm_group_uid = ''g'', gm_user_uid = u, gm_role = r,
     gm_invited_by_uid = None, gm_created_at = None\<rparr>"

definition sample_groups :: "unit world" where
  "sample_groups = sample_accounts\<lparr>spot_groups := [sample_group],
     group_members := [sample_member ''ann'' OWNER, sample_member ''bob'' VIEWER]\<rparr>"

lemma sample_groups_sel [simp]:
  "spot_groups sample_groups = [sample_group]" "group_spots sample_groups = []"
  "group_members sample_groups = [sample_member ''ann'' OWNER, sample_member ''bob'' VIEWER]"
  "users sample_groups = [sample_user ''ann'', sample_user ''bob'']"
  "g_uid sample_group = ''g''" "g_visibility sample_group = INVITE_ONLY"
  "gm_group_uid (sample_member u r) = ''g''" "gm_user_uid (sample_member u r) = u"
  "gm_role (sample_member u r) = r"
  by (simp_all add: sample_groups_def sample_group_def sample_member_def sample_accounts_def
      empty_world_def)

lemma sample_groups_ok: "groups_ok sample_groups"
  by (simp add: groups_ok_def unique_key_def member_key_def count_owners_def)

lemma group_requests_gated_witness:
  "run_group_request map_s3 sample_settings 0 (Inr (sample_user ''bob'')) (Delete_Group ''g'')
     sample_groups = sample_groups"
  using group_requests_gated [of "Delete_Group ''g''" "''g''" OWNER map_s3 sample_settings 0
      "Inr (sample_user ''bob'')" sample_groups]
  by (auto simp: sample_user_def less_eq_group_role_def GROUP_ROLE_RANK_def)



section \<open>Two requests at once\<close>

text \<open>
  The guard of the last owner counts and the request deletes in two statements without a lock.
  When the two owners of a group leave it at once, each request counts two owners, so both
  succeed, and their deletions leave a group without an owner.  The theorems above run one
  request at a time.
\<close>

definition co_owned :: "unit world" where
  "co_owned = sample_groups\<lparr>group_members := [sample_member ''ann'' OWNER, sample_member ''bob'' OWNER]\<rparr>"

lemma last_owner_race:
  "fst (remove_member (sample_member ''ann'' OWNER) co_owned) = Inr ()"
  "fst (remove_member (sample_member ''bob'' OWNER) co_owned) = Inr ()"
  "count_owners ''g'' (co_owned\<lparr>group_members :=
     delete_where (\<lambda>x. member_key x = member_key (sample_member ''bob'' OWNER))
       (group_members (snd (remove_member (sample_member ''ann'' OWNER) co_owned)))\<rparr>) = 0"
  by code_simp+

end
