(* ===== verification/Spot_Admin.thy ===== *)
theory Spot_Admin
  imports Spot_Groups
begin

text \<open>
  The console's endpoints on spots, \<open>endpoints/internal_spots.py\<close>, and their part of
  \<open>schemas/spot.py\<close>: who may edit, assign, delete and restore a spot, and which steps its
  pipeline status may take.  \<open>set_audit_user\<close> only labels the rows the audit trigger writes
  and has no effect here.  The header of the total count is the second component of an answer.
  \<open>locked\<close> are the rows another transaction holds (\<open>SKIP LOCKED\<close>).
\<close>

section \<open>Answers\<close>

record spot_editable =
  se_title :: "string option"
  se_address :: "string option"
  se_address_detail :: "string option"
  se_region_province :: "string option"
  se_region_city :: "string option"
  se_postal_code :: "string option"
  se_phone :: "string option"
  se_description :: "string option"
  se_tagline :: "string option"
  se_latitude :: "rat option"
  se_longitude :: "rat option"
  se_altitude :: "rat option"
  se_unit_count :: "int option"
  se_is_fee_required :: "bool option"
  se_is_pet_allowed :: "bool option"
  se_pet_policy :: "string option"
  se_has_equipment_rental :: "string list option"
  se_themes :: "string list option"
  se_fire_pit_type :: "string option"
  se_amenities :: "string list option"
  se_nearby_facilities :: "string list option"
  se_camp_sight_type :: "string option"
  se_website_url :: "string option"
  se_booking_url :: "string option"
  se_features :: "string option"
  se_category :: "string list option"
  se_total_area_m2 :: "rat option"
  se_has_liability_insurance :: "bool option"
  se_pipeline_status :: "pipeline_status option"
  se_trust_tier :: "int option"

record spot_admin_detail = spot_editable +
  sd_uid :: uid
  sd_source :: "string option"
  sd_external_id :: "string option"
  sd_rating_avg :: rat
  sd_review_count :: int
  sd_assigned_to_uid :: "uid option"
  sd_deleted_at :: "instant option"
  sd_created_at :: "instant option"
  sd_updated_at :: "instant option"

definition admin_detail_of :: "spot \<Rightarrow> spot_admin_detail" where
  "admin_detail_of s =
     \<lparr>se_title = Some (s_title s), se_address = s_address s, se_address_detail = s_address_detail s,
      se_region_province = s_region_province s, se_region_city = s_region_city s,
      se_postal_code = s_postal_code s, se_phone = s_phone s, se_description = s_description s,
      se_tagline = s_tagline s, se_latitude = s_latitude s, se_longitude = s_longitude s,
      se_altitude = s_altitude s, se_unit_count = s_unit_count s,
      se_is_fee_required = s_is_fee_required s, se_is_pet_allowed = s_is_pet_allowed s,
      se_pet_policy = s_pet_policy s, se_has_equipment_rental = s_has_equipment_rental s,
      se_themes = s_themes s, se_fire_pit_type = s_fire_pit_type s, se_amenities = s_amenities s,
      se_nearby_facilities = s_nearby_facilities s, se_camp_sight_type = s_camp_sight_type s,
      se_website_url = s_website_url s, se_booking_url = s_booking_url s, se_features = s_features s,
      se_category = s_category s, se_total_area_m2 = s_total_area_m2 s,
      se_has_liability_insurance = s_has_liability_insurance s,
      se_pipeline_status = Some (s_pipeline_status s), se_trust_tier = s_trust_tier s,
      sd_uid = s_uid s, sd_source = s_source s, sd_external_id = s_external_id s,
      sd_rating_avg = s_rating_avg s, sd_review_count = s_review_count s,
      sd_assigned_to_uid = s_assigned_to_uid s, sd_deleted_at = s_deleted_at s,
      sd_created_at = s_created_at s, sd_updated_at = s_updated_at s\<rparr>"

record spot_admin_list_item =
  sl_uid :: uid
  sl_title :: string
  sl_source :: "string option"
  sl_region_province :: "string option"
  sl_region_city :: "string option"
  sl_rating_avg :: rat
  sl_review_count :: int
  sl_pipeline_status :: pipeline_status
  sl_trust_tier :: "int option"
  sl_deleted_at :: "instant option"
  sl_updated_at :: "instant option"

definition admin_list_item_of :: "spot \<Rightarrow> spot_admin_list_item" where
  "admin_list_item_of s =
     \<lparr>sl_uid = s_uid s, sl_title = s_title s, sl_source = s_source s,
      sl_region_province = s_region_province s, sl_region_city = s_region_city s,
      sl_rating_avg = s_rating_avg s, sl_review_count = s_review_count s,
      sl_pipeline_status = s_pipeline_status s, sl_trust_tier = s_trust_tier s,
      sl_deleted_at = s_deleted_at s, sl_updated_at = s_updated_at s\<rparr>"

section \<open>Reads\<close>

record group_of_spot_item =
  go_uid :: uid
  go_name :: string
  go_visibility :: group_visibility
  go_added_at :: "instant option"

definition list_spot_groups :: "user res \<Rightarrow> uid \<Rightarrow> 'r world \<Rightarrow> group_of_spot_item list res" where
  "list_spot_groups caller uid w =
     bindE (as_staff caller) (\<lambda>_.
       Inr (map (\<lambda>(g, added_at).
              \<lparr>go_uid = g_uid g, go_name = g_name g, go_visibility = g_visibility g, go_added_at = added_at\<rparr>)
             (list_groups_for_spot uid w)))"

definition list_spots_admin_endpoint ::
    "user res \<Rightarrow> int \<Rightarrow> int \<Rightarrow> string \<Rightarrow> string \<Rightarrow> string option \<Rightarrow> string option \<Rightarrow> string option
       \<Rightarrow> string option \<Rightarrow> string option \<Rightarrow> bool \<Rightarrow> 'r world \<Rightarrow> (spot_admin_list_item list \<times> nat) res" where
  "list_spots_admin_endpoint caller start to sort_field direction title_like region_province source
       pipeline_status assigned_to_uid include_deleted w =
     bindE (as_staff caller) (\<lambda>_.
       if start < 0 \<or> to < 0 then Inl RequestValidationError
       else if spot_column sort_field = None then Inl (app_error VALIDATION_ERROR)
       else case list_spots_admin (nat start) (nat (max (to - start) 0)) sort_field (str_lower direction)
              title_like
              [(''region_province'', region_province), (''source'', source),
               (''pipeline_status'', pipeline_status), (''assigned_to_uid'', assigned_to_uid)]
              include_deleted w of
            (items, n) \<Rightarrow> Inr (map admin_list_item_of items, n))"

definition spot_stats :: "user res \<Rightarrow> 'r world \<Rightarrow> spot_stats res" where
  "spot_stats caller w = bindE (as_staff caller) (\<lambda>staff. Inr (get_spot_stats (u_uid staff) w))"

definition distinct_values :: "user res \<Rightarrow> string \<Rightarrow> 'r world \<Rightarrow> string list res" where
  "distinct_values caller field w =
     bindE (as_staff caller) (\<lambda>_.
       if spot_filter_column field = None then Inl (app_error VALIDATION_ERROR)
       else list_distinct field w)"

definition find_spot :: "settings \<Rightarrow> uid \<Rightarrow> 'r world \<Rightarrow> spot res" where
  "find_spot cfg uid w =
     bindE (get_spot_by_uid cfg uid False w) (\<lambda>found.
       case found of None \<Rightarrow> Inl (app_error SPOT_NOT_FOUND) | Some s \<Rightarrow> Inr s)"

definition get_spot_admin :: "settings \<Rightarrow> user res \<Rightarrow> uid \<Rightarrow> 'r world \<Rightarrow> spot_admin_detail res" where
  "get_spot_admin cfg caller uid w =
     bindE (as_staff caller) (\<lambda>_.
     bindE (find_spot cfg uid w) (\<lambda>s. Inr (admin_detail_of s)))"

section \<open>Assignments\<close>

text \<open>The user a spot may be assigned to.\<close>

definition staff_target :: "uid \<Rightarrow> 'r world \<Rightarrow> user res" where
  "staff_target user_uid w =
     bindE (get_user_by_id user_uid w) (\<lambda>found.
       case found of
         None \<Rightarrow> Inl (app_error USER_NOT_FOUND)
       | Some t \<Rightarrow> if \<not> u_is_staff t then Inl (app_error USER_NOT_FOUND) else Inr t)"

definition valid_batch :: "int \<Rightarrow> bool" where
  "valid_batch n \<longleftrightarrow> 0 < n \<and> n \<le> 1000"

definition assign_spots_endpoint ::
    "instant \<Rightarrow> (uid \<Rightarrow> bool) \<Rightarrow> user res \<Rightarrow> uid \<Rightarrow> int \<Rightarrow> 'r world \<Rightarrow> nat res \<times> 'r world" where
  "assign_spots_endpoint now locked caller user_uid n w =
     check (as_role MANAGER caller) w (\<lambda>_.
       if \<not> valid_batch n then raise RequestValidationError w
       else check (staff_target user_uid w) w (\<lambda>_.
              case assign_spots now locked user_uid (nat n) w of (k, w') \<Rightarrow> ret k w'))"

definition bulk_assign_spots ::
    "instant \<Rightarrow> user res \<Rightarrow> uid list \<Rightarrow> uid \<Rightarrow> 'r world \<Rightarrow> nat res \<times> 'r world" where
  "bulk_assign_spots now caller spot_uids user_uid w =
     check (as_role MANAGER caller) w (\<lambda>_.
       if \<not> valid_batch (int (length spot_uids)) then raise RequestValidationError w
       else check (staff_target user_uid w) w (\<lambda>_.
              case assign_spots_bulk now spot_uids user_uid w of (k, w') \<Rightarrow> ret k w'))"

definition transfer_spot_assignments_endpoint ::
    "instant \<Rightarrow> (uid \<Rightarrow> bool) \<Rightarrow> user res \<Rightarrow> uid \<Rightarrow> uid \<Rightarrow> int \<Rightarrow> 'r world \<Rightarrow> nat res \<times> 'r world" where
  "transfer_spot_assignments_endpoint now locked caller from_user_uid to_user_uid n w =
     check (as_role MANAGER caller) w (\<lambda>_.
       if \<not> valid_batch n then raise RequestValidationError w
       else check (staff_target to_user_uid w) w (\<lambda>_.
              case transfer_spot_assignments now locked from_user_uid to_user_uid (nat n) w of
                (k, w') \<Rightarrow> ret k w'))"

definition detail_or_404 :: "spot option \<Rightarrow> 'r world \<Rightarrow> spot_admin_detail res \<times> 'r world" where
  "detail_or_404 found w =
     (case found of None \<Rightarrow> raise (app_error SPOT_NOT_FOUND) w | Some s \<Rightarrow> ret (admin_detail_of s) w)"

definition reassign_spot ::
    "'r redis_client option \<Rightarrow> settings \<Rightarrow> instant \<Rightarrow> user res \<Rightarrow> uid \<Rightarrow> uid option \<Rightarrow> 'r world
       \<Rightarrow> spot_admin_detail res \<times> 'r world" where
  "reassign_spot client cfg now caller uid user_uid w =
     check (as_role MANAGER caller) w (\<lambda>_.
     check (find_spot cfg uid w) w (\<lambda>_.
     check (case user_uid of None \<Rightarrow> Inr () | Some t \<Rightarrow> bindE (staff_target t w) (\<lambda>_. Inr ())) w (\<lambda>_.
       bindR (update_spot client cfg now uid [Set_assigned_to_uid user_uid] w) detail_or_404)))"

section \<open>Edits\<close>

definition ALLOWED_PIPELINE_TRANSITIONS :: "(pipeline_status \<times> pipeline_status) list" where
  "ALLOWED_PIPELINE_TRANSITIONS = [(ENRICHED, CURATED), (ENRICHED, REJECTED)]"

definition bulk_update_pipeline_status ::
    "'r redis_client option \<Rightarrow> instant \<Rightarrow> user res \<Rightarrow> uid list \<Rightarrow> pipeline_status \<Rightarrow> 'r world
       \<Rightarrow> (uid list \<times> uid list) res \<times> 'r world" where
  "bulk_update_pipeline_status client now caller uids status w =
     check (as_role SUPERUSER caller) w (\<lambda>_.
       if \<not> valid_batch (int (length uids)) then raise RequestValidationError w
       else case update_pipeline_status_bulk client now uids status w of
              (succeeded, w') \<Rightarrow> ret (succeeded, filter (\<lambda>uid. uid \<notin> set succeeded) uids) w')"

text \<open>
  The body of a PATCH: \<open>trust_tier\<close> lies in 1..3, and a key that is no field of the schema
  (\<open>assigned_to_uid\<close>) is ignored.
\<close>

fun valid_spot_attr :: "spot_attr \<Rightarrow> bool" where
  "valid_spot_attr (Set_trust_tier (Some n)) = (1 \<le> n \<and> n \<le> 3)"
| "valid_spot_attr _ = True"

fun editable_attr :: "spot_attr \<Rightarrow> bool" where
  "editable_attr (Set_assigned_to_uid _) = False"
| "editable_attr _ = True"

fun pipeline_attr :: "spot_attr \<Rightarrow> pipeline_status option option" where
  "pipeline_attr (Set_pipeline_status v) = Some v"
| "pipeline_attr _ = None"

text \<open>\<open>data["pipeline_status"]\<close>, when the key is there.\<close>

definition requested_status :: "spot_attr list \<Rightarrow> pipeline_status option option" where
  "requested_status data =
     (case List.map_filter pipeline_attr data of [] \<Rightarrow> None | vs \<Rightarrow> Some (last vs))"

definition transition_allowed :: "pipeline_status \<Rightarrow> pipeline_status option \<Rightarrow> bool" where
  "transition_allowed old new = (case new of None \<Rightarrow> False | Some n \<Rightarrow> (old, n) \<in> set ALLOWED_PIPELINE_TRANSITIONS)"

definition check_edit :: "user \<Rightarrow> spot \<Rightarrow> spot_attr list \<Rightarrow> unit res" where
  "check_edit staff current data =
     (let is_superuser = u_staff_role staff = SUPERUSER
      in if \<not> is_superuser \<and> s_pipeline_status current = ENRICHED
            \<and> (s_assigned_to_uid current = None \<or> s_assigned_to_uid current \<noteq> Some (u_uid staff))
         then Inl (app_error FORBIDDEN)
         else if requested_status data \<noteq> None \<and> \<not> is_superuser
            \<and> \<not> transition_allowed (s_pipeline_status current) (the (requested_status data))
         then Inl (app_error FORBIDDEN)
         else Inr ())"

definition update_spot_endpoint ::
    "'r redis_client option \<Rightarrow> settings \<Rightarrow> instant \<Rightarrow> user res \<Rightarrow> uid \<Rightarrow> spot_attr list \<Rightarrow> 'r world
       \<Rightarrow> spot_admin_detail res \<times> 'r world" where
  "update_spot_endpoint client cfg now caller uid body w =
     check (as_staff caller) w (\<lambda>staff.
       if \<not> list_all valid_spot_attr body then raise RequestValidationError w
       else
         let data = filter editable_attr body
         in check (find_spot cfg uid w) w (\<lambda>current.
            check (check_edit staff current data) w (\<lambda>_.
              bindR (update_spot client cfg now uid data w) detail_or_404)))"

definition delete_spot_endpoint ::
    "'r redis_client option \<Rightarrow> settings \<Rightarrow> instant \<Rightarrow> user res \<Rightarrow> uid \<Rightarrow> 'r world \<Rightarrow> unit res \<times> 'r world" where
  "delete_spot_endpoint client cfg now caller uid w =
     check (as_role MANAGER caller) w (\<lambda>_.
     check (find_spot cfg uid w) w (\<lambda>s. ret () (delete_spot client now s w)))"

definition restore_spot_endpoint ::
    "'r redis_client option \<Rightarrow> settings \<Rightarrow> instant \<Rightarrow> user res \<Rightarrow> uid \<Rightarrow> 'r world
       \<Rightarrow> spot_admin_detail res \<times> 'r world" where
  "restore_spot_endpoint client cfg now caller uid w =
     check (as_role MANAGER caller) w (\<lambda>_.
     check (find_spot cfg uid w) w (\<lambda>s.
       case restore_spot client now s w of (s', w') \<Rightarrow> ret (admin_detail_of s') w'))"

section \<open>The console's requests\<close>

datatype spot_request =
    Assign_Spots uid int
  | Bulk_Assign "uid list" uid
  | Transfer_Spots uid uid int
  | Bulk_Status "uid list" pipeline_status
  | Reassign_Spot uid "uid option"
  | Update_Spot uid "spot_attr list"
  | Delete_Spot uid
  | Restore_Spot uid

fun run_spot_request ::
    "'r redis_client option \<Rightarrow> settings \<Rightarrow> instant \<Rightarrow> (uid \<Rightarrow> bool) \<Rightarrow> user res \<Rightarrow> spot_request \<Rightarrow> 'r world
       \<Rightarrow> 'r world" where
  "run_spot_request client cfg now locked caller (Assign_Spots user_uid n) w =
     snd (assign_spots_endpoint now locked caller user_uid n w)"
| "run_spot_request client cfg now locked caller (Bulk_Assign uids user_uid) w =
     snd (bulk_assign_spots now caller uids user_uid w)"
| "run_spot_request client cfg now locked caller (Transfer_Spots a b n) w =
     snd (transfer_spot_assignments_endpoint now locked caller a b n w)"
| "run_spot_request client cfg now locked caller (Bulk_Status uids status) w =
     snd (bulk_update_pipeline_status client now caller uids status w)"
| "run_spot_request client cfg now locked caller (Reassign_Spot uid user_uid) w =
     snd (reassign_spot client cfg now caller uid user_uid w)"
| "run_spot_request client cfg now locked caller (Update_Spot uid body) w =
     snd (update_spot_endpoint client cfg now caller uid body w)"
| "run_spot_request client cfg now locked caller (Delete_Spot uid) w =
     snd (delete_spot_endpoint client cfg now caller uid w)"
| "run_spot_request client cfg now locked caller (Restore_Spot uid) w =
     snd (restore_spot_endpoint client cfg now caller uid w)"

text \<open>How each row of the table may differ after a request, row by row.\<close>

definition rows_related :: "(spot \<Rightarrow> spot \<Rightarrow> bool) \<Rightarrow> 'r world \<Rightarrow> 'r world \<Rightarrow> bool" where
  "rows_related Q w w' \<longleftrightarrow>
     (\<forall>s \<in> set (spots w). \<forall>s' \<in> set (spots w'). s_uid s' = s_uid s \<longrightarrow> Q s s')"

lemma rows_related_same:
  assumes "unique_key s_uid (spots w)" and "\<And>s. Q s s" and "spots w' = spots w"
  shows "rows_related Q w w'"
  unfolding rows_related_def assms(3) using assms(2) unique_key_eq [OF assms(1)] by metis

lemma rows_related_update:
  assumes u: "unique_key s_uid (spots w)" and "\<And>s. Q s s"
    and "spots w' = update_where P g (spots w)" and "\<And>s. P s \<Longrightarrow> s_uid (g s) = s_uid s"
    and "\<And>s. s \<in> set (spots w) \<Longrightarrow> P s \<Longrightarrow> Q s (g s)"
  shows "rows_related Q w w'"
  unfolding rows_related_def assms(3)
proof (intro ballI impI)
  fix s s'
  assume s: "s \<in> set (spots w)" and "s' \<in> set (update_where P g (spots w))" and uid: "s_uid s' = s_uid s"
  then obtain r where r: "r \<in> set (spots w)" "s' = (if P r then g r else r)"
    by (auto simp: set_update_where)
  then have "s_uid r = s_uid s" using uid assms(4) by (cases "P r") auto
  then have "r = s" using unique_key_eq [OF u r(1) s] by blast
  then show "Q s s'" using r assms(2,5) by (cases "P s") auto
qed

lemma rows_related_check:
  assumes "unique_key s_uid (spots w)" and "\<And>s. Q s s"
    and "\<And>x. c = Inr x \<Longrightarrow> rows_related Q w (snd (k x))"
  shows "rows_related Q w (snd (check c w k))"
  using assms rows_related_same [OF assms(1), of Q w] by (cases c) auto

text \<open>What a PATCH may set.\<close>

lemma set_spot_attr_keeps:
  assumes "set_spot_attr a s = Some s'"
  shows "s_uid s' = s_uid s" "s_source s' = s_source s" "s_external_id s' = s_external_id s"
    "s_rating_avg s' = s_rating_avg s" "s_review_count s' = s_review_count s"
    "s_deleted_at s' = s_deleted_at s"
    "editable_attr a \<Longrightarrow> s_assigned_to_uid s' = s_assigned_to_uid s"
    "pipeline_attr a = None \<Longrightarrow> s_pipeline_status s' = s_pipeline_status s"
    "pipeline_attr a = Some v \<Longrightarrow> v = Some (s_pipeline_status s')"
    "a = Set_assigned_to_uid t \<Longrightarrow> s_assigned_to_uid s' = t"
  using assms by (cases a; auto split: option.splits if_splits)+

lemma set_spot_attrs_keeps:
  "set_spot_attrs data s = Some s' \<Longrightarrow> s_uid s' = s_uid s \<and> s_source s' = s_source s
     \<and> s_external_id s' = s_external_id s \<and> s_rating_avg s' = s_rating_avg s
     \<and> s_review_count s' = s_review_count s \<and> s_deleted_at s' = s_deleted_at s
     \<and> (list_all editable_attr data \<longrightarrow> s_assigned_to_uid s' = s_assigned_to_uid s)"
proof (induction data arbitrary: s)
  case (Cons a as)
  then obtain s1 where "set_spot_attr a s = Some s1" "set_spot_attrs as s1 = Some s'"
    by (auto split: option.splits)
  with Cons.IH [of s1] set_spot_attr_keeps [of a s s1] show ?case by auto
qed simp

lemma requested_status_Nil [simp]: "requested_status [] = None"
  by (simp add: requested_status_def List.map_filter_def)

lemma requested_status_Cons [simp]:
  "requested_status (a # as) = (case requested_status as of None \<Rightarrow> pipeline_attr a | Some v \<Rightarrow> Some v)"
  by (auto simp: requested_status_def List.map_filter_def split: list.splits option.splits)

lemma set_spot_attrs_status:
  "set_spot_attrs data s = Some s' \<Longrightarrow>
     (case requested_status data of None \<Rightarrow> s_pipeline_status s' = s_pipeline_status s
      | Some v \<Rightarrow> v = Some (s_pipeline_status s'))"
proof (induction data arbitrary: s)
  case (Cons a as)
  then obtain s1 where s1: "set_spot_attr a s = Some s1" "set_spot_attrs as s1 = Some s'"
    by (auto split: option.splits)
  show ?case
  proof (cases "requested_status as")
    case None
    then have "s_pipeline_status s' = s_pipeline_status s1" using Cons.IH [OF s1(2)] by simp
    then show ?thesis using None set_spot_attr_keeps(8,9) [OF s1(1)] by (auto split: option.split)
  next
    case (Some v)
    then show ?thesis using Cons.IH [OF s1(2)] by simp
  qed
qed simp

lemma staff_target_Inr: "staff_target t w = Inr v \<Longrightarrow> v \<in> set (users w) \<and> u_uid v = t \<and> u_is_staff v"
  by (auto simp: staff_target_def get_user_by_id_def bindE_Inr_iff split: option.splits if_splits
      dest!: scalar_one_or_none_filter)

lemma find_spot_Inr:
  "find_spot cfg uid w = Inr s \<Longrightarrow>
     s \<in> set (spots w) \<and> s_uid s = uid \<and> get_spot_by_uid cfg uid False w = Inr (Some s)"
  by (auto simp: find_spot_def get_spot_by_uid_def bindE_Inr_iff split: option.splits
      dest!: scalar_one_or_none_filter)

text \<open>The changes of one spot the rules of the console permit.\<close>

definition permitted_change :: "user res \<Rightarrow> 'r world \<Rightarrow> spot \<Rightarrow> spot \<Rightarrow> bool" where
  "permitted_change caller w s s' \<longleftrightarrow> s' = s \<or>
     (\<exists>u. caller = Inr u \<and> u_is_staff u
        \<and> s_source s' = s_source s \<and> s_external_id s' = s_external_id s
        \<and> s_rating_avg s' = s_rating_avg s \<and> s_review_count s' = s_review_count s
        \<and> (s_pipeline_status s' \<noteq> s_pipeline_status s \<longrightarrow>
             u_staff_role u = SUPERUSER
             \<or> (s_pipeline_status s, s_pipeline_status s') \<in> set ALLOWED_PIPELINE_TRANSITIONS
               \<and> s_assigned_to_uid s = Some (u_uid u))
        \<and> (s_assigned_to_uid s' \<noteq> s_assigned_to_uid s \<longrightarrow> MANAGER \<le> u_staff_role u
             \<and> (\<forall>t. s_assigned_to_uid s' = Some t \<longrightarrow> (\<exists>v \<in> set (users w). u_uid v = t \<and> u_is_staff v)))
        \<and> (s_deleted_at s' \<noteq> s_deleted_at s \<longrightarrow> MANAGER \<le> u_staff_role u)
        \<and> (u_staff_role u = STAFF \<and> s_pipeline_status s = ENRICHED \<longrightarrow> s_assigned_to_uid s = Some (u_uid u)))"

lemma permitted_refl: "permitted_change caller w s s"
  by (simp add: permitted_change_def)

text \<open>Each operation on the rows.\<close>

lemma related_update_spot:
  assumes u: "unique_key s_uid (spots w)" and Q: "\<And>s. Q s s"
    and found: "get_spot_by_uid cfg uid False w = Inr (Some s)" and s: "s \<in> set (spots w)"
    and edit: "\<And>s'. set_spot_attrs data s = Some s' \<Longrightarrow> Q s (s'\<lparr>s_updated_at := Some now\<rparr>)"
  shows "rows_related Q w (snd (update_spot client cfg now uid data w))"
proof (cases "set_spot_attrs data s")
  case None
  then show ?thesis
    using rows_related_same [where Q = Q, OF u Q, of w] by (simp add: update_spot_def found)
next
  case (Some s')
  have rows: "spots (snd (update_spot client cfg now uid data w)) = spots (save_spot now s s' w)"
    using Some by (simp add: update_spot_def found)
  show ?thesis
  proof (cases "s' = s")
    case True
    then show ?thesis
      using rows_related_same [where Q = Q, OF u Q] rows by (simp add: save_spot_def)
  next
    case False
    have uid: "s_uid s' = s_uid s" using set_spot_attrs_keeps [OF Some] by simp
    show ?thesis
    proof (rule rows_related_update [where Q = Q and P = "\<lambda>x. s_uid x = s_uid s" and
          g = "\<lambda>_. s'\<lparr>s_updated_at := Some now\<rparr>", OF u Q])
      show "spots (snd (update_spot client cfg now uid data w)) =
          update_where (\<lambda>x. s_uid x = s_uid s) (\<lambda>_. s'\<lparr>s_updated_at := Some now\<rparr>) (spots w)"
        using False rows by (simp add: save_spot_def)
      show "s_uid x = s_uid s \<Longrightarrow> s_uid (s'\<lparr>s_updated_at := Some now\<rparr>) = s_uid x" for x
        using uid by simp
      show "Q x (s'\<lparr>s_updated_at := Some now\<rparr>)" if "x \<in> set (spots w)" "s_uid x = s_uid s" for x
        using unique_key_eq [OF u that(1) s that(2)] edit [OF Some] by simp
    qed
  qed
qed

lemma related_update_spots:
  assumes "unique_key s_uid (spots w)" and "\<And>s. Q s s"
    and "\<And>s. s_uid (f s) = s_uid s"
    and "\<And>s. s \<in> set (spots w) \<Longrightarrow> P s \<Longrightarrow> Q s ((f s)\<lparr>s_updated_at := Some now\<rparr>)"
    and "spots w' = spots (update_spots now P f w)"
  shows "rows_related Q w w'"
  by (rule rows_related_update [where Q = Q and P = P and
        g = "\<lambda>s. (f s)\<lparr>s_updated_at := Some now\<rparr>", OF assms(1,2)])
    (use assms in \<open>simp_all add: update_spots_def\<close>)

lemma pick_uids_row:
  assumes "unique_key s_uid (spots w)" and "s \<in> set (spots w)" and "s_uid s \<in> set (pick_uids locked P n w)"
  shows "P s"
proof -
  obtain x where "x \<in> set (spots w)" "s_uid x = s_uid s" "P x"
    using assms(3) by (auto simp: pick_uids_def dest!: in_set_takeD)
  then show ?thesis using unique_key_eq [OF assms(1), of x s] assms(2) by simp
qed

lemma related_assignment:
  assumes u: "unique_key s_uid (spots w)" and caller: "as_role MANAGER caller = Inr v"
    and target: "\<forall>t. user_uid = Some t \<longrightarrow> (\<exists>v \<in> set (users w). u_uid v = t \<and> u_is_staff v)"
    and rows: "spots w' = spots w \<or>
       spots w' = spots (update_spots now P (\<lambda>s. s\<lparr>s_assigned_to_uid := user_uid\<rparr>) w)"
  shows "rows_related (permitted_change caller w) w w'"
  using rows
proof (elim disjE)
  assume "spots w' = spots w"
  then show ?thesis by (rule rows_related_same [where Q = "permitted_change caller w", OF u permitted_refl])
next
  assume rows: "spots w' = spots (update_spots now P (\<lambda>s. s\<lparr>s_assigned_to_uid := user_uid\<rparr>) w)"
  have "caller = Inr v" "u_is_staff v" "MANAGER \<le> u_staff_role v"
    using caller by (simp_all add: as_role_Inr)
  moreover have "u_staff_role v \<noteq> STAFF"
    using \<open>MANAGER \<le> u_staff_role v\<close> by (auto simp: less_eq_staff_role_def STAFF_ROLE_RANK_def)
  ultimately show ?thesis
    by (intro related_update_spots [where Q = "permitted_change caller w", OF u permitted_refl _ _ rows])
      (auto simp: permitted_change_def target)
qed

lemma not_staff_rank: "MANAGER \<le> r \<Longrightarrow> r \<noteq> STAFF" "SUPERUSER \<le> r \<longleftrightarrow> r = SUPERUSER" "r = SUPERUSER \<Longrightarrow> MANAGER \<le> r"
  by (cases r; simp add: less_eq_staff_role_def STAFF_ROLE_RANK_def)+

lemma snd_bindR_detail [simp]: "snd (bindR m detail_or_404) = snd m"
  by (cases m; cases "fst m") (auto simp: bindR_def detail_or_404_def split: option.split)

lemma check_edit_Inr:
  "check_edit staff current data = Inr v \<Longrightarrow> u_staff_role staff = SUPERUSER \<or>
     (s_pipeline_status current = ENRICHED \<longrightarrow> s_assigned_to_uid current = Some (u_uid staff))
     \<and> (requested_status data \<noteq> None \<longrightarrow> transition_allowed (s_pipeline_status current) (the (requested_status data)))"
  by (auto simp: check_edit_def Let_def split: if_splits)

lemma from_enriched: "p \<in> set ALLOWED_PIPELINE_TRANSITIONS \<Longrightarrow> fst p = ENRICHED"
  by (auto simp: ALLOWED_PIPELINE_TRANSITIONS_def)

lemma edit_is_permitted:
  assumes "caller = Inr staff" "u_is_staff staff" and "check_edit staff s data = Inr v"
    and "list_all editable_attr data" and "set_spot_attrs data s = Some s'"
  shows "permitted_change caller w s (s'\<lparr>s_updated_at := Some now\<rparr>)"
proof -
  note keeps = set_spot_attrs_keeps [OF assms(5)]
  have step: "u_staff_role staff = SUPERUSER \<or> (s_pipeline_status s, s_pipeline_status s') \<in> set ALLOWED_PIPELINE_TRANSITIONS"
    if "s_pipeline_status s' \<noteq> s_pipeline_status s"
    using set_spot_attrs_status [OF assms(5)] check_edit_Inr [OF assms(3)] that
    by (auto simp: transition_allowed_def split: option.splits)
  have mine: "u_staff_role staff = SUPERUSER \<or> s_pipeline_status s \<noteq> ENRICHED
      \<or> s_assigned_to_uid s = Some (u_uid staff)"
    using check_edit_Inr [OF assms(3)] by auto
  have "u_staff_role staff = SUPERUSER \<or> (s_pipeline_status s, s_pipeline_status s') \<in> set ALLOWED_PIPELINE_TRANSITIONS
      \<and> s_assigned_to_uid s = Some (u_uid staff)" if "s_pipeline_status s' \<noteq> s_pipeline_status s"
    using step [OF that] mine from_enriched by fastforce
  then show ?thesis
    using assms(1,2,4) keeps mine unfolding permitted_change_def
    by (intro disjI2 exI [of _ staff]) (auto simp: list_all_iff)
qed

lemma rows_related_if:
  "(b \<Longrightarrow> rows_related Q w (snd x)) \<Longrightarrow> (\<not> b \<Longrightarrow> rows_related Q w (snd y)) \<Longrightarrow>
     rows_related Q w (snd (if b then x else y))"
  by simp

lemma run_spot_request_permitted:
  fixes w :: "'r world"
  assumes u: "unique_key s_uid (spots w)"
  shows "rows_related (permitted_change caller w) w (run_spot_request client cfg now locked caller req w)"
proof -
  let ?Q = "permitted_change caller w"
  note same = rows_related_same [where Q = ?Q, OF u permitted_refl]
  note chk = rows_related_check [where Q = ?Q, OF u permitted_refl] rows_related_if
  have assign: "rows_related ?Q w w'"
    if "as_role MANAGER caller = Inr v" "staff_target t w = Inr x"
      "spots w' = spots w \<or> spots w' = spots (update_spots now P (\<lambda>s. s\<lparr>s_assigned_to_uid := Some t\<rparr>) w)"
    for v t x P and w' :: "'r world"
    by (rule related_assignment [OF u that(1) _ that(3)]) (use staff_target_Inr [OF that(2)] in auto)
  show ?thesis
  proof (cases req)
    case (Assign_Spots t n)
    show ?thesis
      unfolding Assign_Spots run_spot_request.simps assign_spots_endpoint_def
      by (intro chk) (auto simp: assign_spots_def Let_def intro: same assign)
  next
    case (Bulk_Assign uids t)
    show ?thesis
      unfolding Bulk_Assign run_spot_request.simps bulk_assign_spots_def
      by (intro chk) (auto simp: assign_spots_bulk_def intro: same assign)
  next
    case (Transfer_Spots a b n)
    show ?thesis
      unfolding Transfer_Spots run_spot_request.simps transfer_spot_assignments_endpoint_def
      by (intro chk) (auto simp: transfer_spot_assignments_def Let_def intro: same assign)
  next
    case (Bulk_Status uids status)
    have "rows_related ?Q w (snd (update_pipeline_status_bulk client now uids status w))"
      if "as_role SUPERUSER caller = Inr v" for v
    proof -
      have v: "caller = Inr v" "u_is_staff v" "u_staff_role v = SUPERUSER"
        using that by (simp_all add: as_role_Inr not_staff_rank)
      then have "?Q s (s\<lparr>s_pipeline_status := status, s_updated_at := Some now\<rparr>)" for s
        by (simp add: permitted_change_def)
      then show ?thesis
        unfolding update_pipeline_status_bulk_def Let_def
        by (intro rows_related_if same related_update_spots [where Q = ?Q and now = now and
              f = "s_pipeline_status_update (\<lambda>_. status)" and
              P = "\<lambda>s. s_uid s \<in> set (map s_uid (filter (\<lambda>s. s_uid s \<in> set uids) (spots w)))",
              OF u permitted_refl]) simp_all
    qed
    then show ?thesis
      unfolding Bulk_Status run_spot_request.simps bulk_update_pipeline_status_def split_def
      by (intro chk) (auto intro: same)
  next
    case (Reassign_Spot uid t)
    have "rows_related ?Q w (snd (update_spot client cfg now uid [Set_assigned_to_uid t] w))"
      if m: "as_role MANAGER caller = Inr v" and f: "find_spot cfg uid w = Inr s"
        and target: "(case t of None \<Rightarrow> Inr () | Some t \<Rightarrow> bindE (staff_target t w) (\<lambda>_. Inr ())) = Inr y" for v s y
    proof (rule related_update_spot [where Q = ?Q, OF u permitted_refl])
      show "get_spot_by_uid cfg uid False w = Inr (Some s)" "s \<in> set (spots w)"
        using find_spot_Inr [OF f] by simp_all
      have v: "caller = Inr v" "u_is_staff v" "MANAGER \<le> u_staff_role v" "u_staff_role v \<noteq> STAFF"
        using m not_staff_rank by (auto simp: as_role_Inr)
      show "?Q s (s'\<lparr>s_updated_at := Some now\<rparr>)" if "set_spot_attrs [Set_assigned_to_uid t] s = Some s'" for s'
        using that v target
        by (auto simp: permitted_change_def bindE_Inr_iff split: option.splits dest!: staff_target_Inr)
    qed
    then show ?thesis
      unfolding Reassign_Spot run_spot_request.simps reassign_spot_def
      by (intro chk) (auto intro: same)
  next
    case (Update_Spot uid body)
    have "rows_related ?Q w (snd (update_spot client cfg now uid (filter editable_attr body) w))"
      if "as_staff caller = Inr staff" "find_spot cfg uid w = Inr s"
        "check_edit staff s (filter editable_attr body) = Inr y" for staff s y
      using that find_spot_Inr [OF that(2)]
      by (intro related_update_spot [where Q = ?Q, OF u permitted_refl])
        (auto simp: as_staff_Inr list_all_iff intro: edit_is_permitted)
    then show ?thesis
      unfolding Update_Spot run_spot_request.simps update_spot_endpoint_def Let_def
      by (intro chk) (auto intro: same)
  next
    case (Delete_Spot uid)
    have "rows_related ?Q w (delete_spot client now s w)" if "as_role MANAGER caller = Inr v" for v s
    proof -
      have v: "caller = Inr v" "u_is_staff v" "MANAGER \<le> u_staff_role v" "u_staff_role v \<noteq> STAFF"
        using that not_staff_rank by (auto simp: as_role_Inr)
      then have "?Q x (x\<lparr>s_deleted_at := Some now, s_updated_at := Some now\<rparr>)" for x
        by (simp add: permitted_change_def)
      then show ?thesis
        unfolding delete_spot_def
        by (intro related_update_spots [where Q = ?Q and now = now and P = "\<lambda>x. s_uid x = s_uid s" and
              f = "s_deleted_at_update (\<lambda>_. Some now)", OF u permitted_refl]) simp_all
    qed
    then show ?thesis
      unfolding Delete_Spot run_spot_request.simps delete_spot_endpoint_def
      by (intro chk) auto
  next
    case (Restore_Spot uid)
    have "rows_related ?Q w (snd (restore_spot client now s w))" if "as_role MANAGER caller = Inr v" for v s
    proof -
      have v: "caller = Inr v" "u_is_staff v" "MANAGER \<le> u_staff_role v" "u_staff_role v \<noteq> STAFF"
        using that not_staff_rank by (auto simp: as_role_Inr)
      then have "?Q x (x\<lparr>s_deleted_at := None, s_updated_at := Some now\<rparr>)" for x
        by (simp add: permitted_change_def)
      then show ?thesis
        unfolding restore_spot_def
        by (intro related_update_spots [where Q = ?Q and now = now and P = "\<lambda>x. s_uid x = s_uid s" and
              f = "s_deleted_at_update (\<lambda>_. None)", OF u permitted_refl]) simp_all
    qed
    then show ?thesis
      unfolding Restore_Spot run_spot_request.simps restore_spot_endpoint_def split_def
      by (intro chk) auto
  qed
qed

text \<open>
  C5: The workflow of a spot in the console.  Whatever request runs, a stored spot only changes
  at the hand of staff, and never in its source, its external id or its ratings.  Its pipeline
  status changes by a SUPERUSER, or along the two allowed transitions by the staff member the
  spot is assigned to; it is assigned, deleted and restored by rank MANAGER or higher, and
  assigned only to staff; and a plain STAFF member changes no spot that waits for
  verification (ENRICHED) unless it is assigned to them.
\<close>

theorem spot_workflow_guarded:
  fixes w :: "'r world"
  assumes "unique_key s_uid (spots w)" and "s \<in> set (spots w)"
    and "s' \<in> set (spots (run_spot_request client cfg now locked caller req w))" and "s_uid s' = s_uid s"
    and "s' \<noteq> s"
  shows "\<exists>u. caller = Inr u \<and> u_is_staff u
    \<and> s_source s' = s_source s \<and> s_external_id s' = s_external_id s
    \<and> s_rating_avg s' = s_rating_avg s \<and> s_review_count s' = s_review_count s
    \<and> (s_pipeline_status s' \<noteq> s_pipeline_status s \<longrightarrow>
         u_staff_role u = SUPERUSER
         \<or> (s_pipeline_status s, s_pipeline_status s') \<in> set ALLOWED_PIPELINE_TRANSITIONS
           \<and> s_assigned_to_uid s = Some (u_uid u))
    \<and> (s_assigned_to_uid s' \<noteq> s_assigned_to_uid s \<longrightarrow> MANAGER \<le> u_staff_role u
         \<and> (\<forall>t. s_assigned_to_uid s' = Some t \<longrightarrow> (\<exists>v \<in> set (users w). u_uid v = t \<and> u_is_staff v)))
    \<and> (s_deleted_at s' \<noteq> s_deleted_at s \<longrightarrow> MANAGER \<le> u_staff_role u)
    \<and> (u_staff_role u = STAFF \<and> s_pipeline_status s = ENRICHED \<longrightarrow> s_assigned_to_uid s = Some (u_uid u))"
proof -
  have "permitted_change caller w s s'"
    using run_spot_request_permitted [OF assms(1), of caller client cfg now locked req] assms(2,3,4)
    unfolding rows_related_def by blast
  then show ?thesis using assms(5) unfolding permitted_change_def by blast
qed

definition queue_spot :: spot where
  "queue_spot = sample_spot ''a'' \<lparr>s_pipeline_status := ENRICHED, s_assigned_to_uid := Some ''ann''\<rparr>"

definition queue_world :: "unit world" where
  "queue_world =
     three_spots\<lparr>users := [sample_user ''ann'' \<lparr>u_staff_role := STAFF\<rparr>],
       spots := [queue_spot]\<rparr>"

definition curated_spot :: spot where
  "curated_spot = queue_spot\<lparr>s_pipeline_status := CURATED, s_updated_at := Some 5\<rparr>"

abbreviation curate_request :: "unit world \<Rightarrow> unit world" where
  "curate_request \<equiv> run_spot_request None sample_settings 5 (\<lambda>_. False)
     (Inr (sample_user ''ann'' \<lparr>u_staff_role := STAFF\<rparr>)) (Update_Spot ''a'' [Set_pipeline_status (Some CURATED)])"

lemma queue_spot_sel [simp]:
  "s_uid queue_spot = ''a''" "s_pipeline_status queue_spot = ENRICHED" "s_assigned_to_uid queue_spot = Some ''ann''"
  by (simp_all add: queue_spot_def)

lemma curated_rows: "spots (curate_request queue_world) = [curated_spot]"
proof -
  have "queue_spot\<lparr>s_pipeline_status := CURATED\<rparr> \<noteq> queue_spot"
    by (auto dest: arg_cong [where f = s_pipeline_status])
  moreover have "u_uid (sample_user ''ann'') = ''ann''" "u_is_staff (sample_user ''ann'')"
    by (simp_all add: sample_user_def)
  moreover have "spots queue_world = [queue_spot]" by (simp add: queue_world_def)
  ultimately show ?thesis
    by (simp add: update_spot_endpoint_def as_staff_def require_staff_def find_spot_def get_spot_by_uid_def
        scalar_one_or_none_def check_edit_def transition_allowed_def ALLOWED_PIPELINE_TRANSITIONS_def
        update_spot_def save_spot_def curated_spot_def detail_or_404_def Let_def)
qed

lemma spot_workflow_guarded_witness:
  "(ENRICHED, CURATED) \<in> set ALLOWED_PIPELINE_TRANSITIONS
   \<and> spots (curate_request queue_world) = [curated_spot]"
proof -
  have role: "u_staff_role (sample_user ''ann'' \<lparr>u_staff_role := STAFF\<rparr>) = STAFF" by simp
  have u: "unique_key s_uid (spots queue_world)" and old: "queue_spot \<in> set (spots queue_world)"
    by (simp_all add: queue_world_def unique_key_def)
  have new: "curated_spot \<in> set (spots (curate_request queue_world))" unfolding curated_rows by simp
  have status: "s_pipeline_status curated_spot = CURATED" "s_pipeline_status queue_spot = ENRICHED"
      "s_uid curated_spot = s_uid queue_spot"
    by (simp_all add: curated_spot_def)
  then have "curated_spot \<noteq> queue_spot" by (metis pipeline_status.distinct(11))
  from spot_workflow_guarded [OF u old new status(3) this]
  show ?thesis
    using role curated_rows unfolding status by auto
qed

end
