(* ===== verification/Bulk.thy ===== *)
theory Bulk
  imports Spot_Admin
begin

text \<open>
  The bulk upserts of \<open>workers/spots_bulk.py\<close> and \<open>workers/spot_business_info_bulk.py\<close>, and
  the requests they take (\<open>schemas/spot.py\<close>, \<open>schemas/spot_business_info.py\<close>).

  A batch runs under nested savepoints: each row has one of its own, so a row that fails leaves
  the rows before it, and the whole batch has one, which is rolled back when any row failed or
  the batch is a dry run.  \<open>savepoint_batch\<close> is that shape, for any writer of rows; the
  locale \<open>row_writer\<close> is its contract.  \<open>fresh i\<close> is the uid drawn for row \<open>i\<close>.
\<close>

section \<open>Batches under savepoints\<close>

definition MAX_REASON_LEN :: nat where
  "MAX_REASON_LEN = 500"

definition row_failure :: "nat \<Rightarrow> exn \<Rightarrow> row_error" where
  "row_failure i exc = \<lparr>re_index = i, re_reason = sanitize_exc_message exc MAX_REASON_LEN\<rparr>"

fun run_rows ::
    "(nat \<Rightarrow> 'row \<Rightarrow> 's \<Rightarrow> 'a res \<times> 's) \<Rightarrow> nat \<Rightarrow> 'row list \<Rightarrow> 's \<Rightarrow> row_error list \<times> 'a list \<times> 's" where
  "run_rows put i [] s = ([], [], s)"
| "run_rows put i (row # rows) s =
     (case put i row s of
        (Inl exc, _) \<Rightarrow>
          (case run_rows put (Suc i) rows s of (errors, xs, t) \<Rightarrow> (row_failure i exc # errors, xs, t))
      | (Inr x, s') \<Rightarrow>
          (case run_rows put (Suc i) rows s' of (errors, xs, t) \<Rightarrow> (errors, x # xs, t)))"

definition savepoint_batch ::
    "(nat \<Rightarrow> 'row \<Rightarrow> 's \<Rightarrow> 'a res \<times> 's) \<Rightarrow> ('a list \<Rightarrow> 's \<Rightarrow> 's) \<Rightarrow> bool \<Rightarrow> 'row list \<Rightarrow> 's
       \<Rightarrow> bulk_result \<times> 's" where
  "savepoint_batch put finish dry_run rows s =
     (case run_rows put 0 rows s of (errors, xs, s') \<Rightarrow>
        let rolled_back = errors \<noteq> [] \<or> dry_run;
            succeeded = (if rolled_back \<and> errors \<noteq> [] then 0 else length xs)
        in (\<lparr>br_succeeded = succeeded, br_failed = length errors, br_dry_run = dry_run,
             br_errors = errors\<rparr>,
            if rolled_back then s else finish xs s'))"

lemma run_rows_lengths:
  "run_rows put i rows s = (errors, xs, t) \<Longrightarrow> length errors + length xs = length rows"
  by (induction rows arbitrary: i s errors xs t) (auto split: sum.splits prod.splits)

lemma run_rows_indices:
  "run_rows put i rows s = (errors, xs, t) \<Longrightarrow>
     sorted_wrt (<) (map re_index errors) \<and> (\<forall>e \<in> set errors. i \<le> re_index e \<and> re_index e < i + length rows)"
proof (induction rows arbitrary: i s errors xs t)
  case (Cons row rows)
  obtain es ys u where rest: "run_rows put (Suc i) rows (case put i row s of (Inl _, _) \<Rightarrow> s | (Inr _, s') \<Rightarrow> s')
      = (es, ys, u)" by (metis prod_cases3)
  note IH = Cons.IH [OF rest]
  have "errors = es \<or> (\<exists>exc. errors = row_failure i exc # es)"
    using Cons.prems rest by (auto split: sum.splits prod.splits)
  then show ?case using IH by (fastforce simp: row_failure_def)
qed simp

lemma run_rows_reasons:
  "run_rows put i rows s = (errors, xs, t) \<Longrightarrow> e \<in> set errors \<Longrightarrow> str_len (re_reason e) \<le> MAX_REASON_LEN + 3"
  by (induction rows arbitrary: i s errors xs t)
    (auto simp: row_failure_def sanitize_length split: sum.splits prod.splits)

text \<open>The rows written one after the other, as long as none of them fails.\<close>

fun write_all :: "(nat \<Rightarrow> 'row \<Rightarrow> 's \<Rightarrow> 'a res \<times> 's) \<Rightarrow> nat \<Rightarrow> 'row list \<Rightarrow> 's \<Rightarrow> ('a list \<times> 's) option" where
  "write_all put i [] s = Some ([], s)"
| "write_all put i (row # rows) s =
     (case put i row s of
        (Inl _, _) \<Rightarrow> None
      | (Inr x, s') \<Rightarrow> map_option (\<lambda>(xs, t). (x # xs, t)) (write_all put (Suc i) rows s'))"

lemma run_rows_all:
  "write_all put i rows s = (case run_rows put i rows s of
     (errors, xs, t) \<Rightarrow> if errors = [] then Some (xs, t) else None)"
  by (induction rows arbitrary: i s) (auto split: sum.splits prod.splits)

text \<open>A writer that keeps an invariant, and what the batch makes of it.\<close>

locale row_writer =
  fixes put :: "nat \<Rightarrow> 'row \<Rightarrow> 's \<Rightarrow> 'a res \<times> 's" and inv :: "'s \<Rightarrow> bool"
    and finish :: "'a list \<Rightarrow> 's \<Rightarrow> 's"
  assumes write_inv: "inv s \<Longrightarrow> put i row s = (Inr x, t) \<Longrightarrow> inv t"
    and finish_inv: "inv s \<Longrightarrow> inv (finish xs s)"
begin

lemma run_rows_inv: "inv s \<Longrightarrow> run_rows put i rows s = (errors, xs, t) \<Longrightarrow> inv t"
  by (induction rows arbitrary: i s errors xs t) (auto split: sum.splits prod.splits dest: write_inv)

lemma batch_inv: "inv s \<Longrightarrow> inv (snd (savepoint_batch put finish dry_run rows s))"
  by (auto simp: savepoint_batch_def Let_def split: prod.split intro: finish_inv dest: run_rows_inv)

text \<open>All or nothing: the batch is the rows one after the other, or it changes nothing.\<close>

lemma batch_spec:
  "(case write_all put 0 rows s of
      Some (xs, t) \<Rightarrow> savepoint_batch put finish dry_run rows s =
        (\<lparr>br_succeeded = length rows, br_failed = 0, br_dry_run = dry_run, br_errors = []\<rparr>,
         if dry_run then s else finish xs t)
    | None \<Rightarrow> snd (savepoint_batch put finish dry_run rows s) = s
        \<and> br_succeeded (fst (savepoint_batch put finish dry_run rows s)) = 0
        \<and> 0 < br_failed (fst (savepoint_batch put finish dry_run rows s)))"
proof -
  obtain errors xs t where run: "run_rows put 0 rows s = (errors, xs, t)" by (metis prod_cases3)
  then show ?thesis
    using run_rows_lengths [OF run]
    by (auto simp: run_rows_all savepoint_batch_def Let_def)
qed

lemma dry_run_predicts:
  "fst (savepoint_batch put finish dry_run rows s) =
     (fst (savepoint_batch put finish False rows s))\<lparr>br_dry_run := dry_run\<rparr>"
  by (auto simp: savepoint_batch_def Let_def split: prod.split)

end

section \<open>Spots\<close>

text \<open>
  A row extends the editable fields; \<open>title\<close> is required.  PostgreSQL's \<open>integer\<close> has 32 bits.
\<close>

record spot_bulk_row = spot_editable +
  sb_source :: "string option"
  sb_external_id :: "string option"
  sb_rating_avg :: rat
  sb_review_count :: int

record 'row bulk_request =
  bk_dry_run :: bool
  bk_rows :: "'row list"

definition coordinates_valid :: "spot_bulk_row \<Rightarrow> bool" where
  "coordinates_valid row =
     (case (se_latitude row, se_longitude row) of
        (Some lat, Some lng) \<Rightarrow> is_within_korea lat lng
      | _ \<Rightarrow> True)"

definition valid_spot_row :: "spot_bulk_row \<Rightarrow> bool" where
  "valid_spot_row row \<longleftrightarrow> se_title row \<noteq> None
     \<and> (case se_trust_tier row of None \<Rightarrow> True | Some n \<Rightarrow> 1 \<le> n \<and> n \<le> 3) \<and> coordinates_valid row"

definition valid_bulk :: "('row \<Rightarrow> bool) \<Rightarrow> 'row bulk_request \<Rightarrow> bool" where
  "valid_bulk valid request \<longleftrightarrow> 1 \<le> length (bk_rows request) \<and> length (bk_rows request) \<le> 5000
     \<and> list_all valid (bk_rows request)"

definition int4 :: "int option \<Rightarrow> bool" where
  "int4 v = (case v of None \<Rightarrow> True | Some n \<Rightarrow> - (2 ^ 31) \<le> n \<and> n < 2 ^ 31)"

abbreviation data_error :: exn where
  "data_error \<equiv> PyError ''DBAPIError'' ''''"

definition overlay :: "'a option \<Rightarrow> 'a option \<Rightarrow> 'a option" where
  "overlay new old = (case new of None \<Rightarrow> old | Some v \<Rightarrow> Some v)"

definition write_columns :: "spot_bulk_row \<Rightarrow> spot \<Rightarrow> spot" where
  "write_columns row s = s\<lparr>
     s_title := (case se_title row of None \<Rightarrow> s_title s | Some t \<Rightarrow> t),
     s_address := overlay (se_address row) (s_address s),
     s_address_detail := overlay (se_address_detail row) (s_address_detail s),
     s_region_province := overlay (se_region_province row) (s_region_province s),
     s_region_city := overlay (se_region_city row) (s_region_city s),
     s_postal_code := overlay (se_postal_code row) (s_postal_code s),
     s_phone := overlay (se_phone row) (s_phone s),
     s_description := overlay (se_description row) (s_description s),
     s_tagline := overlay (se_tagline row) (s_tagline s),
     s_latitude := overlay (se_latitude row) (s_latitude s),
     s_longitude := overlay (se_longitude row) (s_longitude s),
     s_altitude := overlay (se_altitude row) (s_altitude s),
     s_unit_count := overlay (se_unit_count row) (s_unit_count s),
     s_is_fee_required := overlay (se_is_fee_required row) (s_is_fee_required s),
     s_is_pet_allowed := overlay (se_is_pet_allowed row) (s_is_pet_allowed s),
     s_pet_policy := overlay (se_pet_policy row) (s_pet_policy s),
     s_has_equipment_rental := overlay (se_has_equipment_rental row) (s_has_equipment_rental s),
     s_themes := overlay (se_themes row) (s_themes s),
     s_fire_pit_type := overlay (se_fire_pit_type row) (s_fire_pit_type s),
     s_amenities := overlay (se_amenities row) (s_amenities s),
     s_nearby_facilities := overlay (se_nearby_facilities row) (s_nearby_facilities s),
     s_camp_sight_type := overlay (se_camp_sight_type row) (s_camp_sight_type s),
     s_website_url := overlay (se_website_url row) (s_website_url s),
     s_booking_url := overlay (se_booking_url row) (s_booking_url s),
     s_features := overlay (se_features row) (s_features s),
     s_category := overlay (se_category row) (s_category s),
     s_total_area_m2 := overlay (se_total_area_m2 row) (s_total_area_m2 s),
     s_has_liability_insurance := overlay (se_has_liability_insurance row) (s_has_liability_insurance s),
     s_pipeline_status := (case se_pipeline_status row of None \<Rightarrow> s_pipeline_status s | Some p \<Rightarrow> p),
     s_trust_tier := overlay (se_trust_tier row) (s_trust_tier s),
     s_rating_avg := sb_rating_avg row,
     s_review_count := sb_review_count row\<rparr>"

text \<open>The row of an INSERT before its columns are written: the defaults of the table.\<close>

definition blank_spot :: "uid \<Rightarrow> instant \<Rightarrow> string option \<Rightarrow> string option \<Rightarrow> spot" where
  "blank_spot fresh now source external_id =
     \<lparr>s_uid = fresh, s_source = source, s_external_id = external_id, s_title = [], s_address = None,
      s_address_detail = None, s_region_province = None, s_region_city = None, s_postal_code = None,
      s_phone = None, s_description = None, s_tagline = None, s_latitude = None, s_longitude = None,
      s_altitude = None, s_unit_count = None, s_is_fee_required = None, s_is_pet_allowed = None,
      s_pet_policy = None, s_has_equipment_rental = None, s_themes = None, s_fire_pit_type = None,
      s_amenities = None, s_nearby_facilities = None, s_camp_sight_type = None, s_rating_avg = 0,
      s_review_count = 0, s_pipeline_status = RAW, s_trust_tier = None, s_last_verified_at = None,
      s_website_url = None, s_booking_url = None, s_features = None, s_category = None,
      s_total_area_m2 = None, s_has_liability_insurance = None, s_created_at = Some now,
      s_updated_at = Some now, s_deleted_at = None, s_assigned_to_uid = None\<rparr>"

text \<open>The conflict key of a row, when both columns have a value.\<close>

definition conflict_key :: "string option \<Rightarrow> string option \<Rightarrow> (string \<times> string) option" where
  "conflict_key source external_id =
     (case (source, external_id) of (Some a, Some b) \<Rightarrow> Some (a, b) | _ \<Rightarrow> None)"

definition spot_key :: "spot \<Rightarrow> (string \<times> string) option" where
  "spot_key s = conflict_key (s_source s) (s_external_id s)"

definition row_key :: "spot_bulk_row \<Rightarrow> (string \<times> string) option" where
  "row_key row = conflict_key (sb_source row) (sb_external_id row)"

definition upsert_spot_row ::
    "uid \<Rightarrow> instant \<Rightarrow> spot_bulk_row \<Rightarrow> 'r world \<Rightarrow> uid res \<times> 'r world" where
  "upsert_spot_row fresh now row w =
     (if \<not> int4 (se_unit_count row) \<or> \<not> int4 (Some (sb_review_count row)) then raise data_error w
      else case (if row_key row = None then None else find (\<lambda>s. spot_key s = row_key row) (spots w)) of
        Some s \<Rightarrow>
          ret (s_uid s)
            (w\<lparr>spots := update_where (\<lambda>x. spot_key x = row_key row) (write_columns row) (spots w)\<rparr>)
      | None \<Rightarrow>
          (case insert_row s_uid
                  (write_columns row (blank_spot fresh now (sb_source row) (sb_external_id row))) (spots w) of
             None \<Rightarrow> raise integrity_error w
           | Some rows \<Rightarrow> ret fresh (w\<lparr>spots := rows\<rparr>)))"

definition refresh_caches :: "'r redis_client option \<Rightarrow> uid list \<Rightarrow> 'r world \<Rightarrow> 'r world" where
  "refresh_caches client uids w = invalidate_details client uids (bump_spots client w)"

definition spots_bulk_upsert_handler ::
    "'r redis_client option \<Rightarrow> (nat \<Rightarrow> uid) \<Rightarrow> instant \<Rightarrow> spot_bulk_row bulk_request \<Rightarrow> 'r world
       \<Rightarrow> bulk_result res \<times> 'r world" where
  "spots_bulk_upsert_handler client fresh now request w =
     (if \<not> valid_bulk valid_spot_row request then raise (PyError ''ValidationError'' '''') w
      else case savepoint_batch (\<lambda>i. upsert_spot_row (fresh i) now) (refresh_caches client)
                  (bk_dry_run request) (bk_rows request) w of
             (result, w') \<Rightarrow> ret result w')"

section \<open>Business information\<close>

record business_row =
  bb_spot_external_id :: string
  bb_business_reg_no :: "string option"
  bb_tourism_business_reg_no :: "string option"
  bb_business_type :: "string option"
  bb_operation_type :: "string option"
  bb_operating_agency :: "string option"
  bb_operating_status :: "string option"
  bb_national_park_no :: "int option"
  bb_national_park_office_code :: "string option"
  bb_national_park_serial_no :: "string option"
  bb_national_park_category_code :: "string option"
  bb_licensed_at :: "int option"

definition external_id_mapping :: "string list \<Rightarrow> 'r world \<Rightarrow> string \<Rightarrow> uid list" where
  "external_id_mapping external_ids w external_id =
     map s_uid (filter (\<lambda>s. s_external_id s = Some external_id \<and> external_id \<in> set external_ids) (spots w))"

definition write_info :: "business_row \<Rightarrow> business_info \<Rightarrow> business_info" where
  "write_info row b = b\<lparr>
     bi_business_reg_no := overlay (bb_business_reg_no row) (bi_business_reg_no b),
     bi_tourism_business_reg_no := overlay (bb_tourism_business_reg_no row) (bi_tourism_business_reg_no b),
     bi_business_type := overlay (bb_business_type row) (bi_business_type b),
     bi_operation_type := overlay (bb_operation_type row) (bi_operation_type b),
     bi_operating_agency := overlay (bb_operating_agency row) (bi_operating_agency b),
     bi_operating_status := overlay (bb_operating_status row) (bi_operating_status b),
     bi_national_park_no := overlay (bb_national_park_no row) (bi_national_park_no b),
     bi_national_park_office_code := overlay (bb_national_park_office_code row) (bi_national_park_office_code b),
     bi_national_park_serial_no := overlay (bb_national_park_serial_no row) (bi_national_park_serial_no b),
     bi_national_park_category_code := overlay (bb_national_park_category_code row) (bi_national_park_category_code b),
     bi_licensed_at := overlay (bb_licensed_at row) (bi_licensed_at b)\<rparr>"

definition blank_info :: "uid \<Rightarrow> instant \<Rightarrow> uid \<Rightarrow> business_info" where
  "blank_info fresh now spot_uid =
     \<lparr>bi_uid = fresh, bi_spot_uid = spot_uid, bi_business_reg_no = None, bi_tourism_business_reg_no = None,
      bi_business_type = None, bi_operation_type = None, bi_operating_agency = None,
      bi_operating_status = None, bi_national_park_no = None, bi_national_park_office_code = None,
      bi_national_park_serial_no = None, bi_national_park_category_code = None, bi_licensed_at = None,
      bi_created_at = Some now, bi_updated_at = Some now\<rparr>"

definition upsert_business_info_row ::
    "uid \<Rightarrow> instant \<Rightarrow> uid \<Rightarrow> business_row \<Rightarrow> 'r world \<Rightarrow> unit res \<times> 'r world" where
  "upsert_business_info_row fresh now spot_uid row w =
     check (scalar_one_or_none multiple_results (filter (\<lambda>b. bi_spot_uid b = spot_uid) (business_infos w))) w
       (\<lambda>existing.
         if \<not> int4 (bb_national_park_no row) then raise data_error w
         else case existing of
           Some b \<Rightarrow>
             let b' = write_info row b
             in ret () (if b' = b then w
                  else w\<lparr>business_infos := update_where (\<lambda>x. bi_uid x = bi_uid b)
                           (\<lambda>_. b'\<lparr>bi_updated_at := Some now\<rparr>) (business_infos w)\<rparr>)
         | None \<Rightarrow>
             (case insert_row bi_uid (write_info row (blank_info fresh now spot_uid)) (business_infos w) of
                None \<Rightarrow> raise integrity_error w
              | Some rows \<Rightarrow> ret () (w\<lparr>business_infos := rows\<rparr>)))"

definition business_step ::
    "(string \<Rightarrow> uid list) \<Rightarrow> uid \<Rightarrow> instant \<Rightarrow> business_row \<Rightarrow> 'r world \<Rightarrow> unit res \<times> 'r world" where
  "business_step mapping fresh now row w =
     (case mapping (bb_spot_external_id row) of
        [] \<Rightarrow> raise (PyError ''ValueError'' (''spot_external_id '' @ py_repr (bb_spot_external_id row) @ '' not found'')) w
      | [uid] \<Rightarrow> upsert_business_info_row fresh now uid row w
      | _ \<Rightarrow> raise (PyError ''ValueError'' (''spot_external_id '' @ py_repr (bb_spot_external_id row) @ '' is ambiguous'')) w)"

definition spot_business_info_bulk_upsert_handler ::
    "(nat \<Rightarrow> uid) \<Rightarrow> instant \<Rightarrow> business_row bulk_request \<Rightarrow> 'r world \<Rightarrow> bulk_result res \<times> 'r world" where
  "spot_business_info_bulk_upsert_handler fresh now request w =
     (if \<not> valid_bulk (\<lambda>_. True) request then raise (PyError ''ValidationError'' '''') w
      else let mapping = external_id_mapping (map bb_spot_external_id (bk_rows request)) w
           in case savepoint_batch (\<lambda>i. business_step mapping (fresh i) now) (\<lambda>_ w. w)
                     (bk_dry_run request) (bk_rows request) w of
                (result, w') \<Rightarrow> ret result w')"

section \<open>What the batches keep\<close>

lemma write_columns_sel [simp]:
  "s_uid (write_columns row s) = s_uid s" "s_source (write_columns row s) = s_source s"
  "s_external_id (write_columns row s) = s_external_id s"
  "s_rating_avg (write_columns row s) = sb_rating_avg row"
  "s_review_count (write_columns row s) = sb_review_count row"
  "s_deleted_at (write_columns row s) = s_deleted_at s"
  "s_assigned_to_uid (write_columns row s) = s_assigned_to_uid s"
  "se_title row = Some t \<Longrightarrow> s_title (write_columns row s) = t"
  by (simp_all add: write_columns_def)

lemma spot_key_written [simp]: "spot_key (write_columns row s) = spot_key s"
  by (simp add: spot_key_def)

lemma blank_spot_sel [simp]:
  "s_uid (blank_spot fresh now a b) = fresh" "spot_key (blank_spot fresh now a b) = conflict_key a b"
  by (simp_all add: blank_spot_def spot_key_def)

text \<open>The constraints of the table of spots: the key, and one spot of a source and external id.\<close>

definition keyed :: "spot list \<Rightarrow> (string \<times> string) option list" where
  "keyed rows = filter (\<lambda>k. k \<noteq> None) (map spot_key rows)"

definition catalog_ok :: "'r world \<Rightarrow> bool" where
  "catalog_ok w \<longleftrightarrow> unique_key s_uid (spots w) \<and> distinct (keyed (spots w))"

lemma keyed_update: "keyed (update_where P (write_columns row) rows) = keyed rows"
  by (simp add: keyed_def map_key_update_where)

lemma set_keyed: "k \<in> set (keyed rows) \<longleftrightarrow> k \<noteq> None \<and> (\<exists>s \<in> set rows. spot_key s = k)"
  by (auto simp: keyed_def)

lemma keyed_eq:
  assumes "distinct (keyed rows)" and "s \<in> set rows" "s' \<in> set rows" "spot_key s = spot_key s'" "spot_key s \<noteq> None"
  shows "s = s'"
  using assms
proof (induction rows)
  case (Cons r rows)
  show ?case
  proof (cases "spot_key r = None")
    case True
    then show ?thesis using Cons by (auto simp: keyed_def)
  next
    case False
    then have "spot_key r \<notin> set (keyed rows)" "distinct (keyed rows)"
      using Cons.prems(1) by (simp_all add: keyed_def)
    then show ?thesis using Cons False by (auto simp: set_keyed)
  qed
qed simp

lemma upsert_spot_cases:
  assumes "upsert_spot_row fresh now row w = (Inr uid, w')"
  obtains (existing) s where "row_key row \<noteq> None" "s \<in> set (spots w)" "spot_key s = row_key row" "uid = s_uid s"
      "w' = w\<lparr>spots := update_where (\<lambda>x. spot_key x = row_key row) (write_columns row) (spots w)\<rparr>"
    | (created) "row_key row = None \<or> (\<forall>s \<in> set (spots w). spot_key s \<noteq> row_key row)"
      "fresh \<notin> s_uid ` set (spots w)" "uid = fresh"
      "w' = w\<lparr>spots := spots w @ [write_columns row (blank_spot fresh now (sb_source row) (sb_external_id row))]\<rparr>"
proof (cases "if row_key row = None then None else find (\<lambda>s. spot_key s = row_key row) (spots w)")
  case None
  show ?thesis
  proof (rule created)
    show "row_key row = None \<or> (\<forall>s \<in> set (spots w). spot_key s \<noteq> row_key row)"
      using None by (auto simp: find_None_iff split: if_splits)
  qed (use assms None in \<open>auto simp: upsert_spot_row_def insert_row_def split: if_splits\<close>)
next
  case (Some s)
  show ?thesis
  proof (rule existing [of s])
    show "row_key row \<noteq> None" "s \<in> set (spots w)" "spot_key s = row_key row"
      using Some by (auto simp: find_Some_iff split: if_splits)
  qed (use assms Some in \<open>auto simp: upsert_spot_row_def split: if_splits\<close>)
qed

lemma upsert_spot_ok:
  assumes "catalog_ok w" and "upsert_spot_row fresh now row w = (Inr uid, w')"
  shows "catalog_ok w'"
  using assms(2)
proof (cases rule: upsert_spot_cases)
  case (existing s)
  with assms(1) show ?thesis by (simp add: catalog_ok_def keyed_update unique_key_update_where)
next
  case created
  let ?s = "write_columns row (blank_spot fresh now (sb_source row) (sb_external_id row))"
  have key: "spot_key ?s = row_key row" by (simp add: row_key_def)
  have "keyed (spots w') = keyed (spots w) @ (if row_key row = None then [] else [row_key row])"
    using created(4) key by (auto simp: keyed_def row_key_def)
  moreover have "row_key row \<noteq> None \<Longrightarrow> row_key row \<notin> set (keyed (spots w))"
    using created(1) by (auto simp: set_keyed)
  ultimately show ?thesis
    using assms(1) created by (auto simp: catalog_ok_def unique_key_snoc)
qed

interpretation spot_rows: row_writer "\<lambda>i. upsert_spot_row (fresh i) now" catalog_ok "refresh_caches client"
  for fresh :: "nat \<Rightarrow> uid" and now client
proof
  show "catalog_ok s \<Longrightarrow> upsert_spot_row (fresh i) now row s = (Inr x, t) \<Longrightarrow> catalog_ok t"
    for s t :: "'a world" and i row x by (rule upsert_spot_ok)
  show "catalog_ok (s :: 'a world) \<Longrightarrow> catalog_ok (refresh_caches client xs s)" for s xs
    by (simp add: catalog_ok_def refresh_caches_def)
qed

definition infos_ok :: "'r world \<Rightarrow> bool" where
  "infos_ok w \<longleftrightarrow> unique_key bi_uid (business_infos w) \<and> unique_key bi_spot_uid (business_infos w)"

lemma write_info_sel [simp]:
  "bi_uid (write_info row b) = bi_uid b" "bi_spot_uid (write_info row b) = bi_spot_uid b"
  "bi_uid (blank_info fresh now k) = fresh" "bi_spot_uid (blank_info fresh now k) = k"
  by (simp_all add: write_info_def blank_info_def)

lemma upsert_info_ok:
  assumes ok: "infos_ok w" and run: "upsert_business_info_row fresh now k row w = (Inr x, w')"
  shows "infos_ok w'"
proof -
  have found: "scalar_one_or_none multiple_results (filter (\<lambda>b. bi_spot_uid b = k) (business_infos w))
      = Inr (get_by_key bi_spot_uid k (business_infos w))"
    using ok by (intro scalar_one_or_none_unique) (simp add: infos_ok_def)
  show ?thesis
  proof (cases "get_by_key bi_spot_uid k (business_infos w)")
    case None
    then have "k \<notin> bi_spot_uid ` set (business_infos w)" by (simp add: get_by_key_None_iff)
    with None run ok show ?thesis
      by (auto simp: upsert_business_info_row_def found infos_ok_def unique_key_snoc insert_row_Some
          split: if_splits option.splits)
  next
    case (Some b)
    then have b: "b \<in> set (business_infos w)" by (auto dest: get_by_key_Some_key)
    have "bi_spot_uid x = bi_spot_uid b" if "x \<in> set (business_infos w)" "bi_uid x = bi_uid b" for x
      using ok b that unique_key_eq by (fastforce simp: infos_ok_def)
    then have "map bi_spot_uid (update_where (\<lambda>x. bi_uid x = bi_uid b) (\<lambda>_. (write_info row b)\<lparr>bi_updated_at := Some now\<rparr>)
        (business_infos w)) = map bi_spot_uid (business_infos w)"
      by (auto simp: update_where_def)
    moreover have "map bi_uid (update_where (\<lambda>x. bi_uid x = bi_uid b) (\<lambda>_. (write_info row b)\<lparr>bi_updated_at := Some now\<rparr>)
        (business_infos w)) = map bi_uid (business_infos w)"
      by (auto simp: update_where_def)
    ultimately show ?thesis
      using run ok Some
      by (auto simp: upsert_business_info_row_def found infos_ok_def unique_key_def Let_def split: if_splits)
  qed
qed

interpretation business_rows: row_writer "\<lambda>i. business_step mapping (fresh i) now" infos_ok "\<lambda>_ w. w"
  for mapping and fresh :: "nat \<Rightarrow> uid" and now
proof
  show "infos_ok s \<Longrightarrow> business_step mapping (fresh i) now row s = (Inr x, t) \<Longrightarrow> infos_ok t"
    for s t :: "'a world" and i row x
    by (auto simp: business_step_def split: list.splits intro: upsert_info_ok)
qed simp

section \<open>Properties\<close>

lemma handler_batch:
  assumes "spots_bulk_upsert_handler client fresh now request w = (Inr result, w')"
  shows "savepoint_batch (\<lambda>i. upsert_spot_row (fresh i) now) (refresh_caches client)
      (bk_dry_run request) (bk_rows request) w = (result, w')"
    and "valid_bulk valid_spot_row request"
  using assms by (auto simp: spots_bulk_upsert_handler_def split: if_splits prod.splits)


definition sample_row :: "string option \<Rightarrow> spot_bulk_row" where
  "sample_row external_id =
     \<lparr>se_title = Some ''new'', se_address = None, se_address_detail = None, se_region_province = None,
      se_region_city = None, se_postal_code = None, se_phone = None, se_description = None,
      se_tagline = None, se_latitude = None, se_longitude = None, se_altitude = None,
      se_unit_count = None, se_is_fee_required = None, se_is_pet_allowed = None, se_pet_policy = None,
      se_has_equipment_rental = None, se_themes = None, se_fire_pit_type = None, se_amenities = None,
      se_nearby_facilities = None, se_camp_sight_type = None, se_website_url = None,
      se_booking_url = None, se_features = None, se_category = None, se_total_area_m2 = None,
      se_has_liability_insurance = None, se_pipeline_status = None, se_trust_tier = None,
      sb_source = Some ''src'', sb_external_id = external_id, sb_rating_avg = 0, sb_review_count = 0\<rparr>"

definition sample_bulk :: "spot_bulk_row bulk_request" where
  "sample_bulk = \<lparr>bk_dry_run = False, bk_rows = [sample_row (Some ''e''), sample_row None]\<rparr>"

lemma sample_row_sel [simp]:
  "se_title (sample_row e) = Some ''new''" "se_unit_count (sample_row e) = None"
  "se_trust_tier (sample_row e) = None" "se_latitude (sample_row e) = None"
  "sb_source (sample_row e) = Some ''src''" "sb_external_id (sample_row e) = e"
  "sb_rating_avg (sample_row e) = 0" "sb_review_count (sample_row e) = 0"
  by (simp_all add: sample_row_def)

lemma sample_bulk_run:
  "run_rows (\<lambda>i. upsert_spot_row (replicate (Suc i) (CHR ''u'')) 0) 0 (bk_rows sample_bulk) (empty_world ())
   = ([], [''u'', ''uu''], (empty_world ())\<lparr>spots :=
       [write_columns (sample_row (Some ''e'')) (blank_spot ''u'' 0 (Some ''src'') (Some ''e'')),
        write_columns (sample_row None) (blank_spot ''uu'' 0 (Some ''src'') None)]\<rparr>)"
  by (simp add: sample_bulk_def upsert_spot_row_def int4_def row_key_def conflict_key_def insert_row_def
      empty_world_def ret_def)


text \<open>What the rows of a batch, written one after the other, make of the table.\<close>

definition upserted :: "spot_bulk_row list \<Rightarrow> 'r world \<Rightarrow> 'r world \<Rightarrow> bool" where
  "upserted rows w w' \<longleftrightarrow>
     (\<forall>row \<in> set rows. row_key row \<noteq> None \<longrightarrow> (\<exists>s \<in> set (spots w'). spot_key s = row_key row))
   \<and> (\<forall>s \<in> set (spots w). \<exists>s' \<in> set (spots w'). s_uid s' = s_uid s \<and> spot_key s' = spot_key s
        \<and> ((\<forall>row \<in> set rows. row_key row = None \<or> row_key row \<noteq> spot_key s) \<longrightarrow> s' = s))
   \<and> (\<forall>s' \<in> set (spots w'). s' \<in> set (spots w) \<or>
        (\<exists>row \<in> set rows. \<exists>s. s' = write_columns row s \<and> row_key row = spot_key s'))"

lemma upserted_refl: "upserted [] w w"
  by (simp add: upserted_def)

lemma upserted_step:
  assumes "upsert_spot_row fresh now row w = (Inr uid, w')"
  shows "upserted [row] w w'"
  using assms
proof (cases rule: upsert_spot_cases)
  case (existing s)
  let ?P = "\<lambda>x. spot_key x = row_key row"
  have rows: "spots w' = update_where ?P (write_columns row) (spots w)" by (simp add: existing(5))
  have "\<exists>x \<in> set (spots w'). spot_key x = row_key row"
    using existing(2,3) by (intro bexI [of _ "write_columns row s"]) (auto simp: rows set_update_where)
  moreover have "\<exists>x' \<in> set (spots w'). s_uid x' = s_uid x \<and> spot_key x' = spot_key x \<and> (row_key row \<noteq> spot_key x \<longrightarrow> x' = x)"
    if "x \<in> set (spots w)" for x
    using that by (intro bexI [of _ "if ?P x then write_columns row x else x"]) (auto simp: rows set_update_where)
  moreover have "x' \<in> set (spots w) \<or> (\<exists>x. x' = write_columns row x \<and> row_key row = spot_key x')"
    if "x' \<in> set (spots w')" for x'
  proof -
    from that have "x' \<in> set (update_where ?P (write_columns row) (spots w))" by (simp add: rows)
    then obtain r where "r \<in> set (spots w)" "x' = (if ?P r then write_columns row r else r)"
      unfolding set_update_where by blast
    then show ?thesis by (cases "?P r") auto
  qed
  ultimately show ?thesis
    using existing(1) unfolding upserted_def by (auto 0 4)
next
  case created
  let ?new = "write_columns row (blank_spot fresh now (sb_source row) (sb_external_id row))"
  have rows: "spots w' = spots w @ [?new]" and key: "spot_key ?new = row_key row"
    by (simp_all add: created(4) row_key_def)
  then show ?thesis unfolding upserted_def by auto
qed

lemma upserted_trans:
  assumes "upserted [row] w w1" and "upserted rows w1 w'"
  shows "upserted (row # rows) w w'"
proof -
  have "\<exists>s \<in> set (spots w'). spot_key s = row_key r" if "r \<in> set (row # rows)" "row_key r \<noteq> None" for r
    using assms that unfolding upserted_def by (metis list.set_intros(1) set_ConsD)
  moreover have "\<exists>s' \<in> set (spots w'). s_uid s' = s_uid s \<and> spot_key s' = spot_key s
      \<and> ((\<forall>r \<in> set (row # rows). row_key r = None \<or> row_key r \<noteq> spot_key s) \<longrightarrow> s' = s)"
    if s: "s \<in> set (spots w)" for s
  proof -
    have "\<exists>s1 \<in> set (spots w1). s_uid s1 = s_uid s \<and> spot_key s1 = spot_key s
        \<and> (row_key row = None \<or> row_key row \<noteq> spot_key s \<longrightarrow> s1 = s)"
      using assms(1) s unfolding upserted_def by simp
    then obtain s1 where s1: "s1 \<in> set (spots w1)" "s_uid s1 = s_uid s" "spot_key s1 = spot_key s"
        "row_key row = None \<or> row_key row \<noteq> spot_key s \<Longrightarrow> s1 = s"
      by blast
    obtain s2 where "s2 \<in> set (spots w')" "s_uid s2 = s_uid s1" "spot_key s2 = spot_key s1"
        "\<forall>r \<in> set rows. row_key r = None \<or> row_key r \<noteq> spot_key s1 \<Longrightarrow> s2 = s1"
      using assms(2) s1(1) unfolding upserted_def by blast
    with s1 show ?thesis by (intro bexI [of _ s2]) auto
  qed
  moreover have "s' \<in> set (spots w) \<or> (\<exists>r \<in> set (row # rows). \<exists>s. s' = write_columns r s \<and> row_key r = spot_key s')"
    if "s' \<in> set (spots w')" for s'
    using assms that unfolding upserted_def by (metis empty_iff empty_set list.set_intros set_ConsD)
  ultimately show ?thesis unfolding upserted_def by blast
qed

lemma write_all_upserted:
  "write_all (\<lambda>i. upsert_spot_row (fresh i) now) i rows w = Some (uids, w') \<Longrightarrow> upserted rows w w'"
proof (induction rows arbitrary: i w uids)
  case (Cons row rows)
  then obtain uid w1 vs where "upsert_spot_row (fresh i) now row w = (Inr uid, w1)"
      "write_all (\<lambda>i. upsert_spot_row (fresh i) now) (Suc i) rows w1 = Some (vs, w')"
    by (auto split: prod.splits sum.splits)
  with Cons.IH show ?case by (blast intro: upserted_trans upserted_step)
qed (simp add: upserted_refl)



text \<open>
  The request gives every row a rating of 0 unless it names one, so a batch that only means to
  change a title resets the rating the reviews gave the spot.
\<close>

lemma bulk_upsert_resets_rating:
  assumes "s \<in> set (spots w)" and "spot_key s = Some (''src'', ''e'')"
    and "upsert_spot_row fresh now (sample_row (Some ''e'')) w = (Inr uid, w')"
  shows "\<exists>s' \<in> set (spots w'). s_uid s' = s_uid s \<and> s_rating_avg s' = 0 \<and> s_review_count s' = 0"
  using assms(3)
proof (cases rule: upsert_spot_cases)
  case (existing x)
  then show ?thesis
    using assms(1,2)
    by (intro bexI [of _ "write_columns (sample_row (Some ''e'')) s"])
      (auto simp: set_update_where row_key_def conflict_key_def)
next
  case created
  with assms(1,2) show ?thesis by (auto simp: row_key_def conflict_key_def)
qed

end
