(* ===== verification/Jobs.thy ===== *)
theory Jobs
  imports Bulk
begin

text \<open>
  The queue of background jobs: \<open>workers/job_worker.py\<close>, \<open>workers/handlers.py\<close>,
  \<open>workers/db_dump.py\<close>, \<open>crud/job.py\<close>, \<open>endpoints/internal_jobs.py\<close>,
  \<open>endpoints/internal_db_dumps.py\<close> and the endpoints that queue a bulk upsert.

  A \<open>plant\<close> is the database, the bucket and the table of jobs.  A \<open>worker_env\<close> is what a
  worker cycle takes from outside: the clients, the clock, the uids it draws and \<open>pg_dump\<close>, which
  answers its arguments with an exit code, its error output and the size of the file it wrote.  The
  payload of a job is the request its endpoint stored, or nothing for a dump; a payload of
  another shape does not validate.
\<close>

datatype job_payload =
    Spots_Payload "spot_bulk_row bulk_request"
  | Business_Payload "business_row bulk_request"
  | Empty_Payload

record ('r, 'b) plant =
  pt_world :: "'r world"
  pt_bucket :: 'b
  pt_jobs :: "job_payload job list"

record ('r, 'b) worker_env =
  we_client :: "'r redis_client option"
  we_settings :: settings
  we_s3 :: "'b s3_client"
  we_now :: instant
  we_fresh :: "nat \<Rightarrow> uid"
  we_dump_id :: string
  we_dump_path :: string
  we_pg_dump :: "string list \<Rightarrow> (string \<times> string) list \<Rightarrow> 'r world \<Rightarrow> int \<times> string \<times> nat"

section \<open>Handlers\<close>

definition DUMP_S3_PREFIX :: string where
  "DUMP_S3_PREFIX = ''db-dumps''"

definition pg_dump_args :: "settings \<Rightarrow> string \<Rightarrow> string list" where
  "pg_dump_args cfg path =
     [''pg_dump'', ''-h'', DB_HOST cfg, ''-p'', DB_PORT cfg, ''-U'', DB_USER cfg, ''-d'', DB_NAME cfg,
      ''-Fc'', ''--no-owner'', ''--no-privileges'', ''-f'', path]"

definition pg_dump_environ :: "settings \<Rightarrow> (string \<times> string) list" where
  "pg_dump_environ cfg =
     (''PGPASSWORD'', DB_PASSWORD cfg)
       # (if ENVIRONMENT cfg = Env_prod then [(''PGSSLMODE'', ''require'')] else [])"

definition dump_key :: "string \<Rightarrow> string" where
  "dump_key dump_id = DUMP_S3_PREFIX @ ''/'' @ dump_id @ ''.dump''"

definition db_dump_handler ::
    "('r, 'b) worker_env \<Rightarrow> job_payload \<Rightarrow> 'r world \<times> 'b \<Rightarrow> job_result res \<times> ('r world \<times> 'b)" where
  "db_dump_handler env payload s =
     (let cfg = we_settings env; s3_key = dump_key (we_dump_id env)
      in case we_pg_dump env (pg_dump_args cfg (we_dump_path env)) (pg_dump_environ cfg) (fst s) of
           (returncode, stderr, size_bytes) \<Rightarrow>
             if returncode \<noteq> 0 then raise (PyError ''RuntimeError'' (''pg_dump failed: '' @ stderr)) s
             else (case upload_file (we_s3 env) cfg s3_key (we_dump_path env) (snd s) of
                     (Inl e, b) \<Rightarrow> raise e (fst s, b)
                   | (Inr _, b) \<Rightarrow> ret (Dump_Result s3_key size_bytes) (fst s, b)))"

abbreviation validation_error :: exn where
  "validation_error \<equiv> PyError ''ValidationError'' ''''"

definition spots_handler ::
    "('r, 'b) worker_env \<Rightarrow> job_payload \<Rightarrow> 'r world \<times> 'b \<Rightarrow> job_result res \<times> ('r world \<times> 'b)" where
  "spots_handler env payload s =
     (case payload of
        Spots_Payload request \<Rightarrow>
          (case spots_bulk_upsert_handler (we_client env) (we_fresh env) (we_now env) request (fst s) of
             (Inl e, w) \<Rightarrow> raise e (w, snd s)
           | (Inr r, w) \<Rightarrow> ret (Bulk_Result r) (w, snd s))
      | _ \<Rightarrow> raise validation_error s)"

definition business_handler ::
    "('r, 'b) worker_env \<Rightarrow> job_payload \<Rightarrow> 'r world \<times> 'b \<Rightarrow> job_result res \<times> ('r world \<times> 'b)" where
  "business_handler env payload s =
     (case payload of
        Business_Payload request \<Rightarrow>
          (case spot_business_info_bulk_upsert_handler (we_fresh env) (we_now env) request (fst s) of
             (Inl e, w) \<Rightarrow> raise e (w, snd s)
           | (Inr r, w) \<Rightarrow> ret (Bulk_Result r) (w, snd s))
      | _ \<Rightarrow> raise validation_error s)"

type_synonym ('r, 'b) job_handler =
  "('r, 'b) worker_env \<Rightarrow> job_payload \<Rightarrow> 'r world \<times> 'b \<Rightarrow> job_result res \<times> ('r world \<times> 'b)"

definition HANDLERS :: "(job_type \<times> ('r, 'b) job_handler) list" where
  "HANDLERS =
     [(SPOTS_BULK_UPSERT, spots_handler), (SPOT_BUSINESS_INFO_BULK_UPSERT, business_handler),
      (DB_DUMP, db_dump_handler)]"

definition job_type_value :: "job_type \<Rightarrow> string" where
  "job_type_value t = (case t of SPOTS_BULK_UPSERT \<Rightarrow> ''spots_bulk_upsert''
     | SPOT_BUSINESS_INFO_BULK_UPSERT \<Rightarrow> ''spot_business_info_bulk_upsert'' | DB_DUMP \<Rightarrow> ''db_dump'')"

section \<open>The worker\<close>

definition is_pending :: "'p job \<Rightarrow> bool" where
  "is_pending j \<longleftrightarrow> j_status j = Job_PENDING"

definition cleanup_orphaned_jobs :: "instant \<Rightarrow> 'p job list \<Rightarrow> nat \<times> 'p job list" where
  "cleanup_orphaned_jobs now jobs =
     (count_where (\<lambda>j. j_status j = Job_RUNNING) jobs,
      update_where (\<lambda>j. j_status j = Job_RUNNING)
        (\<lambda>j. j\<lparr>j_status := Job_FAILED, j_error := Some ''orphaned'', j_finished_at := Some now\<rparr>) jobs)"

text \<open>\<open>locked\<close> are the rows another transaction holds (\<open>SKIP LOCKED\<close>).\<close>

definition claim_next_job ::
    "instant \<Rightarrow> (uid \<Rightarrow> bool) \<Rightarrow> 'p job list \<Rightarrow> 'p job option \<times> 'p job list" where
  "claim_next_job now locked jobs =
     (case take 1 (sort_key j_created_at (filter (\<lambda>j. is_pending j \<and> \<not> locked (j_uid j)) jobs)) of
        [] \<Rightarrow> (None, jobs)
      | job # _ \<Rightarrow>
          let claimed = job\<lparr>j_status := Job_RUNNING, j_started_at := Some now\<rparr>
          in (Some claimed, update_where (\<lambda>j. j_uid j = j_uid job) (\<lambda>_. claimed) jobs))"

definition store_job :: "'p job \<Rightarrow> 'p job list \<Rightarrow> 'p job list" where
  "store_job job jobs = update_where (\<lambda>j. j_uid j = j_uid job) (\<lambda>_. job) jobs"

definition process_job :: "('r, 'b) worker_env \<Rightarrow> job_payload job \<Rightarrow> ('r, 'b) plant \<Rightarrow> ('r, 'b) plant" where
  "process_job env job p =
     (case map_of HANDLERS (j_type job) of
        None \<Rightarrow>
          p\<lparr>pt_jobs := store_job (job\<lparr>j_status := Job_FAILED,
               j_error := Some (''No handler registered for '' @ job_type_value (j_type job)),
               j_finished_at := Some (we_now env)\<rparr>) (pt_jobs p)\<rparr>
      | Some handler \<Rightarrow>
          (case handler env (j_payload job) (pt_world p, pt_bucket p) of (outcome, w, b) \<Rightarrow>
             let done = (case outcome of
                   Inr result \<Rightarrow> job\<lparr>j_status := Job_SUCCEEDED, j_result := Some result\<rparr>
                 | Inl exc \<Rightarrow> job\<lparr>j_status := Job_FAILED, j_error := Some (sanitize_exc_message exc 500)\<rparr>)
             in \<lparr>pt_world = w, pt_bucket = b,
                 pt_jobs = store_job (done\<lparr>j_finished_at := Some (we_now env)\<rparr>) (pt_jobs p)\<rparr>))"

definition scalar_one :: "'a list \<Rightarrow> 'a res" where
  "scalar_one rows = (case rows of [] \<Rightarrow> Inl no_result | [r] \<Rightarrow> Inr r | _ \<Rightarrow> Inl multiple_results)"

definition run_worker_cycle ::
    "('r, 'b) worker_env \<Rightarrow> (uid \<Rightarrow> bool) \<Rightarrow> ('r, 'b) plant \<Rightarrow> uid option res \<times> ('r, 'b) plant" where
  "run_worker_cycle env locked p =
     (case claim_next_job (we_now env) locked (pt_jobs p) of
        (None, _) \<Rightarrow> ret None p
      | (Some job, jobs) \<Rightarrow>
          let p = p\<lparr>pt_jobs := jobs\<rparr>
          in check (scalar_one (filter (\<lambda>j. j_uid j = j_uid job) jobs)) p (\<lambda>job.
               ret (Some (j_uid job)) (process_job env job p)))"

text \<open>
  \<open>job_worker_loop\<close> runs cycles until one finds nothing to do or fails, then sleeps
  \<open>POLL_INTERVAL_SECONDS\<close> and starts over.  \<open>wake\<close> is one such run: the cycle number \<open>k\<close> has the
  environment \<open>envs k\<close>; the answer lists the jobs processed.
\<close>

function wake :: "(nat \<Rightarrow> ('r, 'b) worker_env) \<Rightarrow> nat \<Rightarrow> ('r, 'b) plant \<Rightarrow> uid list \<times> ('r, 'b) plant" where
  "wake envs k p =
     (case run_worker_cycle (envs k) (\<lambda>_. False) p of
        (Inr (Some uid), p') \<Rightarrow> (case wake envs (Suc k) p' of (uids, p'') \<Rightarrow> (uid # uids, p''))
      | (_, p') \<Rightarrow> ([], p'))"
  by pat_completeness auto

lemma filter_store_job:
  "\<not> P job \<Longrightarrow> filter P (store_job job jobs) = filter (\<lambda>j. j_uid j \<noteq> j_uid job) (filter P jobs)"
  by (induction jobs) (auto simp: store_job_def)

lemma pending_after_process:
  "filter is_pending (pt_jobs (process_job env job p))
     = filter (\<lambda>j. j_uid j \<noteq> j_uid job) (filter is_pending (pt_jobs p))"
  by (auto simp: process_job_def Let_def filter_store_job is_pending_def simp del: filter_filter
      split: option.split prod.split sum.split)

lemma claim_first:
  assumes "claim_next_job now (\<lambda>_. False) jobs = (Some job, jobs')"
  obtains j rest where "sort_key j_created_at (filter is_pending jobs) = j # rest"
    "job = j\<lparr>j_status := Job_RUNNING, j_started_at := Some now\<rparr>" "jobs' = store_job job jobs"
proof -
  obtain j rest where first: "sort_key j_created_at (filter is_pending jobs) = j # rest"
    using assms by (cases "sort_key j_created_at (filter is_pending jobs)") (auto simp: claim_next_job_def)
  show ?thesis
    by (rule that [OF first]) (use assms first in \<open>auto simp: claim_next_job_def store_job_def Let_def\<close>)
qed

lemma pending_drops:
  assumes "run_worker_cycle env (\<lambda>_. False) p = (Inr (Some uid), p')"
  shows "length (filter is_pending (pt_jobs p')) < length (filter is_pending (pt_jobs p))"
proof -
  obtain job jobs where claim: "claim_next_job (we_now env) (\<lambda>_. False) (pt_jobs p) = (Some job, jobs)"
    using assms by (auto simp: run_worker_cycle_def ret_def split: prod.splits option.splits)
  then obtain j rest where j: "sort_key j_created_at (filter is_pending (pt_jobs p)) = j # rest"
      "job = j\<lparr>j_status := Job_RUNNING, j_started_at := Some (we_now env)\<rparr>"
      "jobs = store_job job (pt_jobs p)"
    by (rule claim_first)
  let ?left = "filter (\<lambda>i. j_uid i \<noteq> j_uid j) (filter is_pending (pt_jobs p))"
  have "j \<in> set (filter is_pending (pt_jobs p))"
    using j(1) by (metis list.set_intros(1) set_sort)
  then have fewer: "length ?left < length (filter is_pending (pt_jobs p))"
    by (simp add: length_filter_less del: filter_filter)
  have "filter is_pending jobs = ?left"
    unfolding j(3) by (subst filter_store_job) (simp_all add: j(2) is_pending_def del: filter_filter)
  moreover obtain again where "p' = process_job env again (p\<lparr>pt_jobs := jobs\<rparr>)"
    using assms claim by (auto simp: run_worker_cycle_def check_def ret_def Let_def split: sum.splits)
  ultimately have "filter is_pending (pt_jobs p') = filter (\<lambda>i. j_uid i \<noteq> j_uid again) ?left"
    by (simp add: pending_after_process del: filter_filter)
  then show ?thesis using fewer le_less_trans [OF length_filter_le] by metis
qed

termination wake
  by (relation "measure (\<lambda>(envs, k, p). length (filter is_pending (pt_jobs p)))")
    (auto dest: pending_drops [OF sym])

declare wake.simps [simp del]

section \<open>Endpoints\<close>

definition get_job_by_id :: "uid \<Rightarrow> ('r, 'b) plant \<Rightarrow> job_payload job option res" where
  "get_job_by_id job_id p =
     scalar_one_or_none multiple_results (filter (\<lambda>j. j_uid j = job_id) (pt_jobs p))"

record job_read =
  jr_uid :: uid
  jr_type :: job_type
  jr_status :: job_status
  jr_result :: "job_result option"
  jr_error :: "string option"
  jr_created_at :: instant
  jr_started_at :: "instant option"
  jr_finished_at :: "instant option"

definition get_job :: "user res \<Rightarrow> uid \<Rightarrow> ('r, 'b) plant \<Rightarrow> job_read res" where
  "get_job caller job_id p =
     bindE (as_staff caller) (\<lambda>_.
     bindE (get_job_by_id job_id p) (\<lambda>found.
       case found of
         None \<Rightarrow> Inl (app_error JOB_NOT_FOUND)
       | Some j \<Rightarrow> Inr \<lparr>jr_uid = j_uid j, jr_type = j_type j, jr_status = j_status j,
            jr_result = j_result j, jr_error = j_error j, jr_created_at = j_created_at j,
            jr_started_at = j_started_at j, jr_finished_at = j_finished_at j\<rparr>))"

definition enqueue ::
    "uid \<Rightarrow> instant \<Rightarrow> job_type \<Rightarrow> job_payload \<Rightarrow> user \<Rightarrow> ('r, 'b) plant \<Rightarrow> uid res \<times> ('r, 'b) plant" where
  "enqueue fresh now type payload staff p =
     (let job = \<lparr>j_uid = fresh, j_type = type, j_status = Job_PENDING, j_payload = payload, j_result = None,
                 j_error = None, j_created_by = u_uid staff, j_created_at = now, j_started_at = None,
                 j_finished_at = None\<rparr>
      in case insert_row j_uid job (pt_jobs p) of
           None \<Rightarrow> raise integrity_error p
         | Some jobs \<Rightarrow> ret fresh (p\<lparr>pt_jobs := jobs\<rparr>))"

definition enqueue_db_dump :: "uid \<Rightarrow> instant \<Rightarrow> user res \<Rightarrow> ('r, 'b) plant \<Rightarrow> uid res \<times> ('r, 'b) plant" where
  "enqueue_db_dump fresh now caller p =
     check (as_role SUPERUSER caller) p (\<lambda>staff. enqueue fresh now DB_DUMP Empty_Payload staff p)"

text \<open>\<open>parse\<close> reads the JSON of a body, whose size is checked first.\<close>

definition enqueue_spots_bulk_upsert ::
    "(string \<Rightarrow> spot_bulk_row bulk_request option) \<Rightarrow> uid \<Rightarrow> instant \<Rightarrow> string option \<Rightarrow> string list \<Rightarrow> user res
       \<Rightarrow> ('r, 'b) plant \<Rightarrow> uid res \<times> ('r, 'b) plant" where
  "enqueue_spots_bulk_upsert parse fresh now content_length stream caller p =
     check (as_staff caller) p (\<lambda>_.
     check (enforce_spots_bulk_size content_length stream) p (\<lambda>body.
     check (as_role SUPERUSER caller) p (\<lambda>staff.
       case parse body of
         None \<Rightarrow> raise RequestValidationError p
       | Some request \<Rightarrow>
           if \<not> valid_bulk valid_spot_row request then raise RequestValidationError p
           else enqueue fresh now SPOTS_BULK_UPSERT (Spots_Payload request) staff p)))"

definition enqueue_spot_business_info_bulk_upsert ::
    "(string \<Rightarrow> business_row bulk_request option) \<Rightarrow> uid \<Rightarrow> instant \<Rightarrow> string option \<Rightarrow> string list \<Rightarrow> user res
       \<Rightarrow> ('r, 'b) plant \<Rightarrow> uid res \<times> ('r, 'b) plant" where
  "enqueue_spot_business_info_bulk_upsert parse fresh now content_length stream caller p =
     check (as_staff caller) p (\<lambda>staff.
     check (enforce_spots_bulk_size content_length stream) p (\<lambda>body.
       case parse body of
         None \<Rightarrow> raise RequestValidationError p
       | Some request \<Rightarrow>
           if \<not> valid_bulk (\<lambda>_. True) request then raise RequestValidationError p
           else enqueue fresh now SPOT_BUSINESS_INFO_BULK_UPSERT (Business_Payload request) staff p))"

definition get_db_dump_download_url ::
    "'b s3_client \<Rightarrow> settings \<Rightarrow> user res \<Rightarrow> uid \<Rightarrow> ('r, 'b) plant \<Rightarrow> (string \<times> nat) res" where
  "get_db_dump_download_url s3 cfg caller job_id p =
     bindE (as_role SUPERUSER caller) (\<lambda>_.
     bindE (get_job_by_id job_id p) (\<lambda>found.
       case found of
         None \<Rightarrow> Inl (app_error JOB_NOT_FOUND)
       | Some j \<Rightarrow>
           if j_type j \<noteq> DB_DUMP then Inl (app_error JOB_NOT_FOUND)
           else if j_status j \<noteq> Job_SUCCEEDED then Inl (app_error DB_DUMP_NOT_READY)
           else (case j_result j of
                   None \<Rightarrow> Inl (PyError ''TypeError'' '''')
                 | Some (Bulk_Result _) \<Rightarrow> Inl key_error
                 | Some (Dump_Result s3_key _) \<Rightarrow>
                     bindE (generate_presigned_get s3 cfg s3_key
                              (Some (''vivac-db-dump-'' @ job_id @ ''.dump'')))
                       (\<lambda>url. Inr (url, S3_PRESIGN_EXPIRE_SECONDS cfg)))))"

section \<open>The life of a job\<close>

text \<open>
  \<open>busy\<close> are the jobs the workers of the running process have claimed and not finished.  A
  restart of the process loses them and runs \<open>startup_orphan_cleanup\<close>; one process runs at a
  time.  Requests and other transactions change the rest of the plant between two steps.
\<close>

type_synonym ('r, 'b) works = "('r, 'b) plant \<times> uid list"

inductive job_step :: "('r, 'b) works \<Rightarrow> ('r, 'b) works \<Rightarrow> bool" where
  queue_dump: "job_step (p, busy) (snd (enqueue_db_dump fresh now caller p), busy)"
| queue_spots: "job_step (p, busy)
     (snd (enqueue_spots_bulk_upsert parse fresh now content_length stream caller p), busy)"
| queue_business: "job_step (p, busy)
     (snd (enqueue_spot_business_info_bulk_upsert parse' fresh now content_length stream caller p), busy)"
| claim: "claim_next_job now locked (pt_jobs p) = (Some job, jobs) \<Longrightarrow>
     job_step (p, busy) (p\<lparr>pt_jobs := jobs\<rparr>, j_uid job # busy)"
| finish: "uid \<in> set busy \<Longrightarrow> scalar_one (filter (\<lambda>j. j_uid j = uid) (pt_jobs p)) = Inr job \<Longrightarrow>
     job_step (p, busy) (process_job env job p, removeAll uid busy)"
| restart: "job_step (p, busy) (p\<lparr>pt_jobs := snd (cleanup_orphaned_jobs now (pt_jobs p))\<rparr>, [])"
| elsewhere: "job_step (p, busy) (p\<lparr>pt_world := w, pt_bucket := b\<rparr>, busy)"

inductive_cases job_stepE: "job_step s t"

fun result_matches :: "job_type \<Rightarrow> job_result \<Rightarrow> bool" where
  "result_matches DB_DUMP (Dump_Result key _) = (take (length DUMP_S3_PREFIX) key = DUMP_S3_PREFIX)"
| "result_matches SPOTS_BULK_UPSERT (Bulk_Result _) = True"
| "result_matches SPOT_BUSINESS_INFO_BULK_UPSERT (Bulk_Result _) = True"
| "result_matches _ _ = False"

definition job_wf :: "'p job \<Rightarrow> bool" where
  "job_wf j \<longleftrightarrow> (case j_status j of
       Job_PENDING \<Rightarrow> j_started_at j = None \<and> j_finished_at j = None \<and> j_result j = None \<and> j_error j = None
     | Job_RUNNING \<Rightarrow> j_started_at j \<noteq> None \<and> j_finished_at j = None \<and> j_result j = None \<and> j_error j = None
     | Job_SUCCEEDED \<Rightarrow> j_started_at j \<noteq> None \<and> j_finished_at j \<noteq> None \<and> j_error j = None
         \<and> (\<exists>r. j_result j = Some r \<and> result_matches (j_type j) r)
     | Job_FAILED \<Rightarrow> j_started_at j \<noteq> None \<and> j_finished_at j \<noteq> None \<and> j_result j = None \<and> j_error j \<noteq> None)"

definition jobs_ok :: "('r, 'b) works \<Rightarrow> bool" where
  "jobs_ok s \<longleftrightarrow> unique_key j_uid (pt_jobs (fst s)) \<and> (\<forall>j \<in> set (pt_jobs (fst s)). job_wf j)
     \<and> (\<forall>j \<in> set (pt_jobs (fst s)). j_uid j \<in> set (snd s) \<longleftrightarrow> j_status j = Job_RUNNING)
     \<and> set (snd s) \<subseteq> j_uid ` set (pt_jobs (fst s))"

definition job_start :: "('r, 'b) works \<Rightarrow> bool" where
  "job_start s \<longleftrightarrow> pt_jobs (fst s) = [] \<and> snd s = []"

text \<open>The edges of the life of one job.\<close>

definition job_edge :: "'p job \<Rightarrow> 'p job \<Rightarrow> bool" where
  "job_edge j j' \<longleftrightarrow> j_uid j' = j_uid j \<and> j_type j' = j_type j \<and> j_payload j' = j_payload j
     \<and> j_created_by j' = j_created_by j \<and> j_created_at j' = j_created_at j
     \<and> (j' = j \<or> j_status j = Job_PENDING \<and> j_status j' = Job_RUNNING
         \<or> j_status j = Job_RUNNING \<and> j_status j' \<in> {Job_SUCCEEDED, Job_FAILED})"

lemma job_edge_refl: "job_edge j j"
  by (simp add: job_edge_def)

text \<open>A handler answers in the shape of its type.\<close>

lemma handlers_typed:
  assumes "map_of HANDLERS t = Some handler" and "handler env payload s = (Inr r, s')"
  shows "result_matches t r"
  using assms
  by (cases t)
    (auto simp: HANDLERS_def spots_handler_def business_handler_def db_dump_handler_def Let_def dump_key_def
      split: job_payload.splits prod.splits sum.splits if_splits)

lemma handlers_total: "map_of HANDLERS t \<noteq> None"
  by (cases t) (simp_all add: HANDLERS_def)

text \<open>The job as \<open>process_job\<close> leaves it.\<close>

lemma process_job_stores:
  fixes env :: "('r, 'b) worker_env"
  shows "\<exists>job'. pt_jobs (process_job env job p) = store_job job' (pt_jobs p)
     \<and> ((\<exists>r. result_matches (j_type job) r
           \<and> job' = job\<lparr>j_status := Job_SUCCEEDED, j_result := Some r, j_finished_at := Some (we_now env)\<rparr>)
        \<or> (\<exists>e. job' = job\<lparr>j_status := Job_FAILED, j_error := Some e, j_finished_at := Some (we_now env)\<rparr>))"
proof -
  obtain handler :: "('r, 'b) job_handler" where h: "map_of HANDLERS (j_type job) = Some handler"
    using handlers_total by blast
  obtain outcome w b where run: "handler env (j_payload job) (pt_world p, pt_bucket p) = (outcome, w, b)"
    by (metis prod_cases3)
  show ?thesis
  proof (cases outcome)
    case (Inl exc)
    then show ?thesis using h run by (simp add: process_job_def Let_def) blast
  next
    case (Inr r)
    have "result_matches (j_type job) r" using handlers_typed [OF h] run Inr by blast
    then show ?thesis using h run Inr by (simp add: process_job_def Let_def) blast
  qed
qed

lemma process_job_row:
  assumes "job_wf job" and "j_status job = Job_RUNNING"
  shows "\<exists>job'. pt_jobs (process_job env job p) = store_job job' (pt_jobs p)
     \<and> job_edge job job' \<and> job_wf job' \<and> j_status job' \<in> {Job_SUCCEEDED, Job_FAILED}"
  using process_job_stores [of env job p] assms by (auto simp: job_edge_def job_wf_def)

text \<open>Storing one changed row.\<close>

lemma store_job_uids: "unique_key j_uid (store_job job jobs) = unique_key j_uid jobs"
  "j_uid ` set (store_job job jobs) = j_uid ` set jobs"
  by (simp_all add: store_job_def unique_key_def map_key_update_where image_key_update_where)

lemma set_store_job:
  assumes "unique_key j_uid jobs" and "j \<in> set jobs" and "j_uid job = j_uid j"
  shows "set (store_job job jobs) = insert job (set jobs - {j})"
proof -
  have same: "x = j" if "x \<in> set jobs" "j_uid x = j_uid j" for x
    using unique_key_eq [OF assms(1) that(1) assms(2) that(2)] .
  have "x \<in> set (store_job job jobs) \<longleftrightarrow> x = job \<or> x \<in> set jobs \<and> x \<noteq> j" for x
    using assms(2,3) same by (auto simp: store_job_def set_update_where)
  then show ?thesis by auto
qed

lemma store_job_ok:
  assumes ok: "jobs_ok (p, busy)" and j: "j \<in> set (pt_jobs p)" and edge: "job_edge j j'" and "job_wf j'"
    and q: "pt_jobs q = store_job j' (pt_jobs p)"
    and busy: "\<And>i. i \<in> set busy' \<longleftrightarrow> (if i = j_uid j then j_status j' = Job_RUNNING else i \<in> set busy)"
  shows "jobs_ok (q, busy')"
    and "\<forall>x \<in> set (pt_jobs p). \<exists>x' \<in> set (pt_jobs q). job_edge x x'"
proof -
  have uid: "j_uid j' = j_uid j" using edge by (simp add: job_edge_def)
  have u: "unique_key j_uid (pt_jobs p)" using ok by (simp add: jobs_ok_def)
  have rows: "set (pt_jobs q) = insert j' (set (pt_jobs p) - {j})"
    unfolding q by (rule set_store_job [OF u j uid])
  have other: "j_uid x \<noteq> j_uid j" if "x \<in> set (pt_jobs p)" "x \<noteq> j" for x
    using unique_key_eq [OF u that(1) j] that(2) by blast
  have uids: "j_uid ` set (pt_jobs q) = j_uid ` set (pt_jobs p)" unfolding q by (rule store_job_uids)
  have "unique_key j_uid (pt_jobs q)" using u by (simp add: q store_job_uids)
  moreover have "job_wf x" if "x \<in> set (pt_jobs q)" for x
    using that ok assms(4) unfolding rows by (auto simp: jobs_ok_def)
  moreover have "j_uid x \<in> set busy' \<longleftrightarrow> j_status x = Job_RUNNING" if "x \<in> set (pt_jobs q)" for x
    using that ok other uid unfolding rows by (auto simp: jobs_ok_def busy)
  moreover have "set busy' \<subseteq> j_uid ` set (pt_jobs q)"
    unfolding uids using ok j by (auto simp: jobs_ok_def busy split: if_splits)
  ultimately show "jobs_ok (q, busy')" by (simp add: jobs_ok_def)
  show "\<forall>x \<in> set (pt_jobs p). \<exists>x' \<in> set (pt_jobs q). job_edge x x'"
    unfolding rows using edge job_edge_refl by auto
qed

lemma enqueue_ok:
  assumes "jobs_ok (p, busy)"
  shows "jobs_ok (snd (enqueue fresh now ty payload staff p), busy)"
    and "\<forall>x \<in> set (pt_jobs p). x \<in> set (pt_jobs (snd (enqueue fresh now ty payload staff p)))"
  using assms
  by (auto simp: enqueue_def Let_def jobs_ok_def insert_row_Some unique_key_snoc job_wf_def split: option.split)

lemma claim_row:
  assumes "claim_next_job now locked jobs = (Some job, jobs')"
  obtains j where "j \<in> set jobs" "is_pending j" "\<not> locked (j_uid j)"
    "job = j\<lparr>j_status := Job_RUNNING, j_started_at := Some now\<rparr>" "jobs' = store_job job jobs"
proof -
  obtain j rest where first: "take 1 (sort_key j_created_at (filter (\<lambda>j. is_pending j \<and> \<not> locked (j_uid j)) jobs)) = j # rest"
    using assms by (auto simp: claim_next_job_def split: list.splits)
  then have "j \<in> set (sort_key j_created_at (filter (\<lambda>j. is_pending j \<and> \<not> locked (j_uid j)) jobs))"
    by (metis in_set_takeD list.set_intros(1))
  then show ?thesis
    using that assms first by (auto simp: claim_next_job_def store_job_def Let_def)
qed

lemma step_enqueues:
  assumes "jobs_ok (p, busy)"
  shows "jobs_ok (snd (enqueue_db_dump fresh now caller p), busy)"
    and "set (pt_jobs p) \<subseteq> set (pt_jobs (snd (enqueue_db_dump fresh now caller p)))"
    and "jobs_ok (snd (enqueue_spots_bulk_upsert parse fresh now cl stream caller p), busy)"
    and "set (pt_jobs p) \<subseteq> set (pt_jobs (snd (enqueue_spots_bulk_upsert parse fresh now cl stream caller p)))"
    and "jobs_ok (snd (enqueue_spot_business_info_bulk_upsert parse' fresh now cl stream caller p), busy)"
    and "set (pt_jobs p) \<subseteq> set (pt_jobs (snd (enqueue_spot_business_info_bulk_upsert parse' fresh now cl stream caller p)))"
  using assms enqueue_ok [OF assms]
  unfolding enqueue_db_dump_def enqueue_spots_bulk_upsert_def enqueue_spot_business_info_bulk_upsert_def
  by (auto simp: check_def split: sum.split option.split)

lemma restart_ok:
  assumes ok: "jobs_ok (p, busy)"
  shows "jobs_ok (p\<lparr>pt_jobs := snd (cleanup_orphaned_jobs now (pt_jobs p))\<rparr>, [])"
    and "\<forall>x \<in> set (pt_jobs p). \<exists>x' \<in> set (snd (cleanup_orphaned_jobs now (pt_jobs p))). job_edge x x'"
proof -
  let ?f = "\<lambda>j. j\<lparr>j_status := Job_FAILED, j_error := Some ''orphaned'', j_finished_at := Some now\<rparr>"
  let ?R = "\<lambda>j :: job_payload job. j_status j = Job_RUNNING"
  have rows: "snd (cleanup_orphaned_jobs now (pt_jobs p)) = update_where ?R ?f (pt_jobs p)"
    by (simp add: cleanup_orphaned_jobs_def)
  have one: "job_wf (if ?R j then ?f j else j) \<and> job_edge j (if ?R j then ?f j else j)
      \<and> j_status (if ?R j then ?f j else j) \<noteq> Job_RUNNING" if "job_wf j" for j :: "job_payload job"
    using that by (cases "j_status j") (simp_all add: job_wf_def job_edge_def)
  have each: "job_wf j \<and> j_status j \<noteq> Job_RUNNING" if "j \<in> set (update_where ?R ?f (pt_jobs p))" for j
  proof -
    from that obtain x where x: "x \<in> set (pt_jobs p)" "j = (if ?R x then ?f x else x)"
      unfolding set_update_where by blast
    then have "job_wf x" using ok by (simp add: jobs_ok_def)
    from one [OF this] show ?thesis unfolding x(2) by blast
  qed
  have "unique_key j_uid (update_where ?R ?f (pt_jobs p))"
    using ok by (simp add: jobs_ok_def unique_key_update_where)
  with each show "jobs_ok (p\<lparr>pt_jobs := snd (cleanup_orphaned_jobs now (pt_jobs p))\<rparr>, [])"
    unfolding rows by (simp add: jobs_ok_def)
  show "\<forall>x \<in> set (pt_jobs p). \<exists>x' \<in> set (snd (cleanup_orphaned_jobs now (pt_jobs p))). job_edge x x'"
  proof
    fix x
    assume x: "x \<in> set (pt_jobs p)"
    then have "(if ?R x then ?f x else x) \<in> set (snd (cleanup_orphaned_jobs now (pt_jobs p)))"
      unfolding rows set_update_where by blast
    moreover have "job_wf x" using ok x by (simp add: jobs_ok_def)
    ultimately show "\<exists>x' \<in> set (snd (cleanup_orphaned_jobs now (pt_jobs p))). job_edge x x'"
      using one by blast
  qed
qed

lemma job_step_ok:
  assumes ok: "jobs_ok s" and step: "job_step s t"
  shows "jobs_ok t \<and> (\<forall>x \<in> set (pt_jobs (fst s)). \<exists>x' \<in> set (pt_jobs (fst t)). job_edge x x')"
  using step
proof (cases rule: job_step.cases)
  case (claim now locked p job jobs busy)
  from claim(3) obtain j where j: "j \<in> set (pt_jobs p)" "is_pending j"
      "job = j\<lparr>j_status := Job_RUNNING, j_started_at := Some now\<rparr>" "jobs = store_job job (pt_jobs p)"
    by (rule claim_row)
  have "job_wf j" "j_uid j \<notin> set busy" using ok j claim(1) by (auto simp: jobs_ok_def is_pending_def)
  then have "job_edge j job" "job_wf job" using j by (auto simp: job_edge_def job_wf_def is_pending_def)
  with store_job_ok [OF ok [unfolded claim(1)] j(1) this, of "p\<lparr>pt_jobs := jobs\<rparr>" "j_uid job # busy"]
  show ?thesis using j claim by (simp add: is_pending_def)
next
  case (finish uid busy p job env)
  have "filter (\<lambda>j. j_uid j = uid) (pt_jobs p) = [job]"
    using finish(4) by (auto simp: scalar_one_def split: list.splits)
  then have job: "job \<in> set (pt_jobs p)" "j_uid job = uid"
    by (auto dest!: arg_cong [where f = set])
  then have wf: "job_wf job" "j_status job = Job_RUNNING"
    using ok finish(1,3) by (auto simp: jobs_ok_def)
  obtain job' where j': "pt_jobs (process_job env job p) = store_job job' (pt_jobs p)" "job_edge job job'"
      "job_wf job'" "j_status job' \<in> {Job_SUCCEEDED, Job_FAILED}"
    using process_job_row [OF wf] by blast
  note stored = store_job_ok [OF ok [unfolded finish(1)] job(1) j'(2,3,1), of "removeAll uid busy"]
  show ?thesis
    unfolding finish(1,2) fst_conv using stored j'(4) job(2) by (auto split: if_splits)
next
  case (restart p busy now)
  then show ?thesis using restart_ok [of p busy now] ok by simp
next
  case (elsewhere p busy w b)
  then show ?thesis using ok job_edge_refl by (auto simp: jobs_ok_def)
next
  case (queue_dump p busy fresh now caller)
  have "jobs_ok (p, busy)" using ok queue_dump(1) by simp
  from step_enqueues(1,2) [OF this] show ?thesis unfolding queue_dump fst_conv using job_edge_refl by blast
next
  case (queue_spots p busy parse fresh now content_length stream caller)
  have "jobs_ok (p, busy)" using ok queue_spots(1) by simp
  from step_enqueues(3,4) [OF this] show ?thesis unfolding queue_spots fst_conv using job_edge_refl by blast
next
  case (queue_business p busy parse' fresh now content_length stream caller)
  have "jobs_ok (p, busy)" using ok queue_business(1) by simp
  from step_enqueues(5,6) [OF this] show ?thesis unfolding queue_business fst_conv using job_edge_refl by blast
qed

interpretation job_run: step_system job_start job_step jobs_ok
proof
  show "job_start s \<Longrightarrow> jobs_ok s" for s :: "('a, 'b) works"
    by (simp add: job_start_def jobs_ok_def unique_key_def)
  show "jobs_ok s \<Longrightarrow> job_step s t \<Longrightarrow> jobs_ok t" for s t :: "('a, 'b) works"
    using job_step_ok by blast
qed

section \<open>Draining the queue\<close>

lemma idle_cycle:
  assumes "filter is_pending (pt_jobs p) = []"
  shows "run_worker_cycle env (\<lambda>_. False) p = (Inr None, p)"
  using assms by (simp add: run_worker_cycle_def claim_next_job_def ret_def)

lemma store_job_again: "j_uid b = j_uid a \<Longrightarrow> store_job b (store_job a jobs) = store_job b jobs"
  by (induction jobs) (auto simp: store_job_def)

lemma busy_cycle:
  assumes u: "unique_key j_uid (pt_jobs p)" and first: "sort_key j_created_at (filter is_pending (pt_jobs p)) = j # rest"
  obtains job' p' where "run_worker_cycle env (\<lambda>_. False) p = (Inr (Some (j_uid j)), p')"
    "pt_jobs p' = store_job job' (pt_jobs p)" "j_uid job' = j_uid j" "j_status job' \<in> {Job_SUCCEEDED, Job_FAILED}"
proof -
  let ?job = "j\<lparr>j_status := Job_RUNNING, j_started_at := Some (we_now env)\<rparr>"
  let ?jobs = "store_job ?job (pt_jobs p)"
  have claim: "claim_next_job (we_now env) (\<lambda>_. False) (pt_jobs p) = (Some ?job, ?jobs)"
    using first by (simp add: claim_next_job_def store_job_def Let_def)
  have "j \<in> set (filter is_pending (pt_jobs p))" using first by (metis list.set_intros(1) set_sort)
  then have j: "j \<in> set (pt_jobs p)" by simp
  have "set ?jobs = insert ?job (set (pt_jobs p) - {j})" by (rule set_store_job [OF u j]) simp
  moreover have u': "unique_key j_uid ?jobs" using u by (simp add: store_job_uids)
  ultimately have "filter (\<lambda>i. j_uid i = j_uid j) ?jobs = [?job]"
    using filter_unique_key [OF u', of "j_uid j"] get_by_key_mem [OF u', of ?job] by simp
  then have run: "run_worker_cycle env (\<lambda>_. False) p
      = (Inr (Some (j_uid j)), process_job env ?job (p\<lparr>pt_jobs := ?jobs\<rparr>))"
    by (simp add: run_worker_cycle_def claim scalar_one_def check_def ret_def Let_def)
  obtain job' where job': "pt_jobs (process_job env ?job (p\<lparr>pt_jobs := ?jobs\<rparr>)) = store_job job' ?jobs"
      "j_uid job' = j_uid j" "j_status job' \<in> {Job_SUCCEEDED, Job_FAILED}"
    using process_job_stores [of env ?job "p\<lparr>pt_jobs := ?jobs\<rparr>"] by auto
  show ?thesis
    by (rule that [OF run]) (use job' in \<open>simp_all add: store_job_again\<close>)
qed

lemma unchanged_store_job: "j_uid i \<noteq> j_uid job \<Longrightarrow> i \<in> set jobs \<Longrightarrow> i \<in> set (store_job job jobs)"
  by (induction jobs) (auto simp: store_job_def)

text \<open>One run of the worker, cycle by cycle.\<close>

lemma wake_run:
  assumes "unique_key j_uid (pt_jobs p)" and "wake envs k p = (uids, q)"
  shows "uids = map j_uid (sort_key j_created_at (filter is_pending (pt_jobs p)))
     \<and> filter is_pending (pt_jobs q) = [] \<and> map j_uid (pt_jobs q) = map j_uid (pt_jobs p)
     \<and> (\<forall>j \<in> set (pt_jobs p). if is_pending j
          then \<exists>j' \<in> set (pt_jobs q). j_uid j' = j_uid j \<and> j_status j' \<in> {Job_SUCCEEDED, Job_FAILED}
          else j \<in> set (pt_jobs q))"
  using assms
proof (induction envs k p arbitrary: uids q rule: wake.induct)
  case (1 envs k p)
  show ?case
  proof (cases "sort_key j_created_at (filter is_pending (pt_jobs p))")
    case Nil
    then have "filter is_pending (pt_jobs p) = []" by (metis set_empty set_sort)
    with idle_cycle [OF this, of "envs k"] 1(3) Nil show ?thesis
      by (auto simp: wake.simps [of envs k p] filter_empty_conv)
  next
    case (Cons j rest)
    obtain job' p' where cycle: "run_worker_cycle (envs k) (\<lambda>_. False) p = (Inr (Some (j_uid j)), p')"
        and p': "pt_jobs p' = store_job job' (pt_jobs p)" "j_uid job' = j_uid j"
          "j_status job' \<in> {Job_SUCCEEDED, Job_FAILED}"
      by (rule busy_cycle [OF 1(2) Cons])
    obtain left where left: "wake envs (Suc k) p' = (left, q)" "uids = j_uid j # left"
      using 1(3) cycle by (auto simp: wake.simps [of envs k p] split: prod.splits)
    have u': "unique_key j_uid (pt_jobs p')" using 1(2) by (simp add: p' store_job_uids)
    note IH = 1(1) [OF cycle [symmetric] refl refl u' left(1)]
    have "j \<in> set (filter is_pending (pt_jobs p))" using Cons by (metis list.set_intros(1) set_sort)
    then have j: "j \<in> set (pt_jobs p)" "is_pending j" by simp_all
    have over: "\<not> is_pending job'" using p'(3) by (auto simp: is_pending_def)
    have rows: "set (pt_jobs p') = insert job' (set (pt_jobs p) - {j})"
      unfolding p'(1) by (rule set_store_job [OF 1(2) j(1) p'(2)])
    have queue: "sort_key j_created_at (filter is_pending (pt_jobs p')) = rest"
    proof -
      have "filter is_pending (pt_jobs p') = filter (\<lambda>i. j_uid i \<noteq> j_uid j) (filter is_pending (pt_jobs p))"
        by (simp add: p'(1,2) filter_store_job [of is_pending, OF over] del: filter_filter)
      then have "sort_key j_created_at (filter is_pending (pt_jobs p')) = filter (\<lambda>i. j_uid i \<noteq> j_uid j) (j # rest)"
        using Cons by (simp add: filter_sort [symmetric] del: filter_filter)
      moreover have "j_uid j \<notin> j_uid ` set rest"
      proof -
        have "distinct (map j_uid (filter is_pending (pt_jobs p)))"
          using 1(2) by (simp add: unique_key_def distinct_map_filter)
        then have "distinct (map j_uid (sort_key j_created_at (filter is_pending (pt_jobs p))))"
          by (simp add: distinct_map)
        then show ?thesis unfolding Cons by simp
      qed
      moreover from this have "filter (\<lambda>i. j_uid i \<noteq> j_uid j) rest = rest"
        unfolding filter_id_conv by (metis imageI)
      ultimately show ?thesis by simp
    qed
    have each: "if is_pending i
        then \<exists>j' \<in> set (pt_jobs q). j_uid j' = j_uid i \<and> j_status j' \<in> {Job_SUCCEEDED, Job_FAILED}
        else i \<in> set (pt_jobs q)" if i: "i \<in> set (pt_jobs p)" for i
    proof (cases "i = j")
      case True
      have "job' \<in> set (pt_jobs q)" using IH over rows by auto
      then show ?thesis using True j p' by auto
    next
      case False
      then have "i \<in> set (pt_jobs p')" using i rows by blast
      then show ?thesis using IH by blast
    qed
    have "map j_uid (pt_jobs p') = map j_uid (pt_jobs p)"
      by (simp add: p'(1) store_job_def map_key_update_where p'(2))
    then have "uids = map j_uid (j # rest)" "filter is_pending (pt_jobs q) = []"
        "map j_uid (pt_jobs q) = map j_uid (pt_jobs p)"
      using IH queue left(2) by simp_all
    with each show ?thesis unfolding Cons by blast
  qed
qed

text \<open>
  C18: A worker that wakes up empties the queue and stops: it processes the pending jobs in the
  order they were queued, one cycle each, and ends when none is pending.  Every job that was
  pending has then succeeded or failed, and all other rows are as they were, whatever the
  handlers raise.
\<close>

theorem worker_drains_queue:
  assumes "unique_key j_uid (pt_jobs p)" and "wake envs k p = (uids, q)"
  shows "uids = map j_uid (sort_key j_created_at (filter is_pending (pt_jobs p)))
     \<and> filter is_pending (pt_jobs q) = [] \<and> map j_uid (pt_jobs q) = map j_uid (pt_jobs p)
     \<and> (\<forall>j \<in> set (pt_jobs p). if is_pending j
          then \<exists>j' \<in> set (pt_jobs q). j_uid j' = j_uid j \<and> j_status j' \<in> {Job_SUCCEEDED, Job_FAILED}
          else j \<in> set (pt_jobs q))"
  using assms by (rule wake_run)

text \<open>A queue of two dumps, the later one first in the table; \<open>pg_dump\<close> fails.\<close>

definition sample_job :: "uid \<Rightarrow> instant \<Rightarrow> job_payload job" where
  "sample_job i t =
     \<lparr>j_uid = i, j_type = DB_DUMP, j_status = Job_PENDING, j_payload = Empty_Payload, j_result = None,
      j_error = None, j_created_by = ''boss'', j_created_at = t, j_started_at = None, j_finished_at = None\<rparr>"

definition sample_s3 :: "unit s3_client" where
  "sample_s3 = \<lparr>s3_presign_put = (\<lambda>_ _ _ _. []), s3_presign_get = (\<lambda>_ key _ _. key), s3_head = (\<lambda>_ _ _. Inr 0),
     s3_delete = (\<lambda>_ _ b. (Inr (), b)), s3_copy = (\<lambda>_ _ _ b. (Inr (), b)), s3_upload = (\<lambda>_ _ _ b. (Inr (), b))\<rparr>"

definition sample_env :: "int \<Rightarrow> (unit, unit) worker_env" where
  "sample_env returncode =
     \<lparr>we_client = None, we_settings = sample_settings\<lparr>S3_BUCKET := Some ''dumps''\<rparr>, we_s3 = sample_s3, we_now = 9,
      we_fresh = (\<lambda>_. ''fresh''), we_dump_id = ''d'', we_dump_path = ''/tmp/d'', we_pg_dump = (\<lambda>_ _ _. (returncode, ''broken'', 5))\<rparr>"

definition sample_plant :: "(unit, unit) plant" where
  "sample_plant = \<lparr>pt_world = empty_world (), pt_bucket = (), pt_jobs = [sample_job ''late'' 8, sample_job ''soon'' 7]\<rparr>"

lemma worker_drains_queue_witness:
  "fst (wake (\<lambda>_. sample_env 1) 0 sample_plant) = [''soon'', ''late'']"
proof -
  obtain uids q where run: "wake (\<lambda>_. sample_env 1) 0 sample_plant = (uids, q)" by (cases "wake (\<lambda>_. sample_env 1) 0 sample_plant")
  have "unique_key j_uid (pt_jobs sample_plant)"
    by (simp add: sample_plant_def sample_job_def unique_key_def)
  from worker_drains_queue [OF this run] show ?thesis
    by (simp add: run) (simp add: sample_plant_def sample_job_def is_pending_def)
qed

section \<open>The life of every job\<close>

text \<open>A dump from its request to its result.\<close>

definition boss :: user where
  "boss = (sample_user ''boss'')\<lparr>u_staff_role := SUPERUSER\<rparr>"

definition queued :: "job_payload job list \<Rightarrow> (unit, unit) plant" where
  "queued jobs = \<lparr>pt_world = empty_world (), pt_bucket = (), pt_jobs = jobs\<rparr>"

definition started_dump :: "job_payload job" where
  "started_dump = (sample_job ''j'' 7)\<lparr>j_status := Job_RUNNING, j_started_at := Some 8\<rparr>"

definition finished_dump :: "job_payload job" where
  "finished_dump = started_dump\<lparr>j_status := Job_SUCCEEDED, j_result := Some (Dump_Result ''db-dumps/d.dump'' 5),
     j_finished_at := Some 9\<rparr>"

lemma dump_start: "job_start (queued [], [])"
  by (simp add: job_start_def queued_def)

lemma dump_run: "job_step\<^sup>*\<^sup>* (queued [], []) (queued [finished_dump], [])"
proof -
  have "snd (enqueue_db_dump ''j'' 7 (Inr boss) (queued [])) = queued [sample_job ''j'' 7]"
    by (simp add: enqueue_db_dump_def as_role_def require_role_def require_staff_def boss_def sample_user_def
        enqueue_def insert_row_def queued_def sample_job_def ret_def)
  then have 1: "job_step (queued [], []) (queued [sample_job ''j'' 7], [])"
    by (metis job_step.queue_dump)
  have "claim_next_job 8 (\<lambda>_. False) (pt_jobs (queued [sample_job ''j'' 7])) = (Some started_dump, [started_dump])"
    by (simp add: claim_next_job_def queued_def is_pending_def started_dump_def sample_job_def Let_def)
  from job_step.claim [OF this, of "[]"]
  have 2: "job_step (queued [sample_job ''j'' 7], []) (queued [started_dump], [''j''])"
    by (simp add: queued_def started_dump_def sample_job_def)
  have "scalar_one (filter (\<lambda>j. j_uid j = ''j'') (pt_jobs (queued [started_dump]))) = Inr started_dump"
    by (simp add: queued_def started_dump_def sample_job_def scalar_one_def)
  from job_step.finish [OF _ this, of "[''j'']" "sample_env 0"]
  have 3: "job_step (queued [started_dump], [''j'']) (queued [finished_dump], [])"
    by (simp add: process_job_def HANDLERS_def started_dump_def finished_dump_def sample_job_def db_dump_handler_def
        sample_env_def upload_file_def s3_bucket_def truthy_def sample_s3_def ret_def queued_def store_job_def
        dump_key_def DUMP_S3_PREFIX_def)
  from 1 2 3 show ?thesis by (meson converse_rtranclp_into_rtranclp rtranclp.rtrancl_refl)
qed


text \<open>
  C17: Every job is well formed at every moment, and moves only forward.  From an empty table,
  after any sequence of queueing requests, claims, finished jobs, restarts and other writes, a
  pending job has no timestamps and no outcome, a running one has been started and is in the
  hands of a worker (so no two workers hold one job), a succeeded one carries a result of the
  shape of its type and no error, a failed one an error and no result; and the next step keeps
  every row, its type, payload and creator, and moves its status along pending, running,
  succeeded or failed only.
\<close>

theorem job_lifecycle:
  assumes "job_start s" and "job_step\<^sup>*\<^sup>* s t"
  shows "(\<forall>j \<in> set (pt_jobs (fst t)). job_wf j \<and> (j_status j = Job_RUNNING \<longleftrightarrow> j_uid j \<in> set (snd t)))
     \<and> (\<forall>u. job_step t u \<longrightarrow> (\<forall>j \<in> set (pt_jobs (fst t)). \<exists>j' \<in> set (pt_jobs (fst u)). job_edge j j'))"
proof -
  have ok: "jobs_ok t" by (rule job_run.inv_reachable [OF assms])
  then show ?thesis using job_step_ok [OF ok] by (simp add: jobs_ok_def)
qed

lemma job_lifecycle_witness:
  "job_step\<^sup>*\<^sup>* (queued [], []) (queued [finished_dump], []) \<and> job_wf finished_dump"
  using job_lifecycle [OF dump_start dump_run] dump_run by (simp add: queued_def)

text \<open>
  C20: A dump is downloaded only by a superuser, and only what a dump job stored.  In every
  reachable state a signed URL is issued for a job that is a succeeded database dump, to a
  superuser, for an object under \<open>db-dumps/\<close> and with the configured life time; every other
  request ends in the error of the caller's authentication, 403, 404, 409 or 503, never in a
  crash on a result of another shape.
\<close>

theorem db_dump_download_guarded:
  assumes "job_start s" and "job_step\<^sup>*\<^sup>* s (p, busy)"
  shows "case get_db_dump_download_url s3 cfg caller job_id p of
       Inr (url, secs) \<Rightarrow> secs = S3_PRESIGN_EXPIRE_SECONDS cfg
         \<and> (\<exists>u. caller = Inr u \<and> u_is_staff u \<and> u_staff_role u = SUPERUSER)
         \<and> (\<exists>j \<in> set (pt_jobs p). \<exists>key size_bytes bucket disposition. j_uid j = job_id \<and> j_type j = DB_DUMP
              \<and> j_status j = Job_SUCCEEDED \<and> j_result j = Some (Dump_Result key size_bytes)
              \<and> take (length DUMP_S3_PREFIX) key = DUMP_S3_PREFIX \<and> s3_bucket cfg = Inr bucket
              \<and> url = s3_presign_get s3 bucket key disposition secs)
     | Inl e \<Rightarrow> caller = Inl e
         \<or> e \<in> app_error ` {FORBIDDEN, JOB_NOT_FOUND, DB_DUMP_NOT_READY, SERVICE_UNAVAILABLE}"
proof -
  have ok: "jobs_ok (p, busy)" by (rule job_run.inv_reachable [OF assms])
  then have u: "unique_key j_uid (pt_jobs p)" by (simp add: jobs_ok_def)
  show ?thesis
  proof (cases "as_role SUPERUSER caller")
    case (Inl e)
    then have "caller = Inl e \<or> e = app_error FORBIDDEN"
      by (cases caller) (auto simp: as_role_def require_role_def require_staff_def split: if_splits)
    then show ?thesis using Inl by (auto simp: get_db_dump_download_url_def)
  next
    case (Inr staff)
    then have staff: "caller = Inr staff" "u_is_staff staff" "u_staff_role staff = SUPERUSER"
      by (auto simp: as_role_Inr less_eq_staff_role_def STAFF_ROLE_RANK_def split: staff_role.splits)
    show ?thesis
    proof (cases "get_by_key j_uid job_id (pt_jobs p)")
      case None
      then show ?thesis
        using Inr by (simp add: get_db_dump_download_url_def get_job_by_id_def scalar_one_or_none_unique [OF u])
    next
      case (Some j)
      then have j: "j \<in> set (pt_jobs p)" "j_uid j = job_id" by (auto dest: get_by_key_Some_key)
      have found: "get_job_by_id job_id p = Inr (Some j)"
        using Some by (simp add: get_job_by_id_def scalar_one_or_none_unique [OF u])
      have wf: "job_wf j" using ok j(1) by (simp add: jobs_ok_def)
      show ?thesis
      proof (cases "j_type j = DB_DUMP \<and> j_status j = Job_SUCCEEDED")
        case True
        with wf obtain key n where "j_result j = Some (Dump_Result key n)"
            "take (length DUMP_S3_PREFIX) key = DUMP_S3_PREFIX"
          by (auto simp: job_wf_def elim: result_matches.elims)
        then show ?thesis
          using True Inr found staff j
          by (auto simp: get_db_dump_download_url_def generate_presigned_get_def s3_bucket_def)
      next
        case False
        then show ?thesis using Inr found by (auto simp: get_db_dump_download_url_def)
      qed
    qed
  qed
qed

lemma db_dump_download_guarded_witness:
  "\<exists>url. get_db_dump_download_url sample_s3 (sample_settings\<lparr>S3_BUCKET := Some ''dumps''\<rparr>) (Inr boss) ''j''
       (queued [finished_dump]) = Inr (url, 3600) \<and> url = ''db-dumps/d.dump''"
proof -
  let ?cfg = "sample_settings\<lparr>S3_BUCKET := Some ''dumps''\<rparr>"
  obtain url secs where run: "get_db_dump_download_url sample_s3 ?cfg (Inr boss) ''j'' (queued [finished_dump])
      = Inr (url, secs)"
    by (simp add: get_db_dump_download_url_def as_role_def require_role_def require_staff_def boss_def
        sample_user_def get_job_by_id_def scalar_one_or_none_def queued_def finished_dump_def started_dump_def
        sample_job_def generate_presigned_get_def s3_bucket_def truthy_def)
  then show ?thesis
    using db_dump_download_guarded [where ?s3.0 = sample_s3 and cfg = ?cfg and caller = "Inr boss"
        and job_id = "''j''", OF dump_start dump_run]
    by (auto simp: queued_def finished_dump_def sample_s3_def sample_settings_def default_settings_def)
qed

end
