(* ===== verification/Reviews.thy ===== *)
theory Reviews
  imports Images
begin

text \<open>
  Reviews of spots and their reports: \<open>crud/spot_review.py\<close>, \<open>crud/spot_review_report.py\<close>,
  \<open>endpoints/spot_reviews.py\<close> and \<open>endpoints/internal_review_reports.py\<close>.

  The rating of a spot is a stored copy of what its active reviews say; the machine at the end
  runs every request of the review endpoints, among other writes that leave ratings alone (a
  bulk upsert, which writes them too, is not among them: see \<open>Bulk\<close>).  The average is the
  rational number; the code rounds it to a double.
\<close>

section \<open>Statements\<close>

definition is_active_review :: "uid \<Rightarrow> spot_review \<Rightarrow> bool" where
  "is_active_review spot_uid r \<longleftrightarrow> rv_spot_uid r = spot_uid \<and> rv_deleted_at r = None"

text \<open>\<open>func.avg\<close> of no rows is NULL, which the code stores as 0.\<close>

definition average_or_zero :: "int list \<Rightarrow> rat" where
  "average_or_zero ratings =
     (if ratings = [] then 0 else of_int (sum_list ratings) / of_nat (length ratings))"

definition recalculate_spot_rating :: "instant \<Rightarrow> uid \<Rightarrow> 'r world \<Rightarrow> 'r world" where
  "recalculate_spot_rating now spot_uid w =
     (let ratings = map rv_rating (filter (is_active_review spot_uid) (spot_reviews w))
      in update_spots now (\<lambda>s. s_uid s = spot_uid)
           (\<lambda>s. s\<lparr>s_rating_avg := average_or_zero ratings, s_review_count := int (length ratings)\<rparr>) w)"

definition get_active_review :: "uid \<Rightarrow> uid \<Rightarrow> 'r world \<Rightarrow> spot_review option res" where
  "get_active_review spot_uid user_uid w =
     scalar_one_or_none multiple_results
       (filter (\<lambda>r. rv_spot_uid r = spot_uid \<and> rv_user_id r = user_uid \<and> rv_deleted_at r = None)
          (spot_reviews w))"

definition get_review_by_uid :: "uid \<Rightarrow> 'r world \<Rightarrow> spot_review option res" where
  "get_review_by_uid uid w =
     scalar_one_or_none multiple_results (filter (\<lambda>r. rv_uid r = uid) (spot_reviews w))"

text \<open>
  The constraints of the table: the range of the rating, the foreign key to the spot, the
  primary key, and one active review of a user and a spot.
\<close>

definition rating_in_range :: "int \<Rightarrow> bool" where
  "rating_in_range n \<longleftrightarrow> 0 \<le> n \<and> n \<le> 10"

definition insert_review :: "spot_review \<Rightarrow> 'r world \<Rightarrow> 'r world option" where
  "insert_review r w =
     (if \<not> rating_in_range (rv_rating r) \<or> rv_spot_uid r \<notin> s_uid ` set (spots w)
         \<or> rv_uid r \<in> rv_uid ` set (spot_reviews w)
         \<or> (\<exists>x \<in> set (spot_reviews w). is_active_review (rv_spot_uid r) x \<and> rv_user_id x = rv_user_id r)
      then None else Some (w\<lparr>spot_reviews := spot_reviews w @ [r]\<rparr>))"

definition create_review ::
    "'r redis_client option \<Rightarrow> uid \<Rightarrow> instant \<Rightarrow> uid \<Rightarrow> uid \<Rightarrow> int \<Rightarrow> string option \<Rightarrow> 'r world
       \<Rightarrow> spot_review res \<times> 'r world" where
  "create_review client fresh now spot_uid user_uid rating content w =
     check (get_active_review spot_uid user_uid w) w (\<lambda>found.
       if found \<noteq> None then raise (app_error REVIEW_ALREADY_EXISTS) w
       else let r = \<lparr>rv_uid = fresh, rv_spot_uid = spot_uid, rv_user_id = user_uid,
                     rv_rating = rating, rv_content = content, rv_created_at = Some now,
                     rv_updated_at = Some now, rv_deleted_at = None\<rparr>
            in case insert_review r w of
                 None \<Rightarrow> raise integrity_error w
               | Some w' \<Rightarrow>
                   ret r (invalidate_detail client spot_uid (recalculate_spot_rating now spot_uid w')))"

definition list_reviews_by_spot ::
    "uid \<Rightarrow> nat \<Rightarrow> nat \<Rightarrow> 'r world \<Rightarrow> (spot_review \<times> string) list \<times> nat" where
  "list_reviews_by_spot spot_uid offset limit w =
     (offset_limit offset limit
        (newest_first (\<lambda>(r, nickname). rv_created_at r)
          [(r, u_nickname u). r \<leftarrow> spot_reviews w, u \<leftarrow> users w,
             u_uid u = rv_user_id r \<and> is_active_review spot_uid r]),
      count_where (is_active_review spot_uid) (spot_reviews w))"

datatype review_attr =
    Set_rating "int option"
  | Set_content "string option"

fun set_review_attr :: "review_attr \<Rightarrow> spot_review \<Rightarrow> spot_review option" where
  "set_review_attr (Set_rating v) r =
     (case v of None \<Rightarrow> None
      | Some n \<Rightarrow> if rating_in_range n then Some (r\<lparr>rv_rating := n\<rparr>) else None)"
| "set_review_attr (Set_content v) r = Some (r\<lparr>rv_content := v\<rparr>)"

fun set_review_attrs :: "review_attr list \<Rightarrow> spot_review \<Rightarrow> spot_review option" where
  "set_review_attrs [] r = Some r"
| "set_review_attrs (a # as) r =
     (case set_review_attr a r of None \<Rightarrow> None | Some r' \<Rightarrow> set_review_attrs as r')"

fun is_rating_attr :: "review_attr \<Rightarrow> bool" where
  "is_rating_attr (Set_rating _) = True"
| "is_rating_attr (Set_content _) = False"

definition update_review ::
    "'r redis_client option \<Rightarrow> instant \<Rightarrow> spot_review \<Rightarrow> review_attr list \<Rightarrow> 'r world
       \<Rightarrow> spot_review res \<times> 'r world" where
  "update_review client now r data w =
     (case set_review_attrs data r of
        None \<Rightarrow> raise integrity_error w
      | Some changed \<Rightarrow>
          let saved = (if changed = r then r else changed\<lparr>rv_updated_at := Some now\<rparr>);
              w' = w\<lparr>spot_reviews := update_where (\<lambda>x. rv_uid x = rv_uid r) (\<lambda>_. saved) (spot_reviews w)\<rparr>
          in ret saved
               (if list_ex is_rating_attr data
                then invalidate_detail client (rv_spot_uid r)
                       (recalculate_spot_rating now (rv_spot_uid r) w')
                else w'))"

definition soft_delete_review ::
    "'r redis_client option \<Rightarrow> instant \<Rightarrow> spot_review \<Rightarrow> 'r world \<Rightarrow> 'r world" where
  "soft_delete_review client now r w =
     invalidate_detail client (rv_spot_uid r)
       (recalculate_spot_rating now (rv_spot_uid r)
         (w\<lparr>spot_reviews := update_where (\<lambda>x. rv_uid x = rv_uid r)
               (\<lambda>x. x\<lparr>rv_deleted_at := Some now, rv_updated_at := Some now\<rparr>) (spot_reviews w)\<rparr>))"

definition report_key :: "review_report \<Rightarrow> uid \<times> uid" where
  "report_key r = (rr_review_uid r, rr_reporter_user_uid r)"

definition create_report ::
    "uid \<Rightarrow> instant \<Rightarrow> uid \<Rightarrow> uid \<Rightarrow> string \<Rightarrow> 'r world \<Rightarrow> review_report res \<times> 'r world" where
  "create_report fresh now review_uid reporter_uid reason w =
     check (scalar_one_or_none multiple_results
              (filter (\<lambda>x. report_key x = (review_uid, reporter_uid)) (review_reports w))) w (\<lambda>existing.
       if existing \<noteq> None then raise (app_error REVIEW_REPORT_ALREADY_EXISTS) w
       else let x = \<lparr>rr_uid = fresh, rr_review_uid = review_uid, rr_reporter_user_uid = reporter_uid,
                     rr_reason = reason, rr_created_at = Some now\<rparr>
            in case insert_row rr_uid x (review_reports w) of
                 None \<Rightarrow> raise integrity_error w
               | Some rows \<Rightarrow> ret x (w\<lparr>review_reports := rows\<rparr>))"

definition list_reports_admin ::
    "nat \<Rightarrow> nat \<Rightarrow> string \<Rightarrow> string option \<Rightarrow> string option \<Rightarrow> 'r world
       \<Rightarrow> (review_report \<times> string \<times> uid \<times> bool) list \<times> nat" where
  "list_reports_admin offset limit direction review_uid spot_uid w =
     (let found = [(x, u_nickname u, rv_spot_uid r, rv_deleted_at r \<noteq> None).
            x \<leftarrow> review_reports w, u \<leftarrow> users w, r \<leftarrow> spot_reviews w,
            u_uid u = rr_reporter_user_uid x \<and> rv_uid r = rr_review_uid x
              \<and> (truthy review_uid \<longrightarrow> Some (rr_review_uid x) = review_uid)
              \<and> (truthy spot_uid \<longrightarrow> Some (rv_spot_uid r) = spot_uid)]
      in (offset_limit offset limit
            (order_rows (\<lambda>(x, _). sort_number (map_option of_int (rr_created_at x))) direction found),
          length found))"

section \<open>Endpoints\<close>

record review_out =
  ro_uid :: uid
  ro_spot_uid :: uid
  ro_user_uid :: uid
  ro_nickname :: string
  ro_rating :: int
  ro_content :: "string option"
  ro_created_at :: "instant option"
  ro_updated_at :: "instant option"

definition review_out_of :: "spot_review \<Rightarrow> string \<Rightarrow> review_out" where
  "review_out_of r nickname =
     \<lparr>ro_uid = rv_uid r, ro_spot_uid = rv_spot_uid r, ro_user_uid = rv_user_id r,
      ro_nickname = nickname, ro_rating = rv_rating r, ro_content = rv_content r,
      ro_created_at = rv_created_at r, ro_updated_at = rv_updated_at r\<rparr>"

definition get_published_spot_or_404 :: "settings \<Rightarrow> uid \<Rightarrow> 'r world \<Rightarrow> spot res" where
  "get_published_spot_or_404 cfg spot_uid w =
     bindE (get_spot_by_uid cfg spot_uid True w) (\<lambda>found.
       case found of None \<Rightarrow> Inl (app_error SPOT_NOT_FOUND) | Some s \<Rightarrow> Inr s)"

definition get_active_review_or_404 :: "settings \<Rightarrow> uid \<Rightarrow> uid \<Rightarrow> 'r world \<Rightarrow> spot_review res" where
  "get_active_review_or_404 cfg spot_uid review_uid w =
     bindE (get_published_spot_or_404 cfg spot_uid w) (\<lambda>s.
     bindE (get_review_by_uid review_uid w) (\<lambda>found.
       case found of
         None \<Rightarrow> Inl (app_error REVIEW_NOT_FOUND)
       | Some r \<Rightarrow> if rv_spot_uid r \<noteq> s_uid s \<or> rv_deleted_at r \<noteq> None
                   then Inl (app_error REVIEW_NOT_FOUND) else Inr r))"

definition is_moderator :: "user \<Rightarrow> bool" where
  "is_moderator u \<longleftrightarrow> u_is_staff u \<and> STAFF_ROLE_RANK (u_staff_role u) \<ge> STAFF_ROLE_RANK MANAGER"

definition valid_content :: "string option \<Rightarrow> bool" where
  "valid_content c = (case c of None \<Rightarrow> True | Some t \<Rightarrow> str_len t \<le> 2000)"

fun valid_review_attr :: "review_attr \<Rightarrow> bool" where
  "valid_review_attr (Set_rating v) = (case v of None \<Rightarrow> True | Some n \<Rightarrow> rating_in_range n)"
| "valid_review_attr (Set_content c) = valid_content c"

definition create_review_endpoint ::
    "'r redis_client option \<Rightarrow> settings \<Rightarrow> uid \<Rightarrow> instant \<Rightarrow> user option res \<Rightarrow> string option \<Rightarrow> uid
       \<Rightarrow> int \<Rightarrow> string option \<Rightarrow> 'r world \<Rightarrow> review_out res \<times> 'r world" where
  "create_review_endpoint client cfg fresh now visitor client_host spot_uid rating content w =
     bindR (rate_limited client ''review_create'' 30 3600 visitor client_host w) (\<lambda>_ w.
     check (get_published_spot_or_404 cfg spot_uid w) w (\<lambda>s.
     check (login_required visitor) w (\<lambda>u.
       if \<not> rating_in_range rating \<or> \<not> valid_content content then raise RequestValidationError w
       else bindR (create_review client fresh now (s_uid s) (u_uid u) rating content w)
              (\<lambda>r w'. ret (review_out_of r (u_nickname u)) w'))))"

definition list_reviews :: "settings \<Rightarrow> uid \<Rightarrow> int \<Rightarrow> int \<Rightarrow> 'r world \<Rightarrow> review_out list res" where
  "list_reviews cfg spot_uid offset limit w =
     bindE (get_published_spot_or_404 cfg spot_uid w) (\<lambda>s.
     bindE (paging_query offset limit) (\<lambda>(o', l).
       Inr (map (\<lambda>(r, nickname). review_out_of r nickname)
              (fst (list_reviews_by_spot (s_uid s) o' l w)))))"

definition update_review_endpoint ::
    "'r redis_client option \<Rightarrow> settings \<Rightarrow> instant \<Rightarrow> user res \<Rightarrow> uid \<Rightarrow> uid \<Rightarrow> review_attr list
       \<Rightarrow> 'r world \<Rightarrow> review_out res \<times> 'r world" where
  "update_review_endpoint client cfg now caller spot_uid review_uid data w =
     check (get_active_review_or_404 cfg spot_uid review_uid w) w (\<lambda>r.
     check caller w (\<lambda>u.
       if \<not> list_all valid_review_attr data then raise RequestValidationError w
       else if rv_user_id r \<noteq> u_uid u then raise (app_error FORBIDDEN) w
       else bindR (update_review client now r data w)
              (\<lambda>r' w'. ret (review_out_of r' (u_nickname u)) w')))"

definition delete_review ::
    "'r redis_client option \<Rightarrow> settings \<Rightarrow> instant \<Rightarrow> user res \<Rightarrow> uid \<Rightarrow> uid \<Rightarrow> 'r world
       \<Rightarrow> unit res \<times> 'r world" where
  "delete_review client cfg now caller spot_uid review_uid w =
     check (get_active_review_or_404 cfg spot_uid review_uid w) w (\<lambda>r.
     check caller w (\<lambda>u.
       if rv_user_id r \<noteq> u_uid u \<and> \<not> is_moderator u then raise (app_error FORBIDDEN) w
       else ret () (soft_delete_review client now r w)))"

definition report_review ::
    "'r redis_client option \<Rightarrow> settings \<Rightarrow> uid \<Rightarrow> instant \<Rightarrow> user option res \<Rightarrow> string option \<Rightarrow> uid
       \<Rightarrow> uid \<Rightarrow> string \<Rightarrow> 'r world \<Rightarrow> unit res \<times> 'r world" where
  "report_review client cfg fresh now visitor client_host spot_uid review_uid reason w =
     bindR (rate_limited client ''review_report'' 30 3600 visitor client_host w) (\<lambda>_ w.
     check (get_active_review_or_404 cfg spot_uid review_uid w) w (\<lambda>r.
     check (login_required visitor) w (\<lambda>u.
       if str_len reason < 1 \<or> 1000 < str_len reason then raise RequestValidationError w
       else if rv_user_id r = u_uid u then raise (app_error FORBIDDEN) w
       else bindR (create_report fresh now (rv_uid r) (u_uid u) reason w) (\<lambda>_ w'. ret () w'))))"

record review_report_admin_out =
  ra_uid :: uid
  ra_review_uid :: uid
  ra_spot_uid :: uid
  ra_reporter_user_uid :: uid
  ra_reporter_nickname :: string
  ra_reason :: string
  ra_review_deleted :: bool
  ra_created_at :: "instant option"

definition list_review_reports ::
    "user res \<Rightarrow> int \<Rightarrow> int \<Rightarrow> string \<Rightarrow> string \<Rightarrow> string option \<Rightarrow> string option \<Rightarrow> 'r world
       \<Rightarrow> (review_report_admin_out list \<times> nat) res" where
  "list_review_reports caller start to sort_field direction review_uid spot_uid w =
     bindE (as_staff caller) (\<lambda>_.
       if start < 0 \<or> to < 0 then Inl RequestValidationError
       else if sort_field \<noteq> ''created_at'' then Inl (app_error VALIDATION_ERROR)
       else case list_reports_admin (nat start) (nat (to - start)) (str_lower direction)
                   review_uid spot_uid w of
         (found, n) \<Rightarrow>
           Inr (map (\<lambda>(x, nickname, spot, deleted).
                  \<lparr>ra_uid = rr_uid x, ra_review_uid = rr_review_uid x, ra_spot_uid = spot,
                   ra_reporter_user_uid = rr_reporter_user_uid x, ra_reporter_nickname = nickname,
                   ra_reason = rr_reason x, ra_review_deleted = deleted,
                   ra_created_at = rr_created_at x\<rparr>) found, n))"

section \<open>The board of ratings\<close>

text \<open>
  What the reviews mean: each user has at most one rating of a spot.  The rows of the table
  that are not deleted represent such a board.
\<close>

definition review_key :: "spot_review \<Rightarrow> uid \<times> uid" where
  "review_key r = (rv_spot_uid r, rv_user_id r)"

definition active_rows :: "'r world \<Rightarrow> spot_review list" where
  "active_rows w = filter (\<lambda>r. rv_deleted_at r = None) (spot_reviews w)"

definition board :: "'r world \<Rightarrow> uid \<times> uid \<Rightarrow> int option" where
  "board w k = map_option rv_rating (get_by_key review_key k (active_rows w))"

definition reviews_ok :: "'r world \<Rightarrow> bool" where
  "reviews_ok w \<longleftrightarrow> unique_key rv_uid (spot_reviews w) \<and> unique_key review_key (active_rows w)
     \<and> (\<forall>r \<in> set (spot_reviews w). rating_in_range (rv_rating r) \<and> rv_spot_uid r \<in> s_uid ` set (spots w))"

definition ratings :: "uid \<Rightarrow> 'r world \<Rightarrow> int list" where
  "ratings spot_uid w = map rv_rating (filter (is_active_review spot_uid) (spot_reviews w))"

definition ratings_stored :: "'r world \<Rightarrow> bool" where
  "ratings_stored w \<longleftrightarrow> (\<forall>s \<in> set (spots w). s_rating_avg s = average_or_zero (ratings (s_uid s) w)
     \<and> s_review_count s = int (length (ratings (s_uid s) w)))"

lemma review_world_sel [simp]:
  "spot_reviews (invalidate_detail client uid w) = spot_reviews w"
  "spots (invalidate_detail client uid w) = spots w"
  "spot_reviews (recalculate_spot_rating t uid w) = spot_reviews w"
  "s_uid ` set (spots (recalculate_spot_rating t uid w)) = s_uid ` set (spots w)"
  by (simp_all add: invalidate_detail_def recalculate_spot_rating_def update_spots_def Let_def
      image_key_update_where)

lemma ratings_cong: "spot_reviews w' = spot_reviews w \<Longrightarrow> ratings uid w' = ratings uid w"
  by (simp add: ratings_def)

lemma reviews_ok_cong:
  "spot_reviews w' = spot_reviews w \<Longrightarrow> s_uid ` set (spots w) \<subseteq> s_uid ` set (spots w') \<Longrightarrow>
     reviews_ok w \<Longrightarrow> reviews_ok w'"
  by (auto simp: reviews_ok_def active_rows_def)

text \<open>After the recalculation of one spot, the others being right, all are.\<close>

lemma recalculate_stored:
  assumes "\<And>s. s \<in> set (spots w) \<Longrightarrow> s_uid s \<noteq> uid \<Longrightarrow>
      s_rating_avg s = average_or_zero (ratings (s_uid s) w)
      \<and> s_review_count s = int (length (ratings (s_uid s) w))"
  shows "ratings_stored (recalculate_spot_rating t uid w)"
proof -
  have same: "ratings k (recalculate_spot_rating t uid w) = ratings k w" for k
    by (rule ratings_cong) simp
  show ?thesis
    unfolding ratings_stored_def same
    using assms
    by (auto simp: recalculate_spot_rating_def update_spots_def Let_def set_update_where ratings_def)
qed

lemma board_cong: "spot_reviews w' = spot_reviews w \<Longrightarrow> board w' = board w"
  by (simp add: board_def active_rows_def fun_eq_iff)

text \<open>What a new row, a changed row and a deleted row do to the table.\<close>

lemma insert_review_ok:
  assumes "reviews_ok w" and "insert_review r w = Some w'" and "rv_deleted_at r = None"
  shows "reviews_ok w'" and "board w' = (board w)(review_key r \<mapsto> rv_rating r)"
    and "board w (review_key r) = None"
    and "uid \<noteq> rv_spot_uid r \<Longrightarrow> ratings uid w' = ratings uid w" and "spots w' = spots w"
proof -
  have rows: "w' = w\<lparr>spot_reviews := spot_reviews w @ [r]\<rparr>" "rating_in_range (rv_rating r)"
      "rv_spot_uid r \<in> s_uid ` set (spots w)" "rv_uid r \<notin> rv_uid ` set (spot_reviews w)"
      "review_key r \<notin> review_key ` set (active_rows w)"
    using assms(2)
    by (auto simp: insert_review_def is_active_review_def review_key_def active_rows_def split: if_splits)
  have active: "active_rows w' = active_rows w @ [r]"
    using assms(3) by (simp add: rows(1) active_rows_def)
  show "spots w' = spots w" by (simp add: rows(1))
  show "reviews_ok w'"
    using assms(1) rows(2-5) unfolding reviews_ok_def active by (auto simp: unique_key_snoc rows(1))
  show "board w (review_key r) = None"
    using rows(5) by (simp add: board_def get_by_key_None_iff)
  then show "board w' = (board w)(review_key r \<mapsto> rv_rating r)"
    by (auto simp: board_def active get_by_key_append fun_eq_iff split: option.split)
  show "uid \<noteq> rv_spot_uid r \<Longrightarrow> ratings uid w' = ratings uid w"
    by (simp add: ratings_def rows(1) is_active_review_def)
qed

lemma change_review_ok:
  assumes ok: "reviews_ok w" and r: "r \<in> set (spot_reviews w)" and active: "rv_deleted_at r = None"
    and same: "rv_uid r' = rv_uid r" "review_key r' = review_key r" "rv_deleted_at r' = None"
      "rating_in_range (rv_rating r')"
    and w': "w' = w\<lparr>spot_reviews := update_where (\<lambda>x. rv_uid x = rv_uid r) (\<lambda>_. r') (spot_reviews w)\<rparr>"
  shows "reviews_ok w'" and "board w' = (board w)(review_key r \<mapsto> rv_rating r')"
    and "uid \<noteq> rv_spot_uid r \<Longrightarrow> ratings uid w' = ratings uid w"
    and "rv_rating r' = rv_rating r \<Longrightarrow> ratings uid w' = ratings uid w"
proof -
  let ?g = "\<lambda>x. if x = r then r' else x"
  have rows: "spot_reviews w' = map ?g (spot_reviews w)"
    using update_where_row [of rv_uid "spot_reviews w" r "\<lambda>_. r'"] ok r
    by (simp add: w' reviews_ok_def)
  have act: "active_rows w' = map ?g (active_rows w)"
    by (simp add: active_rows_def rows filter_map comp_def active same(3)) (rule map_cong, auto intro: filter_cong simp: active same(3))
  have key: "rv_uid (?g x) = rv_uid x" "review_key (?g x) = review_key x" for x
    using same by simp_all
  have keys: "map rv_uid (spot_reviews w') = map rv_uid (spot_reviews w)"
      "map review_key (active_rows w') = map review_key (active_rows w)"
    unfolding rows act map_map comp_def key by simp_all
  have "spots w' = spots w" by (simp add: w')
  moreover have "\<forall>x \<in> set (spot_reviews w'). rating_in_range (rv_rating x) \<and> rv_spot_uid x \<in> s_uid ` set (spots w)"
    using ok r same(2,4) unfolding rows by (auto simp: reviews_ok_def review_key_def)
  ultimately show "reviews_ok w'"
    using ok unfolding reviews_ok_def unique_key_def keys by simp
  have mem: "r \<in> set (active_rows w)" using r active by (simp add: active_rows_def)
  then have "get_by_key review_key (review_key r) (active_rows w) = Some r"
    using ok by (intro get_by_key_mem) (simp add: reviews_ok_def)
  moreover have "x \<noteq> r" if "get_by_key review_key k (active_rows w) = Some x" "k \<noteq> review_key r" for k x
    using that by (auto dest: get_by_key_Some_key)
  ultimately show "board w' = (board w)(review_key r \<mapsto> rv_rating r')"
    by (auto simp: board_def act get_by_key_map [of review_key ?g, OF key(2)] fun_eq_iff
        option.map_comp comp_def split: option.split intro!: option.map_cong)
  show "uid \<noteq> rv_spot_uid r \<Longrightarrow> ratings uid w' = ratings uid w"
    using same(2)
    by (auto simp: ratings_def rows filter_map comp_def is_active_review_def review_key_def
        intro!: map_cong filter_cong)
  show "rv_rating r' = rv_rating r \<Longrightarrow> ratings uid w' = ratings uid w"
    using same(2,3) active
    by (auto simp: ratings_def rows filter_map comp_def is_active_review_def review_key_def
        intro!: map_cong filter_cong)
qed
lemma delete_review_ok:
  assumes ok: "reviews_ok w" and r: "r \<in> set (spot_reviews w)" and active: "rv_deleted_at r = None"
    and f: "\<And>x. rv_uid (f x) = rv_uid x \<and> review_key (f x) = review_key x
        \<and> rv_rating (f x) = rv_rating x \<and> rv_deleted_at (f x) \<noteq> None"
    and w': "w' = w\<lparr>spot_reviews := update_where (\<lambda>x. rv_uid x = rv_uid r) f (spot_reviews w)\<rparr>"
  shows "reviews_ok w'" and "board w' = (board w)(review_key r := None)"
    and "uid \<noteq> rv_spot_uid r \<Longrightarrow> ratings uid w' = ratings uid w"
proof -
  let ?g = "\<lambda>x. if x = r then f x else x"
  have rows: "spot_reviews w' = map ?g (spot_reviews w)"
    using update_where_row [of rv_uid "spot_reviews w" r f] ok r by (simp add: w' reviews_ok_def)
  have "filter (\<lambda>x. rv_deleted_at x = None) (map ?g xs) = delete_where (\<lambda>x. x = r) (filter (\<lambda>x. rv_deleted_at x = None) xs)" for xs
    using f by (induction xs) auto
  then have act: "active_rows w' = delete_where (\<lambda>x. x = r) (active_rows w)"
    by (simp add: active_rows_def rows)
  have uids: "map rv_uid (spot_reviews w') = map rv_uid (spot_reviews w)"
    using f by (simp add: rows)
  have "spots w' = spots w" by (simp add: w')
  moreover have "\<forall>x \<in> set (spot_reviews w'). rating_in_range (rv_rating x) \<and> rv_spot_uid x \<in> s_uid ` set (spots w)"
    using ok f unfolding rows by (auto simp: reviews_ok_def review_key_def)
  moreover have "unique_key review_key (active_rows w')"
    using ok by (simp add: act reviews_ok_def unique_key_delete_where)
  ultimately show "reviews_ok w'"
    using ok unfolding reviews_ok_def by (simp add: unique_key_def uids)
  have "get_by_key review_key k (active_rows w') = (if k = review_key r then None else get_by_key review_key k (active_rows w))" for k
  proof (cases "k = review_key r")
    case True
    have "r \<in> set (active_rows w)" using r active by (simp add: active_rows_def)
    then have "review_key x \<noteq> k" if "x \<in> set (active_rows w')" for x
      using ok that unique_key_eq [of review_key "active_rows w" x r] True
      by (auto simp: reviews_ok_def act)
    then have "k \<notin> review_key ` set (active_rows w')" by blast
    with True show ?thesis by (simp add: get_by_key_None_iff)
  next
    case False
    then show ?thesis unfolding act by (auto intro!: get_by_key_delete_other)
  qed
  then show "board w' = (board w)(review_key r := None)"
    by (auto simp: board_def fun_eq_iff)
  show "uid \<noteq> rv_spot_uid r \<Longrightarrow> ratings uid w' = ratings uid w"
    using f by (auto simp: ratings_def rows filter_map comp_def is_active_review_def review_key_def
        intro!: map_cong filter_cong)
qed

lemma set_review_attr_same:
  "set_review_attr a r = Some r' \<Longrightarrow> rv_uid r' = rv_uid r \<and> review_key r' = review_key r
     \<and> rv_deleted_at r' = rv_deleted_at r
     \<and> (rating_in_range (rv_rating r) \<longrightarrow> rating_in_range (rv_rating r'))
     \<and> (\<not> is_rating_attr a \<longrightarrow> rv_rating r' = rv_rating r)"
  by (cases a) (auto simp: review_key_def split: option.splits if_splits)

lemma set_review_attrs_same:
  "set_review_attrs as r = Some r' \<Longrightarrow> rv_uid r' = rv_uid r \<and> review_key r' = review_key r
     \<and> rv_deleted_at r' = rv_deleted_at r
     \<and> (rating_in_range (rv_rating r) \<longrightarrow> rating_in_range (rv_rating r'))
     \<and> (\<not> list_ex is_rating_attr as \<longrightarrow> rv_rating r' = rv_rating r)"
proof (induction as arbitrary: r)
  case (Cons a as)
  then obtain r1 where "set_review_attr a r = Some r1" "set_review_attrs as r1 = Some r'"
    by (auto split: option.splits)
  with Cons.IH [of r1] set_review_attr_same [of a r r1] show ?case by auto
qed simp

section \<open>The machine of reviews\<close>

lemma get_by_uid_mem:
  "get_review_by_uid k w = Inr (Some r) \<Longrightarrow> r \<in> set (spot_reviews w) \<and> rv_uid r = k"
  by (auto simp: get_review_by_uid_def scalar_one_or_none_Some_iff filter_eq_Cons_iff)

lemma get_active_review_or_404_mem:
  "get_active_review_or_404 cfg s k w = Inr r \<Longrightarrow>
     r \<in> set (spot_reviews w) \<and> rv_uid r = k \<and> rv_deleted_at r = None"
  by (auto simp: get_active_review_or_404_def bindE_Inr_iff split: option.splits if_splits
      dest: get_by_uid_mem)

text \<open>\<open>good w\<close>: the tables are well formed and every spot stores what its reviews say.\<close>

definition good :: "'r world \<Rightarrow> bool" where
  "good w \<longleftrightarrow> reviews_ok w \<and> ratings_stored w"

lemma good_recalculated:
  assumes "reviews_ok w'" and "spots w' = spots w" and "ratings_stored w"
    and "\<And>k. k \<noteq> uid \<Longrightarrow> ratings k w' = ratings k w"
  shows "good (invalidate_detail client uid (recalculate_spot_rating t uid w'))"
proof -
  have "ratings_stored (recalculate_spot_rating t uid w')"
    using assms by (intro recalculate_stored) (simp add: ratings_stored_def)
  then have "ratings_stored (invalidate_detail client uid (recalculate_spot_rating t uid w'))"
    by (simp add: ratings_stored_def ratings_def)
  moreover have "reviews_ok (invalidate_detail client uid (recalculate_spot_rating t uid w'))"
    by (rule reviews_ok_cong [OF _ _ assms(1)]) simp_all
  ultimately show ?thesis by (simp add: good_def)
qed

lemma good_create: "good w \<Longrightarrow> good (snd (create_review client i t s u n c w))"
  unfolding create_review_def Let_def
  by (rule check_state [where P = good])
    (auto simp: good_def [of w] insert_review_ok split: option.split
      intro!: good_recalculated [where w = w])

lemma good_update:
  assumes ok: "good w" and r: "r \<in> set (spot_reviews w)" "rv_deleted_at r = None"
  shows "good (snd (update_review client t r data w))"
proof (cases "set_review_attrs data r")
  case (Some changed)
  note same = set_review_attrs_same [OF Some]
  let ?r' = "if changed = r then r else changed\<lparr>rv_updated_at := Some t\<rparr>"
  define w' where w': "w' = w\<lparr>spot_reviews := update_where (\<lambda>x. rv_uid x = rv_uid r) (\<lambda>_. ?r') (spot_reviews w)\<rparr>"
  have "rating_in_range (rv_rating r)" using ok r by (auto simp: good_def reviews_ok_def)
  then have r': "rv_uid ?r' = rv_uid r" "review_key ?r' = review_key r" "rv_deleted_at ?r' = None"
      "rating_in_range (rv_rating ?r')" "\<not> list_ex is_rating_attr data \<Longrightarrow> rv_rating ?r' = rv_rating r"
    using same r(2) by (auto simp: review_key_def)
  have w: "reviews_ok w" "ratings_stored w" using ok by (simp_all add: good_def)
  note ch = change_review_ok [OF w(1) r r'(1-4) w']
  have run: "snd (update_review client t r data w) =
      (if list_ex is_rating_attr data
       then invalidate_detail client (rv_spot_uid r) (recalculate_spot_rating t (rv_spot_uid r) w') else w')"
    using Some by (simp add: update_review_def Let_def w')
  show ?thesis
  proof (cases "list_ex is_rating_attr data")
    case True
    have "spots w' = spots w" by (simp add: w')
    then show ?thesis
      unfolding run using True ch(1,3) w(2) by (simp add: good_recalculated [where w = w])
  next
    case False
    then have "ratings k w' = ratings k w" for k using ch(4) r'(5) by blast
    moreover have "spots w' = spots w" by (simp add: w')
    ultimately show ?thesis
      unfolding run using False ch(1) w(2) by (simp add: good_def ratings_stored_def)
  qed
qed (use ok in \<open>simp add: update_review_def\<close>)

lemma good_delete:
  assumes "good w" and r: "r \<in> set (spot_reviews w)" "rv_deleted_at r = None"
  shows "good (soft_delete_review client t r w)"
proof -
  let ?f = "\<lambda>x. x\<lparr>rv_deleted_at := Some t, rv_updated_at := Some t\<rparr>"
  have w: "reviews_ok w" "ratings_stored w" using assms(1) by (simp_all add: good_def)
  have f: "rv_uid (?f x) = rv_uid x \<and> review_key (?f x) = review_key x
        \<and> rv_rating (?f x) = rv_rating x \<and> rv_deleted_at (?f x) \<noteq> None" for x
    by (simp add: review_key_def)
  note del = delete_review_ok [OF w(1) r f refl]
  show ?thesis
    unfolding soft_delete_review_def
    by (rule good_recalculated [where w = w]) (use del w in simp_all)
qed

datatype review_request =
    Create_Review uid uid int "string option"
  | Update_Review uid uid "review_attr list"
  | Delete_Review uid uid
  | Report_Review uid uid uid string

text \<open>The database after a request of a visitor.\<close>

fun run_review_request ::
    "'r redis_client option \<Rightarrow> settings \<Rightarrow> instant \<Rightarrow> user option res \<Rightarrow> string option
       \<Rightarrow> review_request \<Rightarrow> 'r world \<Rightarrow> 'r world" where
  "run_review_request client cfg now visitor host (Create_Review fresh s n c) w =
     snd (create_review_endpoint client cfg fresh now visitor host s n c w)"
| "run_review_request client cfg now visitor host (Update_Review s r data) w =
     snd (update_review_endpoint client cfg now (login_required visitor) s r data w)"
| "run_review_request client cfg now visitor host (Delete_Review s r) w =
     snd (delete_review client cfg now (login_required visitor) s r w)"
| "run_review_request client cfg now visitor host (Report_Review fresh s r reason) w =
     snd (report_review client cfg fresh now visitor host s r reason w)"

lemma good_cong:
  assumes "spot_reviews w' = spot_reviews w" and "spots w' = spots w"
  shows "good w' = good w"
proof -
  have "ratings k w' = ratings k w" for k using assms(1) by (rule ratings_cong)
  with assms show ?thesis
    by (simp add: good_def ratings_stored_def reviews_ok_def active_rows_def)
qed

lemma good_limited:
  assumes "good w" and "\<And>v. good v \<Longrightarrow> good (snd (k v))"
  shows "good (snd (bindR (rate_limited client scope limit secs visitor host w) (\<lambda>_. k)))"
proof -
  obtain r where "snd (rate_limited client scope limit secs visitor host w) = w\<lparr>redis := r\<rparr>"
    by (rule exE [OF rate_limited_redis])
  then have limited: "good (snd (rate_limited client scope limit secs visitor host w))"
    using assms(1) good_cong [of "w\<lparr>redis := r\<rparr>" w] by simp
  show ?thesis
    by (rule bindR_state [where P = good, OF limited]) (rule assms(2) [OF limited])
qed

lemma good_report: "good w \<Longrightarrow> good (snd (create_report i t r u reason w))"
  unfolding create_report_def Let_def
  by (rule check_state [where P = good]) (auto split: option.split elim!: good_cong [THEN iffD2, rotated 2])

lemmas good_check = check_state [where P = good]
lemmas good_bind = bindR_state [where P = good]

lemma good_active:
  assumes "good w"
    and "\<And>r. r \<in> set (spot_reviews w) \<Longrightarrow> rv_deleted_at r = None \<Longrightarrow> good (snd (k r))"
  shows "good (snd (check (get_active_review_or_404 cfg s u w) w k))"
  using assms(1) by (rule good_check) (auto dest: get_active_review_or_404_mem intro: assms(2))

lemma good_run:
  assumes ok: "good w"
  shows "good (run_review_request client cfg now visitor host req w)"
proof (cases req)
  case (Create_Review fresh s n c)
  have "good (snd (create_review_endpoint client cfg fresh now visitor host s n c w))"
    unfolding create_review_endpoint_def
    by (rule good_limited [OF ok], rule good_check, assumption, rule good_check, assumption)
      (auto intro!: good_bind good_create)
  with Create_Review show ?thesis by simp
next
  case (Update_Review s r data)
  have "good (snd (update_review_endpoint client cfg now (login_required visitor) s r data w))"
    unfolding update_review_endpoint_def
    by (rule good_active [OF ok], rule good_check [OF ok]) (auto intro!: good_bind good_update ok)
  with Update_Review show ?thesis by simp
next
  case (Delete_Review s r)
  have "good (snd (delete_review client cfg now (login_required visitor) s r w))"
    unfolding delete_review_def
    by (rule good_active [OF ok], rule good_check [OF ok]) (auto intro!: good_delete ok)
  with Delete_Review show ?thesis by simp
next
  case (Report_Review fresh s r reason)
  have "good (snd (report_review client cfg fresh now visitor host s r reason w))"
    unfolding report_review_def
    by (rule good_limited [OF ok], rule good_active, assumption, rule good_check, assumption)
      (auto intro!: good_bind good_report)
  with Report_Review show ?thesis by simp
qed

text \<open>
  The rest of the program, but for the bulk upsert, leaves reviews alone; it changes spots but
  not their ratings, and a spot it adds starts with no review, no rating and a uid no review
  names.
\<close>

inductive review_step :: "'r redis_client option \<Rightarrow> settings \<Rightarrow> 'r world \<Rightarrow> 'r world \<Rightarrow> bool"
  for client :: "'r redis_client option" and cfg :: settings where
  request: "review_step client cfg w (run_review_request client cfg now visitor host req w)"
| elsewhere: "review_step client cfg w w'"
    if "spot_reviews w' = spot_reviews w" and "s_uid ` set (spots w) \<subseteq> s_uid ` set (spots w')"
      and "\<And>s. s \<in> set (spots w') \<Longrightarrow>
        (\<exists>x \<in> set (spots w). s_uid x = s_uid s \<and> s_rating_avg x = s_rating_avg s
           \<and> s_review_count x = s_review_count s)
        \<or> s_rating_avg s = 0 \<and> s_review_count s = 0 \<and> s_uid s \<notin> rv_spot_uid ` set (spot_reviews w)"

lemma no_ratings: "uid \<notin> rv_spot_uid ` set (spot_reviews w) \<Longrightarrow> ratings uid w = []"
  by (auto simp: ratings_def is_active_review_def filter_empty_conv)

lemma good_step:
  assumes "good w" and "review_step client cfg w w'"
  shows "good w'"
  using assms(2)
proof cases
  case (request now visitor host req)
  then show ?thesis using good_run [OF assms(1)] by simp
next
  case elsewhere
  have same: "ratings k w' = ratings k w" for k using elsewhere(1) by (rule ratings_cong)
  have "reviews_ok w'" using elsewhere assms(1) by (auto simp: good_def intro: reviews_ok_cong)
  moreover have "ratings_stored w'"
    unfolding ratings_stored_def same
  proof (intro ballI)
    fix s
    assume "s \<in> set (spots w')"
    from elsewhere(3) [OF this] show "s_rating_avg s = average_or_zero (ratings (s_uid s) w)
        \<and> s_review_count s = int (length (ratings (s_uid s) w))"
    proof (elim disjE bexE conjE)
      fix x
      assume "x \<in> set (spots w)" "s_uid x = s_uid s" "s_rating_avg x = s_rating_avg s"
        "s_review_count x = s_review_count s"
      with assms(1) show ?thesis by (metis good_def ratings_stored_def)
    qed (simp add: no_ratings average_or_zero_def)
  qed
  ultimately show ?thesis by (simp add: good_def)
qed

lemma good_empty: "good (empty_world r)"
  by (simp add: good_def reviews_ok_def ratings_stored_def empty_world_def active_rows_def unique_key_def)

interpretation review_run:
  step_system "\<lambda>w :: 'r world. \<exists>r. w = empty_world r" "review_step client cfg" good
  for client :: "'r redis_client option" and cfg
  by unfold_locales (auto simp: good_empty elim: good_step [rotated])

section \<open>Properties\<close>

lemma active_of_spot:
  "filter (is_active_review s) (spot_reviews w) = filter (\<lambda>r. rv_spot_uid r = s) (active_rows w)"
  by (auto simp: active_rows_def is_active_review_def intro: filter_cong)

lemma board_of_spot:
  fixes s :: uid
  assumes "reviews_ok w"
  defines "A \<equiv> filter (is_active_review s) (spot_reviews w)"
  shows "{u. board w (s, u) \<noteq> None} = set (map rv_user_id A)" and "distinct (map rv_user_id A)"
    and "x \<in> set A \<Longrightarrow> board w (s, rv_user_id x) = Some (rv_rating x)"
proof -
  have key: "unique_key review_key (active_rows w)" using assms(1) by (simp add: reviews_ok_def)
  have A: "A = filter (\<lambda>r. rv_spot_uid r = s) (active_rows w)"
    by (simp add: A_def active_of_spot)
  show x: "x \<in> set A \<Longrightarrow> board w (s, rv_user_id x) = Some (rv_rating x)" for x
    using get_by_key_mem [OF key, of x] by (auto simp: A board_def review_key_def)
  have "inj_on rv_user_id (set A)" and "distinct A"
    using key by (auto simp: A unique_key_def distinct_map inj_on_def review_key_def)
  then show "distinct (map rv_user_id A)" by (simp add: distinct_map)
  show "{u. board w (s, u) \<noteq> None} = set (map rv_user_id A)"
  proof (intro equalityI subsetI)
    fix u
    assume "u \<in> {u. board w (s, u) \<noteq> None}"
    then obtain r where "get_by_key review_key (s, u) (active_rows w) = Some r" by (auto simp: board_def)
    then have "r \<in> set A" "rv_user_id r = u"
      by (auto simp: A review_key_def dest: get_by_key_Some_key)
    then show "u \<in> set (map rv_user_id A)" by auto
  qed (use x in auto)
qed

lemma average_bounds:
  assumes "\<And>n. n \<in> set ns \<Longrightarrow> rating_in_range n"
  shows "0 \<le> average_or_zero ns \<and> average_or_zero ns \<le> 10"
proof -
  have "0 \<le> sum_list ns \<and> sum_list ns \<le> 10 * int (length ns)"
    using assms
  proof (induction ns)
    case (Cons a ns)
    from Cons.prems [of a] have "0 \<le> a \<and> a \<le> 10" by (simp add: rating_in_range_def)
    moreover from Cons have "0 \<le> sum_list ns \<and> sum_list ns \<le> 10 * int (length ns)" by simp
    ultimately show ?case by simp
  qed simp
  then have "(0 :: rat) \<le> of_int (sum_list ns)"
      "(of_int (sum_list ns) :: rat) \<le> of_int (10 * int (length ns))"
    by (simp_all only: of_int_0_le_iff of_int_le_iff)
  then show ?thesis
    by (auto simp: average_or_zero_def divide_le_eq le_divide_eq)
qed

text \<open>
  C7: The rating of a spot is the average of its reviews.  Whatever requests on reviews,
  and other writes that leave reviews and ratings alone, follow each other from the empty
  database, a spot stores as its review count the number of
  users with a rating on the board, and as its average the average of their ratings (0 when
  there is none), which lies between 0 and 10.
\<close>

theorem ratings_are_averages:
  assumes "(review_step client cfg)\<^sup>*\<^sup>* (empty_world r) w" and "s \<in> set (spots w)"
  defines "U \<equiv> {u. board w (s_uid s, u) \<noteq> None}"
  shows "finite U \<and> s_review_count s = int (card U)
     \<and> s_rating_avg s = (if U = {} then 0 else of_int (\<Sum>u\<in>U. the (board w (s_uid s, u))) / of_nat (card U))
     \<and> 0 \<le> s_rating_avg s \<and> s_rating_avg s \<le> 10"
proof -
  have "good w" by (rule review_run.inv_reachable [OF _ assms(1)]) blast
  then have ok: "reviews_ok w" and stored: "s_rating_avg s = average_or_zero (ratings (s_uid s) w)"
      "s_review_count s = int (length (ratings (s_uid s) w))"
    using assms(2) by (auto simp: good_def ratings_stored_def)
  define A where "A = filter (is_active_review (s_uid s)) (spot_reviews w)"
  note b = board_of_spot [OF ok, where s = "s_uid s", folded A_def]
  have U: "U = set (map rv_user_id A)" by (simp only: U_def b(1))
  have card: "card U = length A" using b(2) by (simp only: U distinct_card length_map)
  have "(\<Sum>u\<in>U. the (board w (s_uid s, u))) = sum_list (map (\<lambda>u. the (board w (s_uid s, u))) (map rv_user_id A))"
    unfolding U by (rule sum.distinct_set_conv_list [OF b(2)])
  also have "map (\<lambda>u. the (board w (s_uid s, u))) (map rv_user_id A) = map rv_rating A"
    using b(3) by simp
  finally have total: "(\<Sum>u\<in>U. the (board w (s_uid s, u))) = sum_list (map rv_rating A)" .
  have ratings: "ratings (s_uid s) w = map rv_rating A" by (simp add: ratings_def A_def)
  have "rating_in_range n" if "n \<in> set (ratings (s_uid s) w)" for n
    using that ok by (auto simp: ratings_def reviews_ok_def)
  then have bounds: "0 \<le> s_rating_avg s \<and> s_rating_avg s \<le> 10"
    unfolding stored(1) by (rule average_bounds)
  have "finite U" and "U = {} \<longleftrightarrow> A = []" by (simp_all add: U)
  then show ?thesis
    using bounds stored by (simp add: total card ratings average_or_zero_def)
qed

lemma ratings_are_averages_witness:
  "(let w = run_review_request None sample_settings 0 (Inr (Some (sample_user ''ann''))) None
        (Create_Review ''r'' ''a'' 9 None) three_spots
    in map rv_rating (spot_reviews w) = [9]
       \<and> (\<forall>s \<in> set (spots w). s_review_count s = int (card {u. board w (s_uid s, u) \<noteq> None})))"
proof -
  let ?w = "run_review_request None sample_settings 0 (Inr (Some (sample_user ''ann''))) None
        (Create_Review ''r'' ''a'' 9 None) three_spots"
  have "review_step None sample_settings (empty_world ()) three_spots"
    by (rule elsewhere) (auto simp: three_spots_def empty_world_def sample_spot_def)
  moreover have "review_step None sample_settings three_spots ?w" by (rule request)
  ultimately have "(review_step None sample_settings)\<^sup>*\<^sup>* (empty_world ()) ?w"
    by (meson converse_rtranclp_into_rtranclp rtranclp.rtrancl_refl)
  note avg = ratings_are_averages [OF this]
  have "map rv_rating (spot_reviews ?w) = [9]"
    by (simp add: create_review_endpoint_def rate_limited_def rate_limit_def rate_limit_actor_def
        incr_with_ttl_def get_published_spot_or_404_def get_spot_by_uid_def no_filters_condition
        scalar_one_or_none_def login_required_def rating_in_range_def valid_content_def
        create_review_def get_active_review_def insert_review_def three_spots_def empty_world_def
        Let_def)
  with avg show ?thesis unfolding Let_def by blast
qed

text \<open>The rating an update leaves: the last one it sets, else the old one.\<close>

definition rating_values :: "review_attr list \<Rightarrow> int list" where
  "rating_values data = concat (map (\<lambda>a. case a of Set_rating (Some n) \<Rightarrow> [n] | _ \<Rightarrow> []) data)"

lemma set_review_attrs_rating:
  "set_review_attrs data r = Some r' \<Longrightarrow> rv_rating r' = last (rv_rating r # rating_values data)"
proof (induction data arbitrary: r)
  case (Cons a as)
  then obtain r1 where r1: "set_review_attr a r = Some r1" "set_review_attrs as r1 = Some r'"
    by (auto split: option.splits)
  have "rv_rating r1 = last (rv_rating r # rating_values [a])"
    using r1(1) by (cases a) (auto simp: rating_values_def split: option.splits if_splits)
  with Cons.IH [OF r1(2)] show ?case
    by (cases "rating_values as"; cases "rating_values [a]") (auto simp: rating_values_def)
qed (simp add: rating_values_def)

text \<open>
  C10: The statements on reviews implement a board on which every user has at most one rating
  of a spot.  Creating succeeds exactly where the board has none and adds that rating;
  updating an active review overwrites it with the last rating given; deleting removes it;
  and a statement that fails changes nothing.
\<close>

theorem review_board_refined:
  assumes ok: "reviews_ok w"
  shows "(board w (s, u) \<noteq> None \<longrightarrow>
            create_review client fresh now s u n c w = raise (app_error REVIEW_ALREADY_EXISTS) w)
     \<and> (case create_review client fresh now s u n c w of
          (Inl e, w') \<Rightarrow> w' = w
        | (Inr r, w') \<Rightarrow> board w (s, u) = None \<and> board w' = (board w)((s, u) \<mapsto> n))
     \<and> (board w (s, u) = None \<and> s \<in> s_uid ` set (spots w) \<and> fresh \<notin> rv_uid ` set (spot_reviews w)
            \<and> rating_in_range n \<longrightarrow> (\<exists>r. fst (create_review client fresh now s u n c w) = Inr r))
     \<and> (\<forall>x \<in> set (spot_reviews w). rv_deleted_at x = None \<longrightarrow>
          (case update_review client now x data w of
             (Inl e, w') \<Rightarrow> w' = w
           | (Inr r, w') \<Rightarrow> board w' = (board w)
               ((rv_spot_uid x, rv_user_id x) \<mapsto> last (rv_rating x # rating_values data)))
        \<and> board (soft_delete_review client now x w) = (board w)((rv_spot_uid x, rv_user_id x) := None))"
proof (intro conjI ballI impI)
  have key: "unique_key review_key (active_rows w)" using ok by (simp add: reviews_ok_def)
  have "filter (\<lambda>r. rv_spot_uid r = s \<and> rv_user_id r = u \<and> rv_deleted_at r = None) (spot_reviews w)
      = filter (\<lambda>r. review_key r = (s, u)) (active_rows w)"
    by (auto simp: active_rows_def review_key_def intro: filter_cong)
  then have found: "get_active_review s u w = Inr (get_by_key review_key (s, u) (active_rows w))"
    by (simp add: get_active_review_def scalar_one_or_none_unique [OF key])
  let ?r = "\<lparr>rv_uid = fresh, rv_spot_uid = s, rv_user_id = u, rv_rating = n, rv_content = c,
      rv_created_at = Some now, rv_updated_at = Some now, rv_deleted_at = None\<rparr>"
  have create: "create_review client fresh now s u n c w =
      (if board w (s, u) \<noteq> None then raise (app_error REVIEW_ALREADY_EXISTS) w
       else case insert_review ?r w of None \<Rightarrow> raise integrity_error w
         | Some w' \<Rightarrow> ret ?r (invalidate_detail client s (recalculate_spot_rating now s w')))"
    by (auto simp: create_review_def found board_def Let_def)
  show "board w (s, u) \<noteq> None \<Longrightarrow>
      create_review client fresh now s u n c w = raise (app_error REVIEW_ALREADY_EXISTS) w"
    by (simp add: create)
  have same: "board (invalidate_detail client s (recalculate_spot_rating now s v)) = board v" for v :: "'a world" and s
    by (rule board_cong) simp
  show "case create_review client fresh now s u n c w of (Inl e, w') \<Rightarrow> w' = w
        | (Inr r, w') \<Rightarrow> board w (s, u) = None \<and> board w' = (board w)((s, u) \<mapsto> n)"
    using insert_review_ok(2) [OF ok, of ?r]
    by (auto simp: create raise_def ret_def same review_key_def split: option.split)
  show "\<exists>r. fst (create_review client fresh now s u n c w) = Inr r"
    if "board w (s, u) = None \<and> s \<in> s_uid ` set (spots w) \<and> fresh \<notin> rv_uid ` set (spot_reviews w)
            \<and> rating_in_range n"
  proof -
    have "\<not> (\<exists>x \<in> set (spot_reviews w). is_active_review s x \<and> rv_user_id x = u)"
    proof
      assume "\<exists>x \<in> set (spot_reviews w). is_active_review s x \<and> rv_user_id x = u"
      then obtain x where "x \<in> set (active_rows w)" "review_key x = (s, u)"
        by (auto simp: active_rows_def is_active_review_def review_key_def)
      then have "(s, u) \<in> review_key ` set (active_rows w)" by force
      with that show False by (simp add: board_def get_by_key_None_iff)
    qed
    with that have "\<exists>w'. insert_review ?r w = Some w'" by (simp add: insert_review_def)
    with that show ?thesis by (auto simp: create)
  qed
  fix x
  assume x: "x \<in> set (spot_reviews w)" "rv_deleted_at x = None"
  have range: "rating_in_range (rv_rating x)" using ok x by (simp add: reviews_ok_def)
  show "case update_review client now x data w of (Inl e, w') \<Rightarrow> w' = w
      | (Inr r, w') \<Rightarrow> board w' = (board w)
          ((rv_spot_uid x, rv_user_id x) \<mapsto> last (rv_rating x # rating_values data))"
  proof (cases "set_review_attrs data x")
    case (Some changed)
    let ?r' = "if changed = x then x else changed\<lparr>rv_updated_at := Some now\<rparr>"
    have r': "rv_uid ?r' = rv_uid x" "review_key ?r' = review_key x" "rv_deleted_at ?r' = None"
        "rating_in_range (rv_rating ?r')" "rv_rating ?r' = last (rv_rating x # rating_values data)"
      using set_review_attrs_same [OF Some] set_review_attrs_rating [OF Some] x(2) range
      by (auto simp: review_key_def)
    note ch = change_review_ok(2) [OF ok x r'(1-4) refl]
    show ?thesis
      using Some ch by (simp add: update_review_def Let_def ret_def same r'(5) review_key_def)
  qed (simp add: update_review_def raise_def)
  show "board (soft_delete_review client now x w) = (board w)((rv_spot_uid x, rv_user_id x) := None)"
    unfolding soft_delete_review_def same
    by (subst delete_review_ok(2) [OF ok x _ refl]) (simp_all add: review_key_def)
qed

lemma review_board_refined_witness:
  "board (snd (create_review None ''r'' 0 ''a'' ''ann'' 7 None three_spots)) (''a'', ''ann'') = Some 7"
proof -
  have ok: "reviews_ok three_spots"
    by (simp add: reviews_ok_def three_spots_def empty_world_def active_rows_def unique_key_def)
  have free: "board three_spots (''a'', ''ann'') = None"
      "''r'' \<notin> rv_uid ` set (spot_reviews three_spots)"
    by (simp_all add: board_def active_rows_def three_spots_def empty_world_def)
  show ?thesis
    using review_board_refined [OF ok, of "''a''" "''ann''" None "''r''" 0 7 None "[]"] free
    by (auto simp: rating_in_range_def split: prod.splits sum.splits)
qed

section \<open>Who may change a review\<close>

text \<open>The reviews after a request, for each way it can end.\<close>

definition written_by :: "instant \<Rightarrow> user option res \<Rightarrow> 'r world \<Rightarrow> 'r world \<Rightarrow> bool" where
  "written_by now visitor w w' \<longleftrightarrow>
     (\<forall>r \<in> set (spot_reviews w). r \<in> set (spot_reviews w') \<or>
        (\<exists>u. login_required visitor = Inr u
           \<and> (rv_user_id r = u_uid u \<or> is_moderator u
                \<and> r\<lparr>rv_deleted_at := Some now, rv_updated_at := Some now\<rparr> \<in> set (spot_reviews w'))))
   \<and> (\<forall>r \<in> set (spot_reviews w'). rv_uid r \<notin> rv_uid ` set (spot_reviews w) \<longrightarrow>
        (\<exists>u. login_required visitor = Inr u \<and> rv_user_id r = u_uid u))"

lemma written_refl: "spot_reviews w' = spot_reviews w \<Longrightarrow> written_by now visitor w w'"
  by (auto simp: written_by_def)

lemma written_check:
  "(\<And>x. c = Inr x \<Longrightarrow> written_by now visitor w (snd (f x))) \<Longrightarrow> written_by now visitor w (snd (check c w f))"
  by (cases c) (auto intro: written_refl)

lemma written_limited:
  assumes "\<And>v. spot_reviews v = spot_reviews w \<Longrightarrow> written_by now visitor w (snd (k v))"
  shows "written_by now visitor w (snd (bindR (rate_limited client scope limit secs by host w) (\<lambda>_. k)))"
proof -
  obtain r where "snd (rate_limited client scope limit secs by host w) = w\<lparr>redis := r\<rparr>"
    by (rule exE [OF rate_limited_redis])
  then show ?thesis
    using assms [of "w\<lparr>redis := r\<rparr>"]
    by (cases "rate_limited client scope limit secs by host w"; cases "fst (rate_limited client scope limit secs by host w)")
      (auto simp: bindR_def intro: written_refl)
qed

lemma written_create:
  assumes "login_required visitor = Inr u" and "spot_reviews v = spot_reviews w"
  shows "written_by now visitor w (snd (create_review client fresh now s (u_uid u) n c v))"
  unfolding create_review_def Let_def
  using assms
  by (cases "get_active_review s (u_uid u) v")
    (auto simp: written_by_def insert_review_def split: option.split if_splits)

lemma written_update:
  assumes "reviews_ok w" and "r \<in> set (spot_reviews w)" and "login_required visitor = Inr u"
    and "rv_user_id r = u_uid u"
  shows "written_by now visitor w (snd (update_review client now r data w))"
proof (cases "set_review_attrs data r")
  case (Some changed)
  have one: "x = r" if "x \<in> set (spot_reviews w)" "rv_uid x = rv_uid r" for x
    using assms(1,2) that by (auto simp: reviews_ok_def dest: unique_key_eq)
  have rows: "spot_reviews (snd (update_review client now r data w)) = update_where (\<lambda>x. rv_uid x = rv_uid r)
      (\<lambda>_. if changed = r then r else changed\<lparr>rv_updated_at := Some now\<rparr>) (spot_reviews w)"
    using Some by (simp add: update_review_def Let_def)
  have "rv_uid changed = rv_uid r" using set_review_attrs_same [OF Some] by simp
  then have uids: "rv_uid ` set (spot_reviews (snd (update_review client now r data w))) = rv_uid ` set (spot_reviews w)"
    unfolding rows by (intro image_key_update_where) simp
  have "x \<in> set (spot_reviews (snd (update_review client now r data w))) \<or> rv_user_id x = u_uid u"
    if "x \<in> set (spot_reviews w)" for x
    using one [OF that] that assms(4) unfolding rows set_update_where by auto
  with uids assms(3) show ?thesis unfolding written_by_def by blast
qed (simp add: update_review_def written_refl)

lemma written_delete:
  assumes "reviews_ok w" and "r \<in> set (spot_reviews w)" and "login_required visitor = Inr u"
    and "rv_user_id r = u_uid u \<or> is_moderator u"
  shows "written_by now visitor w (soft_delete_review client now r w)"
proof -
  have one: "x = r" if "x \<in> set (spot_reviews w)" "rv_uid x = rv_uid r" for x
    using assms(1,2) that by (auto simp: reviews_ok_def dest: unique_key_eq)
  let ?f = "\<lambda>x. x\<lparr>rv_deleted_at := Some now, rv_updated_at := Some now\<rparr>"
  have rows: "spot_reviews (soft_delete_review client now r w) =
      update_where (\<lambda>x. rv_uid x = rv_uid r) ?f (spot_reviews w)"
    by (simp add: soft_delete_review_def)
  have uids: "rv_uid ` set (spot_reviews (soft_delete_review client now r w)) = rv_uid ` set (spot_reviews w)"
    unfolding rows by (intro image_key_update_where) simp
  have "x \<in> set (spot_reviews (soft_delete_review client now r w)) \<or>
      (x = r \<and> ?f x \<in> set (spot_reviews (soft_delete_review client now r w)))"
    if "x \<in> set (spot_reviews w)" for x
    using one [OF that] that unfolding rows set_update_where by auto
  with uids assms(3,4) show ?thesis unfolding written_by_def by blast
qed

text \<open>
  C9: Reviews belong to their authors.  A request changes a stored review only when the
  logged-in user wrote it, with one exception: staff of rank MANAGER or higher may soft-delete
  it, which changes nothing else of it; and a request adds reviews only in the name of the user who
  makes it.
\<close>

theorem reviews_belong_to_authors:
  assumes "reviews_ok w"
  shows "(\<forall>r \<in> set (spot_reviews w).
        r \<in> set (spot_reviews (run_review_request client cfg now visitor host req w)) \<or>
        (\<exists>u. login_required visitor = Inr u
           \<and> (rv_user_id r = u_uid u \<or> u_is_staff u \<and> MANAGER \<le> u_staff_role u
                \<and> r\<lparr>rv_deleted_at := Some now, rv_updated_at := Some now\<rparr>
                     \<in> set (spot_reviews (run_review_request client cfg now visitor host req w)))))
   \<and> (\<forall>r \<in> set (spot_reviews (run_review_request client cfg now visitor host req w)).
        rv_uid r \<notin> rv_uid ` set (spot_reviews w) \<longrightarrow>
        (\<exists>u. login_required visitor = Inr u \<and> rv_user_id r = u_uid u))"
proof -
  have "written_by now visitor w (run_review_request client cfg now visitor host req w)"
  proof (cases req)
    case (Create_Review fresh s n c)
    have "written_by now visitor w (snd (create_review_endpoint client cfg fresh now visitor host s n c w))"
      unfolding create_review_endpoint_def
      by (rule written_limited)
        (auto simp: check_def bindR_def ret_def raise_def split: sum.split
          intro: written_refl written_create [unfolded written_by_def, folded written_by_def])
    with Create_Review show ?thesis by simp
  next
    case (Update_Review s r data)
    have "written_by now visitor w (snd (update_review_endpoint client cfg now (login_required visitor) s r data w))"
      unfolding update_review_endpoint_def
      by (intro written_check)
        (auto simp: bindR_def ret_def raise_def split: sum.split
          intro: written_refl intro!: written_update assms dest: get_active_review_or_404_mem)
    with Update_Review show ?thesis by simp
  next
    case (Delete_Review s r)
    have "written_by now visitor w (snd (delete_review client cfg now (login_required visitor) s r w))"
      unfolding delete_review_def
      by (intro written_check)
        (auto intro: written_refl intro!: written_delete assms dest: get_active_review_or_404_mem)
    with Delete_Review show ?thesis by simp
  next
    case (Report_Review fresh s r reason)
    have "written_by now visitor w (snd (report_review client cfg fresh now visitor host s r reason w))"
      unfolding report_review_def
      by (rule written_limited, rule written_refl)
        (auto simp: check_def bindR_def ret_def raise_def create_report_def Let_def split: sum.split option.split)
    with Report_Review show ?thesis by simp
  qed
  then show ?thesis
    by (simp add: written_by_def is_moderator_def less_eq_staff_role_def)
qed

definition one_review :: "unit world" where
  "one_review = three_spots\<lparr>spot_reviews := [\<lparr>rv_uid = ''r'', rv_spot_uid = ''a'',
     rv_user_id = ''ann'', rv_rating = 4, rv_content = None, rv_created_at = None,
     rv_updated_at = None, rv_deleted_at = None\<rparr>]\<rparr>"

lemma reviews_belong_to_authors_witness:
  "set (spot_reviews one_review) \<subseteq> set (spot_reviews
     (run_review_request None sample_settings 0 (Inr None) None (Delete_Review ''a'' ''r'') one_review))"
proof -
  have ok: "reviews_ok one_review"
    by (simp add: reviews_ok_def one_review_def active_rows_def unique_key_def rating_in_range_def)
  from reviews_belong_to_authors [OF ok, of None sample_settings 0 "Inr None" None "Delete_Review ''a'' ''r''"]
  show ?thesis by (auto simp: login_required_def)
qed

end
