(* ===== verification/Explore.thy ===== *)
theory Explore
  imports Bulk Reviews
begin

text \<open>
  The public endpoints of \<open>endpoints/explore.py\<close> with the answers of \<open>schemas/spot.py\<close>, and
  the response cache in front of them together with every request that writes what they show.

  An \<open>explore_env\<close> holds what is outside the code: the clients of Redis and S3, the full text
  search, the codec of the search cursors, the formatting and reading of floats, SHA-256 and
  the JSON of the three answers.  An answer is its JSON text, which is what the cache stores.
\<close>

section \<open>Answers\<close>

record spot_list_item =
  li_uid :: uid
  li_title :: string
  li_trust_tier :: "int option"
  li_thumbnail_url :: "string option"
  li_region_short :: "string option"
  li_category :: "string list option"
  li_latitude :: "rat option"
  li_longitude :: "rat option"

record spot_list_response =
  lr_items :: "spot_list_item list"
  lr_next_cursor :: "string option"
  lr_has_more :: bool
  lr_total :: nat
  lr_total_capped :: bool

record spot_map_item =
  mi_uid :: uid
  mi_latitude :: rat
  mi_longitude :: rat
  mi_trust_tier :: "int option"

record spot_map_response =
  mr_items :: "spot_map_item list"
  mr_truncated :: bool

record spot_detail =
  sd_uid :: uid
  sd_title :: string
  sd_address :: "string option"
  sd_address_detail :: "string option"
  sd_website_url :: "string option"
  sd_trust_tier :: "int option"
  sd_tagline :: "string option"
  sd_category :: "string list option"
  sd_themes :: "string list option"
  sd_is_fee_required :: "bool option"
  sd_is_pet_allowed :: "bool option"
  sd_features :: "string option"
  sd_camp_sight_type :: "string option"
  sd_unit_count :: "int option"
  sd_total_area_m2 :: "rat option"
  sd_fire_pit_type :: "string option"
  sd_latitude :: "rat option"
  sd_longitude :: "rat option"
  sd_description :: "string option"
  sd_amenities :: "string list option"
  sd_nearby_facilities :: "string list option"
  sd_has_equipment_rental :: "string list option"
  sd_phone :: "string option"
  sd_booking_url :: "string option"
  sd_image_url :: "string option"
  sd_rating_avg :: rat
  sd_review_count :: int

definition spot_detail_of :: "spot \<Rightarrow> spot_detail" where
  "spot_detail_of s =
     \<lparr>sd_uid = s_uid s, sd_title = s_title s, sd_address = s_address s,
      sd_address_detail = s_address_detail s, sd_website_url = s_website_url s,
      sd_trust_tier = s_trust_tier s, sd_tagline = s_tagline s, sd_category = s_category s,
      sd_themes = s_themes s, sd_is_fee_required = s_is_fee_required s,
      sd_is_pet_allowed = s_is_pet_allowed s, sd_features = s_features s,
      sd_camp_sight_type = s_camp_sight_type s, sd_unit_count = s_unit_count s,
      sd_total_area_m2 = s_total_area_m2 s, sd_fire_pit_type = s_fire_pit_type s,
      sd_latitude = s_latitude s, sd_longitude = s_longitude s, sd_description = s_description s,
      sd_amenities = s_amenities s, sd_nearby_facilities = s_nearby_facilities s,
      sd_has_equipment_rental = s_has_equipment_rental s, sd_phone = s_phone s,
      sd_booking_url = s_booking_url s, sd_image_url = None, sd_rating_avg = s_rating_avg s,
      sd_review_count = s_review_count s\<rparr>"

record ('r, 'b) explore_env =
  ee_client :: "'r redis_client option"
  ee_s3 :: "'b s3_client"
  ee_settings :: settings
  ee_fts :: fts
  ee_codec :: cursor_codec
  ee_fmt6 :: "pyfloat \<Rightarrow> string"
  ee_py_float :: "string \<Rightarrow> pyfloat option"
  ee_sha :: "string \<Rightarrow> string"
  ee_dump_list :: "spot_list_response \<Rightarrow> string"
  ee_dump_map :: "spot_map_response \<Rightarrow> string"
  ee_dump_detail :: "spot_detail \<Rightarrow> string"

definition resolve_thumbnail_url ::
    "('r, 'b) explore_env \<Rightarrow> (uid \<Rightarrow> spot_image option) \<Rightarrow> uid \<Rightarrow> string option res" where
  "resolve_thumbnail_url env thumbnails uid =
     (case thumbnails uid of
        None \<Rightarrow> Inr None
      | Some img \<Rightarrow>
          bindE (resolve_url (ee_s3 env) (ee_settings env) (si_s3_key img) (si_is_public img))
            (\<lambda>url. Inr (Some url)))"

fun spot_list_items ::
    "('r, 'b) explore_env \<Rightarrow> (uid \<Rightarrow> spot_image option) \<Rightarrow> spot list \<Rightarrow> spot_list_item list res" where
  "spot_list_items env thumbnails [] = Inr []"
| "spot_list_items env thumbnails (s # ss) =
     bindE (resolve_thumbnail_url env thumbnails (s_uid s)) (\<lambda>url.
     bindE (spot_list_items env thumbnails ss) (\<lambda>items.
       Inr (\<lparr>li_uid = s_uid s, li_title = s_title s, li_trust_tier = s_trust_tier s,
             li_thumbnail_url = url, li_region_short = abbreviate_sido (s_region_province s),
             li_category = s_category s, li_latitude = s_latitude s,
             li_longitude = s_longitude s\<rparr> # items)))"

text \<open>The coordinates of a pin are not nullable.\<close>

fun spot_map_items :: "spot list \<Rightarrow> spot_map_item list res" where
  "spot_map_items [] = Inr []"
| "spot_map_items (s # ss) =
     (case (s_latitude s, s_longitude s) of
        (Some lat, Some lng) \<Rightarrow>
          bindE (spot_map_items ss) (\<lambda>items.
            Inr (\<lparr>mi_uid = s_uid s, mi_latitude = lat, mi_longitude = lng,
                  mi_trust_tier = s_trust_tier s\<rparr> # items))
      | _ \<Rightarrow> Inl (PyError ''ValidationError'' ''''))"

section \<open>Endpoints\<close>

definition query_box :: "('r, 'b) explore_env \<Rightarrow> string option \<Rightarrow> bbox option res" where
  "query_box env bbox =
     (if truthy bbox then bindE (parse_bbox (ee_py_float env) (the bbox)) (\<lambda>b. Inr (Some b)) else Inr None)"

definition text_param :: "string option \<Rightarrow> param_value" where
  "text_param v = (case v of None \<Rightarrow> P_None | Some s \<Rightarrow> P_Text s)"

definition list_param :: "string list option \<Rightarrow> param_value" where
  "list_param v = (case v of None \<Rightarrow> P_None | Some xs \<Rightarrow> P_List xs)"

text \<open>A hit returns the stored text; a miss computes the answer and stores it.\<close>

definition serve_cached ::
    "'r redis_client option \<Rightarrow> string \<Rightarrow> nat \<Rightarrow> string res \<Rightarrow> 'r world \<Rightarrow> string res \<times> 'r world" where
  "serve_cached client key ttl answer w =
     (case get_cached client key (redis w) of
        Some cached \<Rightarrow> ret cached w
      | None \<Rightarrow> check answer w (\<lambda>json.
          ret json (w\<lparr>redis := set_cached client key json ttl (redis w)\<rparr>)))"

definition list_spots_params ::
    "string option \<Rightarrow> string list option \<Rightarrow> string option \<Rightarrow> string option \<Rightarrow> string option \<Rightarrow> nat
       \<Rightarrow> (string \<times> param_value) list" where
  "list_spots_params q category region_province bbox cursor limit =
     [(''q'', text_param q), (''category'', list_param category),
      (''region_province'', text_param region_province), (''bbox'', text_param bbox),
      (''cursor'', text_param cursor), (''limit'', P_Int (int limit))]"

definition list_spots_answer ::
    "('r, 'b) explore_env \<Rightarrow> string option \<Rightarrow> string list option \<Rightarrow> string option \<Rightarrow> bbox option
       \<Rightarrow> string option \<Rightarrow> nat \<Rightarrow> 'r world \<Rightarrow> string res" where
  "list_spots_answer env q category region_province box cursor limit w =
     bindE (if has_query q
            then search_spots (ee_settings env) (ee_fts env) (ee_codec env) (ee_fmt6 env) (ee_sha env)
                   (the q) category region_province box limit cursor w
            else list_spots (ee_settings env) (ee_fmt6 env) (ee_sha env) category region_province box
                   limit cursor w) (\<lambda>(found, next_cursor, has_more).
     bindE (count_spots (ee_settings env) (ee_fts env) q category region_province box w)
       (\<lambda>(n, total_capped).
     bindE (spot_list_items env (get_thumbnails_by_spots (map s_uid found) w) found) (\<lambda>items.
       Inr (ee_dump_list env \<lparr>lr_items = items, lr_next_cursor = next_cursor, lr_has_more = has_more,
              lr_total = n, lr_total_capped = total_capped\<rparr>))))"

definition list_spots_endpoint ::
    "('r, 'b) explore_env \<Rightarrow> user option res \<Rightarrow> string option \<Rightarrow> string option \<Rightarrow> string list option
       \<Rightarrow> string option \<Rightarrow> string option \<Rightarrow> string option \<Rightarrow> int \<Rightarrow> 'r world \<Rightarrow> string res \<times> 'r world" where
  "list_spots_endpoint env visitor host q category region_province bbox cursor limit w =
     bindR (rate_limited (ee_client env) ''explore_spots_list'' 100 60 visitor host w) (\<lambda>_ w.
       if \<not> (1 \<le> limit \<and> limit \<le> 50) then raise RequestValidationError w
       else check (query_box env bbox) w (\<lambda>box.
         serve_cached (ee_client env)
           (make_spots_list_key (ee_sha env) (ee_client env)
              (list_spots_params q category region_province bbox cursor (nat limit)) (redis w))
           (SPOTS_LIST_CACHE_TTL_SECONDS (ee_settings env))
           (list_spots_answer env q category region_province box cursor (nat limit) w) w))"

definition map_params ::
    "string option \<Rightarrow> string list option \<Rightarrow> string option \<Rightarrow> string option \<Rightarrow> nat
       \<Rightarrow> (string \<times> param_value) list" where
  "map_params q category region_province bbox limit =
     [(''kind'', P_Text ''map''), (''q'', text_param q), (''category'', list_param category),
      (''region_province'', text_param region_province), (''bbox'', text_param bbox),
      (''limit'', P_Int (int limit))]"

definition map_answer ::
    "('r, 'b) explore_env \<Rightarrow> string option \<Rightarrow> string list option \<Rightarrow> string option \<Rightarrow> bbox option
       \<Rightarrow> nat \<Rightarrow> 'r world \<Rightarrow> string res" where
  "map_answer env q category region_province box limit w =
     bindE (list_spots_map (ee_settings env) (ee_fts env) q category region_province box limit w)
       (\<lambda>(found, truncated).
     bindE (spot_map_items found) (\<lambda>items.
       Inr (ee_dump_map env \<lparr>mr_items = items, mr_truncated = truncated\<rparr>)))"

definition list_spots_for_map ::
    "('r, 'b) explore_env \<Rightarrow> user option res \<Rightarrow> string option \<Rightarrow> string option \<Rightarrow> string list option
       \<Rightarrow> string option \<Rightarrow> string option \<Rightarrow> int \<Rightarrow> 'r world \<Rightarrow> string res \<times> 'r world" where
  "list_spots_for_map env visitor host q category region_province bbox limit w =
     bindR (rate_limited (ee_client env) ''explore_spots_map'' 60 60 visitor host w) (\<lambda>_ w.
       if \<not> (1 \<le> limit \<and> limit \<le> int MAP_LIMIT_MAX) then raise RequestValidationError w
       else check (query_box env bbox) w (\<lambda>box.
         serve_cached (ee_client env)
           (make_spots_list_key (ee_sha env) (ee_client env)
              (map_params q category region_province bbox (nat limit)) (redis w))
           (SPOTS_LIST_CACHE_TTL_SECONDS (ee_settings env))
           (map_answer env q category region_province box (nat limit) w) w))"

definition detail_answer :: "('r, 'b) explore_env \<Rightarrow> uid \<Rightarrow> 'r world \<Rightarrow> string res" where
  "detail_answer env uid w =
     bindE (get_spot_by_uid (ee_settings env) uid True w) (\<lambda>found.
       case found of
         None \<Rightarrow> Inl (app_error SPOT_NOT_FOUND)
       | Some s \<Rightarrow>
           bindE (resolve_thumbnail_url env (get_thumbnails_by_spots [uid] w) uid) (\<lambda>url.
             Inr (ee_dump_detail env ((spot_detail_of s)\<lparr>sd_image_url := url\<rparr>))))"

definition get_spot :: "('r, 'b) explore_env \<Rightarrow> uid \<Rightarrow> 'r world \<Rightarrow> string res \<times> 'r world" where
  "get_spot env uid w =
     serve_cached (ee_client env) (spot_detail_key (ee_client env) uid (redis w))
       (SPOT_DETAIL_CACHE_TTL_SECONDS (ee_settings env)) (detail_answer env uid w) w"

text \<open>A pin always has coordinates, whatever the setting: the map never fails on a null.\<close>

lemma spot_map_items_total:
  "(\<And>s. s \<in> set ss \<Longrightarrow> s_latitude s \<noteq> None \<and> s_longitude s \<noteq> None) \<Longrightarrow> \<exists>items. spot_map_items ss = Inr items"
proof (induction ss)
  case (Cons s ss)
  then obtain items where "spot_map_items ss = Inr items" by fastforce
  with Cons.prems [of s] show ?case by auto
qed simp

section \<open>What may be out of date\<close>

text \<open>
  The columns of a spot a list does not show, and those the detail does not show, that other
  requests write without a new version of the cache: the rating (it only orders the answers of a
  keyword search), the assignment and the times of verification and update.
\<close>

definition list_shown :: "spot \<Rightarrow> spot" where
  "list_shown s = s\<lparr>s_rating_avg := 0, s_review_count := 0, s_last_verified_at := None,
     s_updated_at := None, s_assigned_to_uid := None\<rparr>"

definition detail_shown :: "spot \<Rightarrow> spot" where
  "detail_shown s = s\<lparr>s_last_verified_at := None, s_updated_at := None, s_assigned_to_uid := None\<rparr>"

definition list_same :: "'r world \<Rightarrow> 'r world \<Rightarrow> bool" where
  "list_same w w' \<longleftrightarrow> map list_shown (spots w') = map list_shown (spots w) \<and> spot_images w' = spot_images w"

definition rows_of :: "uid \<Rightarrow> 'r world \<Rightarrow> spot list" where
  "rows_of uid w = filter (\<lambda>s. s_uid s = uid) (spots w)"

definition images_of :: "uid \<Rightarrow> 'r world \<Rightarrow> spot_image list" where
  "images_of uid w = filter (\<lambda>i. si_spot_uid i = uid) (spot_images w)"

definition detail_same :: "uid \<Rightarrow> 'r world \<Rightarrow> 'r world \<Rightarrow> bool" where
  "detail_same uid w w' \<longleftrightarrow> map detail_shown (rows_of uid w') = map detail_shown (rows_of uid w)
     \<and> images_of uid w' = images_of uid w"

lemma list_same_refl [simp]: "list_same w w"
  by (simp add: list_same_def)

lemma list_same_trans: "list_same u v \<Longrightarrow> list_same v w \<Longrightarrow> list_same u w"
  by (simp add: list_same_def)

lemma list_same_sym: "list_same v w \<Longrightarrow> list_same w v"
  by (simp add: list_same_def)

lemma detail_same_refl [simp]: "detail_same uid w w"
  by (simp add: detail_same_def)

lemma detail_same_trans: "detail_same uid u v \<Longrightarrow> detail_same uid v w \<Longrightarrow> detail_same uid u w"
  by (simp add: detail_same_def)

lemma detail_same_sym: "detail_same uid v w \<Longrightarrow> detail_same uid w v"
  by (simp add: detail_same_def)

lemma same_tables:
  assumes "spots w' = spots w" and "spot_images w' = spot_images w"
  shows "list_same w w'" and "detail_same uid w w'"
  using assms by (simp_all add: list_same_def detail_same_def rows_of_def images_of_def)

text \<open>An UPDATE of spots, and one of images.\<close>

lemma list_same_update:
  assumes "spots w' = update_where P f (spots w)" and "spot_images w' = spot_images w"
    and "\<And>s. P s \<Longrightarrow> list_shown (f s) = list_shown s"
  shows "list_same w w'"
  using assms by (simp add: list_same_def update_where_def)

lemma detail_same_update_touched:
  assumes "spots w' = update_where P f (spots w)" and "spot_images w' = spot_images w"
    and "\<And>s. s \<in> set (spots w) \<Longrightarrow> P s \<Longrightarrow> s_uid s \<noteq> uid \<and> s_uid (f s) = s_uid s"
  shows "detail_same uid w w'"
proof -
  have "filter (\<lambda>s. s_uid s = uid) (update_where P f rows) = filter (\<lambda>s. s_uid s = uid) rows"
    if "set rows \<subseteq> set (spots w)" for rows
    using that assms(3) by (induction rows) auto
  then show ?thesis using assms(1,2) by (simp add: detail_same_def rows_of_def images_of_def)
qed

lemma detail_same_update_hidden:
  assumes "spots w' = update_where P f (spots w)" and "spot_images w' = spot_images w"
    and "\<And>s. P s \<Longrightarrow> s_uid (f s) = s_uid s \<and> detail_shown (f s) = detail_shown s"
  shows "detail_same uid w w'"
proof -
  have "map detail_shown (filter (\<lambda>s. s_uid s = uid) (update_where P f rows))
      = map detail_shown (filter (\<lambda>s. s_uid s = uid) rows)" for rows
    using assms(3) by (induction rows) auto
  then show ?thesis using assms(1,2) by (simp add: detail_same_def rows_of_def images_of_def)
qed

definition tables_ok :: "'r world \<Rightarrow> bool" where
  "tables_ok w \<longleftrightarrow> catalog_ok w \<and> unique_key si_uid (spot_images w)"

lemma catalog_ok_update:
  assumes "catalog_ok w" and "spots w' = update_where P f (spots w)"
    and "\<And>s. s \<in> set (spots w) \<Longrightarrow> P s \<Longrightarrow> s_uid (f s) = s_uid s \<and> spot_key (f s) = spot_key s"
  shows "catalog_ok w'"
proof -
  have "map s_uid (update_where P f rows) = map s_uid rows \<and> map spot_key (update_where P f rows) = map spot_key rows"
    if "set rows \<subseteq> set (spots w)" for rows
    using that assms(3) by (induction rows) auto
  then show ?thesis using assms(1,2) by (simp add: catalog_ok_def unique_key_def keyed_def)
qed

lemma tables_ok_same: "tables_ok w \<Longrightarrow> spots w' = spots w \<Longrightarrow> spot_images w' = spot_images w \<Longrightarrow> tables_ok w'"
  by (simp add: tables_ok_def catalog_ok_def)

text \<open>The keys the answers are stored under.\<close>

definition is_entry :: "string \<Rightarrow> bool" where
  "is_entry k \<longleftrightarrow> (\<exists>x. k = ''spots:list:'' @ x) \<or> (\<exists>x. k = ''spots:detail:'' @ x)"

lemma is_entry_keys: "is_entry (spots_list_key sha params v)" "is_entry (spot_detail_key_at uid v)"
  by (simp_all add: is_entry_def spots_list_key_def spot_detail_key_at_def)

lemma is_entry_not:
  "is_entry k \<Longrightarrow> k \<noteq> SPOTS_VERSION_KEY" "is_entry k \<Longrightarrow> k \<noteq> spot_detail_version_key uid"
  "is_entry k \<Longrightarrow> k \<noteq> rate_limit_key scope actor"
  by (auto simp: is_entry_def SPOTS_VERSION_KEY_def spot_detail_version_key_def rate_limit_key_def)

lemma detail_key_at_inj:
  "spot_detail_key_at uid v = spot_detail_key_at uid' v' \<longleftrightarrow> uid = uid' \<and> v = v'"
proof
  assume "spot_detail_key_at uid v = spot_detail_key_at uid' v'"
  then have "rev (uid @ '':v'' @ str_of_int v) = rev (uid' @ '':v'' @ str_of_int v')"
    by (simp add: spot_detail_key_at_def)
  then have eq: "(rev (str_of_int v) @ [CHR ''v'']) @ CHR '':'' # rev uid
      = (rev (str_of_int v') @ [CHR ''v'']) @ CHR '':'' # rev uid'"
    by simp
  have "CHR '':'' \<notin> set (rev (str_of_int n) @ [CHR ''v''])" for n
    using str_of_int_no_colon [of n] by simp
  with eq have "rev (str_of_int v) @ [CHR ''v''] = rev (str_of_int v') @ [CHR ''v''] \<and> rev uid = rev uid'"
    by (meson append_sep_inject)
  then show "uid = uid' \<and> v = v'" by (auto dest: str_of_int_inj)
qed simp

section \<open>Every write against the cache\<close>

context redis_server
begin

definition versions_ok :: "'r \<Rightarrow> bool" where
  "versions_ok r \<longleftrightarrow> counting SPOTS_VERSION_KEY r \<and> (\<forall>uid. counting (spot_detail_version_key uid) r)"

abbreviation lv :: "'r \<Rightarrow> int" where
  "lv r \<equiv> version_of_value (value_of SPOTS_VERSION_KEY r)"

abbreviation dv :: "uid \<Rightarrow> 'r \<Rightarrow> int" where
  "dv uid r \<equiv> version_of_value (value_of (spot_detail_version_key uid) r)"

text \<open>What a command may do to the versions and the entries, besides storing an entry.\<close>

definition later :: "'r \<Rightarrow> 'r \<Rightarrow> bool" where
  "later r r' \<longleftrightarrow> versions_ok r' \<and> lv r \<le> lv r' \<and> (\<forall>uid. dv uid r \<le> dv uid r')
     \<and> (\<forall>k. is_entry k \<longrightarrow> value_of k r' = value_of k r \<or> value_of k r' = None)"

lemma later_refl: "versions_ok r \<Longrightarrow> later r r"
  by (simp add: later_def)

lemma later_trans: "later r s \<Longrightarrow> later s t \<Longrightarrow> later r t"
  unfolding later_def by (metis order_trans)

lemma version_keys [simp]:
  "SPOTS_VERSION_KEY \<noteq> spot_detail_version_key uid" "spot_detail_version_key uid \<noteq> SPOTS_VERSION_KEY"
  "spot_detail_version_key uid = spot_detail_version_key uid' \<longleftrightarrow> uid = uid'"
  by (auto simp: SPOTS_VERSION_KEY_def spot_detail_version_key_def)

lemma counting_other:
  "counting k r \<Longrightarrow> k \<noteq> k' \<Longrightarrow> counting k (snd (rc_incr client k' r))"
  by (simp add: counting_def incr_volatile incr_other)

lemma later_bump:
  assumes "versions_ok r"
  shows "later r (bump_spots_version (Some client) r)" "lv (bump_spots_version (Some client) r) = lv r + 1"
    "dv uid (bump_spots_version (Some client) r) = dv uid r"
  using assms
  by (simp_all add: later_def versions_ok_def bump_spots_version_def counting_incr counting_other incr_other is_entry_not)

lemma later_invalidate:
  assumes "versions_ok r"
  shows "later r (invalidate_spot_detail (Some client) uid r)"
    "lv (invalidate_spot_detail (Some client) uid r) = lv r"
    "dv uid' (invalidate_spot_detail (Some client) uid r) = dv uid' r + (if uid' = uid then 1 else 0)"
proof -
  have "counting (spot_detail_version_key uid') (snd (rc_incr client (spot_detail_version_key uid) r))
      \<and> dv uid' (snd (rc_incr client (spot_detail_version_key uid) r)) = dv uid' r + (if uid' = uid then 1 else 0)"
    for uid'
    using assms by (cases "uid' = uid") (simp_all add: versions_ok_def counting_incr counting_other incr_other)
  then show "later r (invalidate_spot_detail (Some client) uid r)"
    "lv (invalidate_spot_detail (Some client) uid r) = lv r"
    "dv uid' (invalidate_spot_detail (Some client) uid r) = dv uid' r + (if uid' = uid then 1 else 0)"
    using assms
    by (simp_all add: later_def versions_ok_def invalidate_spot_detail_def counting_other incr_other is_entry_not)
qed

lemma later_decays:
  assumes ok: "versions_ok r" and "decays r r'"
  shows "later r r' \<and> lv r' = lv r \<and> dv uid r' = dv uid r"
proof -
  have kept: "counting k r' \<and> value_of k r' = value_of k r" if "counting k r" for k
    by (rule counting_decays [OF that assms(2)])
  have "value_of k r' = value_of k r \<or> value_of k r' = None" for k
    using decay_value [OF assms(2), of k] by (elim disjE) simp_all
  then show ?thesis using ok kept by (simp add: later_def versions_ok_def)
qed

lemma later_limit:
  assumes "versions_ok r"
  shows "later r (snd (rate_limit (Some client) scope limit secs u host r))"
    "lv (snd (rate_limit (Some client) scope limit secs u host r)) = lv r"
    "dv uid (snd (rate_limit (Some client) scope limit secs u host r)) = dv uid r"
proof -
  let ?r = "snd (rate_limit (Some client) scope limit secs u host r)"
  have pipe: "later r p \<and> lv p = lv r \<and> dv uid p = dv uid r"
    if p: "p = snd (rc_incr_expire_nx client (rate_limit_key scope actor) secs r)" for p actor
  proof -
    let ?k = "rate_limit_key scope actor"
    have keys: "SPOTS_VERSION_KEY \<noteq> ?k" "spot_detail_version_key uid' \<noteq> ?k" for uid'
      by (simp_all add: SPOTS_VERSION_KEY_def spot_detail_version_key_def rate_limit_key_def)
    have other: "k \<noteq> ?k \<Longrightarrow> value_of k p = value_of k r \<and> volatile k p = volatile k r" for k
      unfolding p using pipe_other by blast
    show ?thesis
      using assms by (simp add: later_def versions_ok_def counting_def other keys is_entry_not)
  qed
  have "?r = r \<or> (\<exists>actor. ?r = snd (rc_incr_expire_nx client (rate_limit_key scope actor) secs r))"
  proof (cases "rate_limit_actor u host")
    case (Some actor)
    obtain c r' where "rc_incr_expire_nx client (rate_limit_key scope actor) secs r = (c, r')" by (metis prod.exhaust)
    moreover from this have "?r = r'"
      by (auto simp: rate_limit_def Some incr_with_ttl_def rate_limit_key_def split: sum.split)
    ultimately show ?thesis by (metis snd_conv)
  qed (simp add: rate_limit_def)
  then have "later r ?r \<and> lv ?r = lv r \<and> dv uid ?r = dv uid r"
    using pipe later_refl [OF assms] by metis
  then show "later r ?r" "lv ?r = lv r" "dv uid ?r = dv uid r" by simp_all
qed

end

context redis_server
begin

text \<open>
  A request is sound when it keeps the tables in order, and whatever it changes that a list or a
  detail shows gets a new version.
\<close>

definition sound :: "'r world \<Rightarrow> 'r world \<Rightarrow> bool" where
  "sound w w' \<longleftrightarrow> (tables_ok w \<and> versions_ok (redis w) \<longrightarrow>
     tables_ok w' \<and> later (redis w) (redis w')
   \<and> (lv (redis w') = lv (redis w) \<longrightarrow> list_same w w')
   \<and> (\<forall>uid. dv uid (redis w') = dv uid (redis w) \<longrightarrow> detail_same uid w w'))"

lemma sound_trans:
  assumes uv: "sound u v" and vw: "sound v w"
  shows "sound u w"
  unfolding sound_def
proof
  assume ok: "tables_ok u \<and> versions_ok (redis u)"
  then have 1: "tables_ok v" "later (redis u) (redis v)" "lv (redis v) = lv (redis u) \<Longrightarrow> list_same u v"
      "dv uid (redis v) = dv uid (redis u) \<Longrightarrow> detail_same uid u v" for uid
    using uv by (simp_all add: sound_def)
  then have "tables_ok v \<and> versions_ok (redis v)" by (simp add: later_def)
  then have 2: "tables_ok w" "later (redis v) (redis w)" "lv (redis w) = lv (redis v) \<Longrightarrow> list_same v w"
      "dv uid (redis w) = dv uid (redis v) \<Longrightarrow> detail_same uid v w" for uid
    using vw by (simp_all add: sound_def)
  have le: "lv (redis u) \<le> lv (redis v)" "lv (redis v) \<le> lv (redis w)"
      "dv uid (redis u) \<le> dv uid (redis v)" "dv uid (redis v) \<le> dv uid (redis w)" for uid
    using 1(2) 2(2) by (simp_all add: later_def)
  have "list_same u w" if "lv (redis w) = lv (redis u)"
  proof -
    have "lv (redis v) = lv (redis u)" "lv (redis w) = lv (redis v)" using that le(1,2) by simp_all
    then show ?thesis using 1(3) 2(3) list_same_trans by blast
  qed
  moreover have "detail_same uid u w" if "dv uid (redis w) = dv uid (redis u)" for uid
  proof -
    have "dv uid (redis v) = dv uid (redis u)" "dv uid (redis w) = dv uid (redis v)"
      using that le(3,4) [of uid] by simp_all
    then show ?thesis using 1(4) 2(4) detail_same_trans by blast
  qed
  ultimately show "tables_ok w \<and> later (redis u) (redis w)
      \<and> (lv (redis w) = lv (redis u) \<longrightarrow> list_same u w)
      \<and> (\<forall>uid. dv uid (redis w) = dv uid (redis u) \<longrightarrow> detail_same uid u w)"
    using 2(1) later_trans [OF 1(2) 2(2)] by blast
qed

text \<open>A write of hidden columns only.\<close>

lemma sound_quiet:
  assumes "redis w' = redis w" and "tables_ok w \<Longrightarrow> tables_ok w'"
    and "list_same w w'" and "\<And>uid. detail_same uid w w'"
  shows "sound w w'"
  using assms by (simp add: sound_def later_refl)

lemma sound_same:
  assumes "redis w' = redis w" and "spots w' = spots w" and "spot_images w' = spot_images w"
  shows "sound w w'"
  using assms by (intro sound_quiet) (auto intro: tables_ok_same same_tables)

lemma sound_refl: "sound w w"
  by (rule sound_same) simp_all

lemma sound_redis:
  assumes "versions_ok (redis w) \<Longrightarrow> later (redis w) r"
  shows "sound w (w\<lparr>redis := r\<rparr>)"
  using assms by (auto simp: sound_def intro: tables_ok_same same_tables)

text \<open>A write followed by the invalidation of the details it touches, and of the lists.\<close>

lemma invalidate_details_redis:
  "redis (invalidate_details (Some client) uids w) = fold (invalidate_spot_detail (Some client)) uids (redis w)"
  "spots (invalidate_details c uids w) = spots w" "spot_images (invalidate_details c uids w) = spot_images w"
  by (induction uids arbitrary: w) (simp_all add: invalidate_details_def invalidate_detail_def)

lemma later_fold:
  assumes "versions_ok r"
  shows "later r (fold (invalidate_spot_detail (Some client)) uids r)
    \<and> lv (fold (invalidate_spot_detail (Some client)) uids r) = lv r
    \<and> (\<forall>uid \<in> set uids. dv uid r < dv uid (fold (invalidate_spot_detail (Some client)) uids r))"
  using assms
proof (induction uids arbitrary: r)
  case (Cons u uids)
  let ?r = "invalidate_spot_detail (Some client) u r"
  note step = later_invalidate [where uid = u, OF Cons.prems]
  have ok: "versions_ok ?r" using step(1) by (simp add: later_def)
  note IH = Cons.IH [OF ok]
  have "dv uid r < dv uid (fold (invalidate_spot_detail (Some client)) uids ?r)" if "uid \<in> set (u # uids)" for uid
  proof (cases "uid \<in> set uids")
    case True
    have "dv uid r \<le> dv uid ?r" using step(3) [of uid] by simp
    also have "\<dots> < dv uid (fold (invalidate_spot_detail (Some client)) uids ?r)" using IH True by blast
    finally show ?thesis .
  next
    case False
    then have "dv uid r < dv uid ?r" using that step(3) [of uid] by simp
    also have "\<dots> \<le> dv uid (fold (invalidate_spot_detail (Some client)) uids ?r)"
      using IH by (simp add: later_def)
    finally show ?thesis .
  qed
  then show ?case using IH step(1,2) later_trans by auto
qed (simp add: later_refl)

lemma sound_details:
  assumes "redis w1 = redis w" and "tables_ok w \<Longrightarrow> tables_ok w1" and "list_same w w1"
    and "\<And>uid. tables_ok w \<Longrightarrow> uid \<notin> set uids \<Longrightarrow> detail_same uid w w1"
  shows "sound w (invalidate_details (Some client) uids w1)"
  unfolding sound_def
proof
  let ?w = "invalidate_details (Some client) uids w1"
  have shown: "list_same w ?w = list_same w w1" "detail_same uid w ?w = detail_same uid w w1" for uid
    by (simp_all add: list_same_def detail_same_def rows_of_def images_of_def invalidate_details_redis)
  assume ok: "tables_ok w \<and> versions_ok (redis w)"
  then have fold: "later (redis w) (redis ?w)" "\<forall>uid \<in> set uids. dv uid (redis w) < dv uid (redis ?w)"
    using later_fold [of "redis w" uids] by (simp_all add: invalidate_details_redis assms(1))
  have "detail_same uid w ?w" if "dv uid (redis ?w) = dv uid (redis w)" for uid
    using assms(4) ok fold(2) that unfolding shown by (metis less_irrefl)
  moreover have "tables_ok ?w"
    by (rule tables_ok_same [of w1]) (use ok assms(2) in \<open>simp_all add: invalidate_details_redis\<close>)
  ultimately show "tables_ok ?w \<and> later (redis w) (redis ?w)
     \<and> (lv (redis ?w) = lv (redis w) \<longrightarrow> list_same w ?w)
     \<and> (\<forall>uid. dv uid (redis ?w) = dv uid (redis w) \<longrightarrow> detail_same uid w ?w)"
    using fold(1) assms(3) shown by blast
qed

lemma sound_refresh:
  assumes "redis w1 = redis w" and "tables_ok w \<Longrightarrow> tables_ok w1"
    and "\<And>uid. tables_ok w \<Longrightarrow> uid \<notin> set uids \<Longrightarrow> detail_same uid w w1"
  shows "sound w (invalidate_details (Some client) uids (bump_spots (Some client) w1))"
  unfolding sound_def
proof
  let ?b = "bump_spots (Some client) w1"
  let ?w = "invalidate_details (Some client) uids ?b"
  have shown: "detail_same uid w ?w = detail_same uid w w1" for uid
    by (simp add: detail_same_def rows_of_def images_of_def invalidate_details_redis bump_spots_def)
  assume ok: "tables_ok w \<and> versions_ok (redis w)"
  note bump = later_bump [OF conjunct2 [OF ok]]
  have b: "redis ?b = bump_spots_version (Some client) (redis w)" by (simp add: bump_spots_def assms(1))
  then have "versions_ok (redis ?b)" using bump(1) by (simp add: later_def)
  note fold = later_fold [OF this, of uids]
  have w: "redis ?w = fold (invalidate_spot_detail (Some client)) uids (redis ?b)"
    by (simp add: invalidate_details_redis)
  have later: "later (redis w) (redis ?w)"
    using later_trans [OF bump(1)] fold by (simp add: w b)
  have new: "lv (redis ?w) = lv (redis w) + 1" using fold bump(2) by (simp add: w b)
  have "detail_same uid w ?w" if "dv uid (redis ?w) = dv uid (redis w)" for uid
  proof -
    have "dv uid (redis ?b) = dv uid (redis w)" using bump(3) by (simp add: b)
    then have "uid \<notin> set uids" using that fold unfolding w by (metis less_irrefl)
    then show ?thesis using assms(3) ok unfolding shown by blast
  qed
  moreover have "tables_ok ?w"
    by (rule tables_ok_same [of w1]) (use ok assms(2) in \<open>simp_all add: invalidate_details_redis bump_spots_def\<close>)
  ultimately show "tables_ok ?w \<and> later (redis w) (redis ?w)
     \<and> (lv (redis ?w) = lv (redis w) \<longrightarrow> list_same w ?w)
     \<and> (\<forall>uid. dv uid (redis ?w) = dv uid (redis w) \<longrightarrow> detail_same uid w ?w)"
    using later new by simp
qed

lemma invalidate_one: "invalidate_detail c uid w = invalidate_details c [uid] w"
  by (simp add: invalidate_details_def)

end

lemma shown_hidden [simp]:
  "list_shown (s\<lparr>s_updated_at := t\<rparr>) = list_shown s"
  "list_shown (s\<lparr>s_assigned_to_uid := a\<rparr>) = list_shown s"
  "list_shown (s\<lparr>s_last_verified_at := t\<rparr>) = list_shown s"
  "list_shown (s\<lparr>s_rating_avg := q\<rparr>) = list_shown s"
  "list_shown (s\<lparr>s_review_count := n\<rparr>) = list_shown s"
  "detail_shown (s\<lparr>s_updated_at := t\<rparr>) = detail_shown s"
  "detail_shown (s\<lparr>s_assigned_to_uid := a\<rparr>) = detail_shown s"
  "detail_shown (s\<lparr>s_last_verified_at := t\<rparr>) = detail_shown s"
  by (simp_all add: list_shown_def detail_shown_def)

lemma spot_key_upd [simp]:
  "spot_key (s\<lparr>s_updated_at := t\<rparr>) = spot_key s" "spot_key (s\<lparr>s_assigned_to_uid := a\<rparr>) = spot_key s"
  "spot_key (s\<lparr>s_last_verified_at := t\<rparr>) = spot_key s" "spot_key (s\<lparr>s_rating_avg := q\<rparr>) = spot_key s"
  "spot_key (s\<lparr>s_review_count := n\<rparr>) = spot_key s" "spot_key (s\<lparr>s_deleted_at := t\<rparr>) = spot_key s"
  "spot_key (s\<lparr>s_pipeline_status := p\<rparr>) = spot_key s" "spot_key (s\<lparr>s_trust_tier := k\<rparr>) = spot_key s"
  by (simp_all add: spot_key_def)

lemma update_spots_tables:
  "redis (update_spots now P f w) = redis w"
  "spots (update_spots now P f w) = update_where P (\<lambda>s. (f s)\<lparr>s_updated_at := Some now\<rparr>) (spots w)"
  "spot_images (update_spots now P f w) = spot_images w"
  by (simp_all add: update_spots_def)

lemma tables_ok_update_spots:
  assumes "tables_ok w" and "\<And>s. P s \<Longrightarrow> s_uid (f s) = s_uid s \<and> spot_key (f s) = spot_key s"
  shows "tables_ok (update_spots now P f w)"
  using assms catalog_ok_update [of w "update_spots now P f w" P "\<lambda>s. (f s)\<lparr>s_updated_at := Some now\<rparr>"]
  by (simp add: tables_ok_def update_spots_tables)

context redis_server
begin

text \<open>The writes of \<open>crud/spot.py\<close>.\<close>

lemma sound_assign:
  "sound w (update_spots now P (\<lambda>s. s\<lparr>s_assigned_to_uid := a\<rparr>) w)"
proof (rule sound_quiet)
  show "list_same w (update_spots now P (\<lambda>s. s\<lparr>s_assigned_to_uid := a\<rparr>) w)"
    by (rule list_same_update [OF update_spots_tables(2,3)]) simp
  show "detail_same uid w (update_spots now P (\<lambda>s. s\<lparr>s_assigned_to_uid := a\<rparr>) w)" for uid
    by (rule detail_same_update_hidden [OF update_spots_tables(2,3)]) simp
qed (simp_all add: update_spots_tables tables_ok_update_spots)

lemma sound_write:
  assumes "\<And>s. P s \<Longrightarrow> s_uid (f s) = s_uid s \<and> spot_key (f s) = spot_key s"
    and "\<And>s. s \<in> set (spots w) \<Longrightarrow> P s \<Longrightarrow> s_uid s \<in> set uids"
  shows "sound w (invalidate_details (Some client) uids (bump_spots (Some client) (update_spots now P f w)))"
proof (rule sound_refresh)
  show "detail_same uid w (update_spots now P f w)" if "uid \<notin> set uids" for uid
  proof -
    show ?thesis
      by (rule detail_same_update_touched [OF update_spots_tables(2,3)]) (use that assms in auto)
  qed
qed (use assms(1) in \<open>simp_all add: update_spots_tables tables_ok_update_spots\<close>)

lemma sound_update_spot: "sound w (snd (update_spot (Some client) cfg now uid data w))"
  unfolding update_spot_def
proof (rule check_state [where P = "sound w"])
  fix found
  assume "get_spot_by_uid cfg uid False w = Inr found"
  show "sound w (snd (case found of None \<Rightarrow> ret None w
       | Some s \<Rightarrow> (case set_spot_attrs data s of
              None \<Rightarrow> raise integrity_error w
            | Some s' \<Rightarrow> ret (Some (saved_spot now s s'))
                (invalidate_detail (Some client) uid (bump_spots (Some client) (save_spot now s s' w))))))"
  proof (cases found)
    case (Some s)
    then have s: "s_uid s = uid" and mem: "s \<in> set (spots w)"
      using \<open>get_spot_by_uid cfg uid False w = Inr found\<close>
      by (auto simp: get_spot_by_uid_def dest: scalar_one_or_none_filter)
    show ?thesis
    proof (cases "set_spot_attrs data s")
      case None
      then show ?thesis using Some sound_refl by simp
    next
      fix s'
      assume s': "set_spot_attrs data s = Some s'"
      note keeps = set_spot_attrs_keeps [OF s']
      have saved: "save_spot now s s' w = w \<or> save_spot now s s' w =
          w\<lparr>spots := update_where (\<lambda>x. s_uid x = uid) (\<lambda>_. s'\<lparr>s_updated_at := Some now\<rparr>) (spots w)\<rparr>"
        by (simp add: save_spot_def s)
      have "sound w (invalidate_details (Some client) [uid] (bump_spots (Some client) (save_spot now s s' w)))"
      proof (rule sound_refresh)
        show "redis (save_spot now s s' w) = redis w" by (simp add: save_spot_def)
        show "detail_same i w (save_spot now s s' w)" if "i \<notin> set [uid]" for i
          using saved
        proof
          assume "save_spot now s s' w = w\<lparr>spots := update_where (\<lambda>x. s_uid x = uid)
              (\<lambda>_. s'\<lparr>s_updated_at := Some now\<rparr>) (spots w)\<rparr>"
          then show ?thesis
            by (intro detail_same_update_touched [where P = "\<lambda>x. s_uid x = uid"
                and f = "\<lambda>_. s'\<lparr>s_updated_at := Some now\<rparr>"]) (use that keeps s in auto)
        qed simp
        show "tables_ok (save_spot now s s' w)" if ok: "tables_ok w"
          using saved
        proof
          let ?w = "w\<lparr>spots := update_where (\<lambda>x. s_uid x = uid) (\<lambda>_. s'\<lparr>s_updated_at := Some now\<rparr>) (spots w)\<rparr>"
          assume eq: "save_spot now s s' w = ?w"
          have "x = s" if "x \<in> set (spots w)" "s_uid x = uid" for x
            using unique_key_eq [of s_uid "spots w" x s] that s mem ok by (simp add: tables_ok_def catalog_ok_def)
          then have "catalog_ok ?w"
            using keeps ok by (intro catalog_ok_update [of w ?w "\<lambda>x. s_uid x = uid" "\<lambda>_. s'\<lparr>s_updated_at := Some now\<rparr>"])
              (auto simp: tables_ok_def spot_key_def)
          then show ?thesis using ok eq by (simp add: tables_ok_def)
        qed (use ok in simp)
      qed
      then show ?thesis using Some s' by (simp add: invalidate_one)
    qed
  qed (simp add: sound_refl)
qed (rule sound_refl)

end

context redis_server
begin

lemmas sound_check = check_state [where P = "sound w" for w, OF sound_refl]

lemma sound_bind:
  assumes "sound w (snd m)" and "\<And>x. fst m = Inr x \<Longrightarrow> sound (snd m) (snd (k x (snd m)))"
  shows "sound w (snd (bindR m k))"
  using assms(1) by (rule bindR_state [where P = "sound w"]) (blast intro: sound_trans [OF assms(1)] assms(2))

lemma sound_detail_or_404: "sound w (snd (detail_or_404 found w))"
  by (cases found) (simp_all add: detail_or_404_def sound_refl)

lemma sound_delete_spot: "sound w (delete_spot (Some client) now s w)"
  unfolding delete_spot_def invalidate_one by (rule sound_write) simp_all

lemma sound_restore_spot: "sound w (snd (restore_spot (Some client) now s w))"
  unfolding restore_spot_def invalidate_one snd_conv by (rule sound_write) simp_all

lemma sound_bulk_status: "sound w (snd (update_pipeline_status_bulk (Some client) now uids status w))"
  by (auto simp: update_pipeline_status_bulk_def Let_def sound_refl intro!: sound_write)

lemma sound_decay: "sound w (snd (decay_stale_trust_tiers (Some client) now n w))"
proof -
  let ?down = "\<lambda>s. is_stale (now - days n) s \<and> tier_below 3 s"
  let ?f = "\<lambda>s. s\<lparr>s_trust_tier := map_option (\<lambda>t. t + 1) (s_trust_tier s), s_last_verified_at := Some now\<rparr>"
  let ?uids = "map s_uid (filter ?down (spots w))"
  let ?w1 = "update_spots now ?down ?f w"
  let ?again = "\<lambda>s. is_stale (now - days n) s \<and> s_trust_tier s = Some 3"
  let ?g = "\<lambda>s. s\<lparr>s_assigned_to_uid := None, s_last_verified_at := Some now\<rparr>"
  let ?w2 = "update_spots now ?again ?g ?w1"
  have run: "snd (decay_stale_trust_tiers (Some client) now n w) =
      (if ?uids \<noteq> [] then invalidate_details (Some client) ?uids (bump_spots (Some client) ?w2) else ?w2)"
    by (simp add: decay_stale_trust_tiers_def Let_def)
  have hidden: "list_same ?w1 ?w2" "detail_same uid ?w1 ?w2" for uid
    by (rule list_same_update [OF update_spots_tables(2,3)], simp)
      (rule detail_same_update_hidden [OF update_spots_tables(2,3)], simp)
  have ok: "tables_ok w \<Longrightarrow> tables_ok ?w2" by (simp add: tables_ok_update_spots)
  show ?thesis
  proof (cases "?uids = []")
    case True
    then have "\<And>s. s \<in> set (spots w) \<Longrightarrow> \<not> ?down s" by (auto simp: filter_empty_conv)
    then have "spots ?w1 = spots w" unfolding update_spots_tables by (rule update_where_none)
    then have "list_same w ?w1" "detail_same uid w ?w1" for uid
      by (rule same_tables, simp add: update_spots_tables)+
    then have "sound w ?w2"
      using hidden ok by (intro sound_quiet) (auto simp: update_spots_tables intro: list_same_trans detail_same_trans)
    then show ?thesis unfolding run using True by simp
  next
    case False
    have "sound w (invalidate_details (Some client) ?uids (bump_spots (Some client) ?w2))"
    proof (rule sound_refresh)
      show "detail_same uid w ?w2" if "uid \<notin> set ?uids" for uid
      proof (rule detail_same_trans [OF _ hidden(2)])
        show "detail_same uid w ?w1"
          by (rule detail_same_update_touched [OF update_spots_tables(2,3)]) (use that in auto)
      qed
    qed (use ok in \<open>simp_all add: update_spots_tables\<close>)
    then show ?thesis unfolding run using False by simp
  qed
qed

lemma sound_console: "sound w (run_spot_request (Some client) cfg now locked caller req w)"
proof (cases req)
  case (Assign_Spots u n)
  then show ?thesis
    by (auto simp: assign_spots_endpoint_def assign_spots_def Let_def intro!: sound_check sound_assign sound_refl)
next
  case (Bulk_Assign us u)
  then show ?thesis
    by (auto simp: bulk_assign_spots_def assign_spots_bulk_def intro!: sound_check sound_assign sound_refl)
next
  case (Transfer_Spots a b n)
  then show ?thesis
    by (auto simp: transfer_spot_assignments_endpoint_def transfer_spot_assignments_def Let_def
        intro!: sound_check sound_assign sound_refl)
next
  case (Bulk_Status us status)
  have "sound w (snd (case update_pipeline_status_bulk (Some client) now us status w of
        (succeeded, w') \<Rightarrow> ret (succeeded, filter (\<lambda>uid. uid \<notin> set succeeded) us) w'))"
    using sound_bulk_status [of w now us status]
    by (cases "update_pipeline_status_bulk (Some client) now us status w") simp
  with Bulk_Status show ?thesis
    by (auto simp: bulk_update_pipeline_status_def intro!: sound_check sound_refl)
next
  case (Reassign_Spot u a)
  then show ?thesis
    by (auto simp: reassign_spot_def intro!: sound_check sound_bind sound_update_spot sound_detail_or_404)
next
  case (Update_Spot u body)
  then show ?thesis
    by (auto simp: update_spot_endpoint_def Let_def
        intro!: sound_check sound_bind sound_update_spot sound_detail_or_404 sound_refl)
next
  case (Delete_Spot u)
  then show ?thesis by (auto simp: delete_spot_endpoint_def intro!: sound_check sound_delete_spot)
next
  case (Restore_Spot u)
  have "sound w (snd (case restore_spot (Some client) now s w of (s', w') \<Rightarrow> ret (admin_detail_of s') w'))" for s
    using sound_restore_spot [of w now s] by (cases "restore_spot (Some client) now s w") simp
  with Restore_Spot show ?thesis by (auto simp: restore_spot_endpoint_def intro!: sound_check)
qed

end

text \<open>The writes of images.\<close>

lemma get_image_or_404_mem: "get_image_or_404 uid i w = Inr img \<Longrightarrow> img \<in> set (spot_images w)"
  by (auto simp: get_image_or_404_def get_image_by_uid_def bindE_Inr_iff split: option.splits
      dest: scalar_one_or_none_filter)

lemma images_of_update:
  assumes "\<And>i. i \<in> set rows \<Longrightarrow> P i \<Longrightarrow> si_spot_uid i \<noteq> uid \<and> si_spot_uid (f i) = si_spot_uid i"
  shows "filter (\<lambda>i. si_spot_uid i = uid) (update_where P f rows) = filter (\<lambda>i. si_spot_uid i = uid) rows"
  using assms by (induction rows) auto

lemma set_image_attrs_keeps: "set_image_attrs data i = Some i' \<Longrightarrow> si_uid i' = si_uid i \<and> si_spot_uid i' = si_spot_uid i"
proof (induction data arbitrary: i)
  case (Cons a as)
  then obtain i1 where i1: "set_image_attr a i = Some i1" "set_image_attrs as i1 = Some i'"
    by (auto split: option.splits)
  have "si_uid i1 = si_uid i \<and> si_spot_uid i1 = si_spot_uid i" using i1(1) by (cases a) auto
  with Cons.IH [OF i1(2)] show ?case by simp
qed simp

context redis_server
begin

lemma sound_images:
  assumes "tables_ok w \<Longrightarrow> unique_key si_uid rows"
    and "\<And>i. tables_ok w \<Longrightarrow> i \<noteq> uid \<Longrightarrow> filter (\<lambda>x. si_spot_uid x = i) rows = images_of i w"
  shows "sound w (invalidate_spot (Some client) uid (w\<lparr>spot_images := rows\<rparr>))"
  unfolding invalidate_spot_def invalidate_one
  by (rule sound_refresh)
    (use assms in \<open>auto simp: tables_ok_def catalog_ok_def detail_same_def rows_of_def images_of_def\<close>)

lemma sound_image_update:
  assumes img: "img \<in> set (spot_images w)"
    and key: "\<And>i. si_uid i = si_uid img \<Longrightarrow> si_uid (f i) = si_uid i"
    and spot: "si_spot_uid (f img) = si_spot_uid img"
  shows "sound w (invalidate_spot (Some client) (si_spot_uid img)
     (w\<lparr>spot_images := update_where (\<lambda>i. si_uid i = si_uid img) f (spot_images w)\<rparr>))"
proof (rule sound_images)
  assume ok: "tables_ok w"
  then show "unique_key si_uid (update_where (\<lambda>i. si_uid i = si_uid img) f (spot_images w))"
    using key by (simp add: tables_ok_def unique_key_update_where)
  have "i = img" if "i \<in> set (spot_images w)" "si_uid i = si_uid img" for i
    using ok that img by (auto simp: tables_ok_def dest: unique_key_eq)
  then show "filter (\<lambda>x. si_spot_uid x = u) (update_where (\<lambda>i. si_uid i = si_uid img) f (spot_images w)) = images_of u w"
    if "u \<noteq> si_spot_uid img" for u
    unfolding images_of_def using that spot by (intro images_of_update) auto
qed

lemma sound_create_image:
  "sound w (snd (create_image (Some client) fresh now spot_uid key role n public ct w))"
proof -
  have "sound w (invalidate_spot (Some client) spot_uid (w\<lparr>spot_images := rows\<rparr>))"
    if "insert_row si_uid img (spot_images w) = Some rows" and img: "si_spot_uid img = spot_uid" for img rows
    by (rule sound_images)
      (use that in \<open>auto simp: insert_row_Some tables_ok_def images_of_def unique_key_snoc\<close>)
  then show ?thesis by (auto simp: create_image_def Let_def sound_refl split: option.split)
qed

lemma sound_register:
  "sound w (fst (snd (register_image (Some client) s3 cfg fresh now uid p (w, b))))"
proof -
  let ?ok = "\<lambda>s. sound w (fst s)"
  have start: "?ok (w, b)" by (simp add: sound_refl)
  have "?ok (snd (insert_registered (Some client) s3 cfg fresh now uid p key (w, b')))" for key b'
    using sound_create_image [of w fresh now uid key "rq_role p" "rq_sort_order p" "rq_is_public p" "rq_content_type p"]
    by (auto simp: insert_registered_def split: prod.split sum.split)
  then show ?thesis
    unfolding register_image_def
    by (auto intro!: check_state [where P = ?ok] sound_refl simp: sound_refl split: option.split prod.split sum.split)
qed

lemma sound_update_image: "sound w (snd (update_image_endpoint (Some client) s3 cfg now uid i data w))"
  unfolding update_image_endpoint_def
proof (rule sound_check)
  fix img
  assume "get_image_or_404 uid i w = Inr img"
  then have img: "img \<in> set (spot_images w)" by (rule get_image_or_404_mem)
  have "sound w (snd (update_image (Some client) now img data w))"
  proof (cases "set_image_attrs data img")
    case (Some changed)
    let ?saved = "save_image now img changed"
    have "si_uid ?saved = si_uid img" "si_spot_uid ?saved = si_spot_uid img"
      using set_image_attrs_keeps [OF Some] by (simp_all add: save_image_def)
    then have "sound w (invalidate_spot (Some client) (si_spot_uid img)
        (w\<lparr>spot_images := update_where (\<lambda>i. si_uid i = si_uid img) (\<lambda>_. ?saved) (spot_images w)\<rparr>))"
      by (intro sound_image_update [OF img]) simp_all
    then show ?thesis using Some by (simp add: update_image_def Let_def)
  qed (simp add: update_image_def sound_refl)
  then show "sound w (snd (bindR (update_image (Some client) now img data w)
      (\<lambda>saved w'. (image_out_of s3 cfg saved, w'))))"
    by (rule sound_bind) (simp add: sound_refl)
qed

lemma sound_delete_image: "sound w (snd (delete_image_endpoint (Some client) now uid i w))"
  unfolding delete_image_endpoint_def
proof (rule sound_check)
  fix img
  assume "get_image_or_404 uid i w = Inr img"
  then have img: "img \<in> set (spot_images w)" by (rule get_image_or_404_mem)
  show "sound w (snd (ret () (delete_image (Some client) now img w)))"
    unfolding delete_image_def snd_ret by (rule sound_image_update [OF img]) simp_all
qed

end

text \<open>A batch of spots touches the spots whose uids it answers.\<close>

definition touched :: "uid list \<Rightarrow> 'r world \<Rightarrow> 'r world \<Rightarrow> bool" where
  "touched uids w w' \<longleftrightarrow> redis w' = redis w \<and> spot_images w' = spot_images w
     \<and> (\<forall>uid. uid \<notin> set uids \<longrightarrow> rows_of uid w' = rows_of uid w)"

lemma touched_step:
  assumes ok: "catalog_ok w" and run: "upsert_spot_row fresh now row w = (Inr uid, w')"
  shows "touched [uid] w w'"
  using run
proof (cases rule: upsert_spot_cases)
  case (existing s)
  have "s_uid x = uid" if "x \<in> set (spots w)" "spot_key x = row_key row" for x
    using keyed_eq [of "spots w" x s] ok existing that by (simp add: catalog_ok_def)
  then have "detail_same u w w' \<and> rows_of u w' = rows_of u w" if "u \<noteq> uid" for u
  proof -
    have "filter (\<lambda>x. s_uid x = u) (update_where (\<lambda>x. spot_key x = row_key row) (write_columns row) rows)
        = filter (\<lambda>x. s_uid x = u) rows" if "set rows \<subseteq> set (spots w)" for rows
      using that \<open>u \<noteq> uid\<close> \<open>\<And>x. x \<in> set (spots w) \<Longrightarrow> spot_key x = row_key row \<Longrightarrow> s_uid x = uid\<close>
      by (induction rows) auto
    then show ?thesis by (simp add: existing(5) rows_of_def detail_same_def images_of_def)
  qed
  then show ?thesis by (simp add: touched_def existing(5))
next
  case created
  then show ?thesis by (simp add: touched_def rows_of_def)
qed

lemma touched_all:
  "write_all (\<lambda>i. upsert_spot_row (fresh i) now) i rows w = Some (uids, w') \<Longrightarrow> catalog_ok w
     \<Longrightarrow> touched uids w w' \<and> catalog_ok w'"
proof (induction rows arbitrary: i w uids)
  case (Cons row rows)
  then obtain uid w1 vs where 1: "upsert_spot_row (fresh i) now row w = (Inr uid, w1)" "uids = uid # vs"
      and 2: "write_all (\<lambda>i. upsert_spot_row (fresh i) now) (Suc i) rows w1 = Some (vs, w')"
    by (auto split: prod.splits sum.splits)
  note step = touched_step [OF Cons.prems(2) 1(1)]
  have "catalog_ok w1" by (rule upsert_spot_ok [OF Cons.prems(2) 1(1)])
  from Cons.IH [OF 2 this] step show ?case by (simp add: touched_def 1(2))
qed (simp add: touched_def)

context redis_server
begin

lemma sound_bulk: "sound w (snd (spots_bulk_upsert_handler (Some client) fresh now request w))"
proof (cases "spots_bulk_upsert_handler (Some client) fresh now request w")
  case (Pair outcome w')
  show ?thesis
  proof (cases outcome)
    case (Inl e)
    then have "w' = w" using Pair by (auto simp: spots_bulk_upsert_handler_def split: if_splits prod.splits)
    then show ?thesis using Pair by (simp add: sound_refl)
  next
    case (Inr result)
    let ?put = "\<lambda>i. upsert_spot_row (fresh i) now"
    note batch = handler_batch(1) [OF Pair [unfolded Inr]]
    show ?thesis
    proof (cases "write_all ?put 0 (bk_rows request) w")
      case None
      with spot_rows.batch_spec [where fresh = fresh and now = now and client = "Some client" and s = w
          and rows = "bk_rows request" and dry_run = "bk_dry_run request"] batch
      show ?thesis using Pair by (simp add: sound_refl)
    next
      case (Some xs)
      obtain uids t where xs: "xs = (uids, t)" by (cases xs)
      have w': "w' = (if bk_dry_run request then w else refresh_caches (Some client) uids t)"
        using spot_rows.batch_spec [where fresh = fresh and now = now and client = "Some client" and s = w
          and rows = "bk_rows request" and dry_run = "bk_dry_run request"] batch Some xs
        by simp
      have "sound w (refresh_caches (Some client) uids t)"
      proof (cases "tables_ok w")
        case True
        then have "touched uids w t" "tables_ok t"
          using touched_all [OF Some [unfolded xs]] by (auto simp: tables_ok_def touched_def)
        then show ?thesis
          unfolding refresh_caches_def
          by (intro sound_refresh) (auto simp: detail_same_def touched_def images_of_def)
      qed (simp add: sound_def)
      then show ?thesis using Pair w' by (simp add: sound_refl)
    qed
  qed
qed

text \<open>The writes of reviews: the rating of the spot, and its detail.\<close>

lemma sound_recalculate:
  assumes "redis w' = redis w" and "spots w' = spots w" and "spot_images w' = spot_images w"
  shows "sound w (invalidate_detail (Some client) uid (recalculate_spot_rating now uid w'))"
proof -
  have same: "sound w w'" by (rule sound_same [OF assms])
  let ?r = "recalculate_spot_rating now uid w'"
  have "sound w' (invalidate_details (Some client) [uid] ?r)"
  proof (rule sound_details)
    show "list_same w' ?r"
      unfolding recalculate_spot_rating_def Let_def
      by (rule list_same_update [OF update_spots_tables(2,3)]) simp
    show "detail_same u w' ?r" if "u \<notin> set [uid]" for u
      unfolding recalculate_spot_rating_def Let_def
      by (rule detail_same_update_touched [OF update_spots_tables(2,3)]) (use that in auto)
  qed (simp_all add: recalculate_spot_rating_def Let_def update_spots_tables tables_ok_update_spots)
  then show ?thesis using sound_trans [OF same] by (simp add: invalidate_one)
qed

lemma sound_create_review: "sound w (snd (create_review (Some client) fresh now s u n c w))"
proof -
  have "sound w (invalidate_detail (Some client) s (recalculate_spot_rating now s w'))"
    if "insert_review r w = Some w'" for r w'
    by (rule sound_recalculate) (use that in \<open>auto simp: insert_review_def split: if_splits\<close>)
  then show ?thesis
    unfolding create_review_def by (auto intro!: sound_check sound_refl simp: Let_def split: option.split)
qed

lemma sound_update_review: "sound w (snd (update_review (Some client) now r data w))"
proof (cases "set_review_attrs data r")
  case (Some changed)
  let ?w = "w\<lparr>spot_reviews := update_where (\<lambda>x. rv_uid x = rv_uid r)
     (\<lambda>_. if changed = r then r else changed\<lparr>rv_updated_at := Some now\<rparr>) (spot_reviews w)\<rparr>"
  have "sound w ?w" by (rule sound_same) simp_all
  moreover have "sound w (invalidate_detail (Some client) (rv_spot_uid r)
      (recalculate_spot_rating now (rv_spot_uid r) ?w))"
    by (rule sound_recalculate) simp_all
  ultimately show ?thesis using Some by (simp add: update_review_def Let_def)
qed (simp add: update_review_def sound_refl)

lemma sound_delete_review: "sound w (soft_delete_review (Some client) now r w)"
  unfolding soft_delete_review_def by (rule sound_recalculate) simp_all

lemma sound_report: "sound w (snd (create_report fresh now r u reason w))"
  unfolding create_report_def by (auto intro!: sound_check sound_refl sound_same simp: Let_def split: option.split)

lemma sound_limited: "sound w (snd (rate_limited (Some client) scope n secs visitor host w))"
proof (cases visitor)
  case (Inr u)
  have "sound w (w\<lparr>redis := snd (rate_limit (Some client) scope n secs u host (redis w))\<rparr>)"
    by (rule sound_redis) (rule later_limit)
  then show ?thesis
    using Inr by (cases "rate_limit (Some client) scope n secs u host (redis w)") (simp add: rate_limited_def)
qed (simp add: rate_limited_def sound_refl)

lemma sound_reviews: "sound w (run_review_request (Some client) cfg now visitor host req w)"
proof (cases req)
  case (Create_Review fresh s n c)
  then show ?thesis
    by (auto simp: create_review_endpoint_def
        intro!: sound_bind sound_limited sound_check sound_refl sound_create_review)
next
  case (Update_Review s r data)
  then show ?thesis
    by (auto simp: update_review_endpoint_def intro!: sound_bind sound_check sound_refl sound_update_review)
next
  case (Delete_Review s r)
  then show ?thesis by (auto simp: delete_review_def intro!: sound_check sound_refl sound_delete_review)
next
  case (Report_Review fresh s r reason)
  then show ?thesis
    by (auto simp: report_review_def intro!: sound_bind sound_limited sound_check sound_refl sound_report)
qed

end

section \<open>The run of the program\<close>

text \<open>The queries that share the list keys: their parameters and the answer they compute.\<close>

inductive explore_query ::
    "('r, 'b) explore_env \<Rightarrow> (string \<times> param_value) list \<Rightarrow> ('r world \<Rightarrow> string res) \<Rightarrow> bool"
  for env
where
  listing: "query_box env bbox = Inr box \<Longrightarrow>
     explore_query env (list_spots_params q category region_province bbox cursor limit)
       (list_spots_answer env q category region_province box cursor limit)"
| pins: "query_box env bbox = Inr box \<Longrightarrow>
     explore_query env (map_params q category region_province bbox limit)
       (map_answer env q category region_province box limit)"

text \<open>
  One request that reads or writes what explore shows, the passing of time on the Redis server,
  or any other request: those leave the spots and their images alone, and touch no key of the
  cache but through a request limit.
\<close>

inductive explore_step ::
    "('r, 'b) explore_env \<Rightarrow> ('r \<Rightarrow> 'r \<Rightarrow> bool) \<Rightarrow> 'r world \<Rightarrow> 'r world \<Rightarrow> bool"
  for env decays
where
  list_request: "explore_step env decays w
     (snd (list_spots_endpoint env visitor host q category region_province bbox cursor limit w))"
| map_request: "explore_step env decays w
     (snd (list_spots_for_map env visitor host q category region_province bbox limit w))"
| detail_request: "explore_step env decays w (snd (get_spot env uid w))"
| console: "explore_step env decays w
     (run_spot_request (ee_client env) (ee_settings env) now locked caller spot_request w)"
| review: "explore_step env decays w
     (run_review_request (ee_client env) (ee_settings env) now visitor host review_request w)"
| image_added: "explore_step env decays w
     (fst (snd (register_image (ee_client env) (ee_s3 env) (ee_settings env) fresh now uid p (w, b))))"
| image_changed: "explore_step env decays w
     (snd (update_image_endpoint (ee_client env) (ee_s3 env) (ee_settings env) now uid image_uid data w))"
| image_deleted: "explore_step env decays w (snd (delete_image_endpoint (ee_client env) now uid image_uid w))"
| bulk_upsert: "explore_step env decays w
     (snd (spots_bulk_upsert_handler (ee_client env) uids now request w))"
| decay: "explore_step env decays w (snd (decay_stale_trust_tiers (ee_client env) now threshold w))"
| limited: "explore_step env decays w (snd (rate_limited (ee_client env) scope n secs visitor host w))"
| other: "spots w' = spots w \<Longrightarrow> spot_images w' = spot_images w \<Longrightarrow> redis w' = redis w \<Longrightarrow>
     explore_step env decays w w'"
| time: "decays (redis w) r \<Longrightarrow> explore_step env decays w (w\<lparr>redis := r\<rparr>)"

inductive_cases explore_stepE: "explore_step env decays w w'"

context redis_server
begin

definition explore_start :: "'r world \<Rightarrow> bool" where
  "explore_start w \<longleftrightarrow> tables_ok w \<and> versions_ok (redis w) \<and> (\<forall>k. is_entry k \<longrightarrow> value_of k (redis w) = None)"

text \<open>Every stored answer of a current version is current.\<close>

definition list_current :: "('r, 'b) explore_env \<Rightarrow> (string \<times> param_value) list \<Rightarrow> string \<Rightarrow> 'r world \<Rightarrow> bool" where
  "list_current env params json w \<longleftrightarrow> (\<exists>params' answer w'. explore_query env params' answer
     \<and> ee_sha env (raw_params params') = ee_sha env (raw_params params) \<and> list_same w w' \<and> answer w' = Inr json)"

definition detail_current :: "('r, 'b) explore_env \<Rightarrow> uid \<Rightarrow> string \<Rightarrow> 'r world \<Rightarrow> bool" where
  "detail_current env uid json w \<longleftrightarrow> (\<exists>w'. detail_same uid w w' \<and> detail_answer env uid w' = Inr json)"

definition current :: "('r, 'b) explore_env \<Rightarrow> 'r world \<Rightarrow> bool" where
  "current env w \<longleftrightarrow> tables_ok w \<and> versions_ok (redis w)
   \<and> (\<forall>params v json. value_of (spots_list_key (ee_sha env) params v) (redis w) = Some json \<longrightarrow>
        v \<le> lv (redis w) \<and> (v = lv (redis w) \<longrightarrow> list_current env params json w))
   \<and> (\<forall>uid v json. value_of (spot_detail_key_at uid v) (redis w) = Some json \<longrightarrow>
        v \<le> dv uid (redis w) \<and> (v = dv uid (redis w) \<longrightarrow> detail_current env uid json w))"

lemma current_start: "explore_start w \<Longrightarrow> current env w"
  by (simp add: explore_start_def current_def is_entry_keys)

lemma list_current_same: "list_current env params json w \<Longrightarrow> list_same w w' \<Longrightarrow> list_current env params json w'"
  unfolding list_current_def using list_same_sym list_same_trans by blast

lemma detail_current_same: "detail_current env uid json w \<Longrightarrow> detail_same uid w w' \<Longrightarrow> detail_current env uid json w'"
  unfolding detail_current_def using detail_same_sym detail_same_trans by blast

lemma current_sound:
  assumes "current env w" and "sound w w'"
  shows "current env w'"
proof -
  have ok: "tables_ok w \<and> versions_ok (redis w)" using assms(1) by (simp add: current_def)
  then have s: "tables_ok w'" "later (redis w) (redis w')" "lv (redis w') = lv (redis w) \<Longrightarrow> list_same w w'"
      "dv uid (redis w') = dv uid (redis w) \<Longrightarrow> detail_same uid w w'" for uid
    using assms(2) by (simp_all add: sound_def)
  have kept: "value_of k (redis w) = Some json" if "value_of k (redis w') = Some json" "is_entry k" for k json
    using s(2) that unfolding later_def by (metis option.distinct(1))
  have "v \<le> lv (redis w') \<and> (v = lv (redis w') \<longrightarrow> list_current env params json w')"
    if "value_of (spots_list_key (ee_sha env) params v) (redis w') = Some json" for params v json
  proof -
    have "v \<le> lv (redis w)" "v = lv (redis w) \<Longrightarrow> list_current env params json w"
      using kept [OF that is_entry_keys(1)] assms(1) unfolding current_def by blast+
    moreover have "lv (redis w) \<le> lv (redis w')" using s(2) by (simp add: later_def)
    moreover have "list_current env params json w'"
      if "lv (redis w') = lv (redis w)" "list_current env params json w"
      using list_current_same [OF that(2) s(3) [OF that(1)]] .
    ultimately show ?thesis by (cases "lv (redis w') = lv (redis w)") auto
  qed
  moreover have "v \<le> dv uid (redis w') \<and> (v = dv uid (redis w') \<longrightarrow> detail_current env uid json w')"
    if "value_of (spot_detail_key_at uid v) (redis w') = Some json" for uid v json
  proof -
    have "v \<le> dv uid (redis w)" "v = dv uid (redis w) \<Longrightarrow> detail_current env uid json w"
      using kept [OF that is_entry_keys(2)] assms(1) unfolding current_def by blast+
    moreover have "dv uid (redis w) \<le> dv uid (redis w')" using s(2) by (simp add: later_def)
    moreover have "detail_current env uid json w'"
      if "dv uid (redis w') = dv uid (redis w)" "detail_current env uid json w"
      using detail_current_same [OF that(2) s(4) [OF that(1)]] .
    ultimately show ?thesis by (cases "dv uid (redis w') = dv uid (redis w)") auto
  qed
  ultimately show ?thesis using s(1,2) unfolding current_def later_def by blast
qed

end

lemma list_key_eq:
  "spots_list_key sha params v = spots_list_key sha params' v'
     \<longleftrightarrow> v = v' \<and> sha (raw_params params) = sha (raw_params params')"
  by (auto simp: spots_list_key_def append_sep_inject str_of_int_no_colon dest: str_of_int_inj)

lemma list_key_not_detail: "spots_list_key sha params v \<noteq> spot_detail_key_at uid v'"
  by (simp add: spots_list_key_def spot_detail_key_at_def)

context redis_server
begin

lemma set_cached_value:
  "value_of k' (set_cached (Some client) k json ttl r) = (if k' = k then Some json else value_of k' r)"
  by (simp add: set_cached_def set_value)

lemma set_cached_versions:
  assumes "versions_ok r" and "is_entry k"
  shows "versions_ok (set_cached (Some client) k json ttl r)"
    "lv (set_cached (Some client) k json ttl r) = lv r" "dv uid (set_cached (Some client) k json ttl r) = dv uid r"
  using assms is_entry_not(1,2) [OF assms(2)]
  by (auto simp: versions_ok_def set_cached_def set_value intro!: counting_set)

lemma current_store:
  assumes cur: "current env w" and key: "is_entry k"
    and list: "\<And>params v. k = spots_list_key (ee_sha env) params v \<Longrightarrow> v = lv (redis w) \<and> list_current env params json w"
    and detail: "\<And>uid v. k = spot_detail_key_at uid v \<Longrightarrow> v = dv uid (redis w) \<and> detail_current env uid json w"
  shows "current env (w\<lparr>redis := set_cached (Some client) k json ttl (redis w)\<rparr>)"
proof -
  let ?w = "w\<lparr>redis := set_cached (Some client) k json ttl (redis w)\<rparr>"
  have ok: "tables_ok w" "versions_ok (redis w)" using cur by (simp_all add: current_def)
  note versions = set_cached_versions [OF ok(2) key]
  have same: "list_same w ?w" "detail_same uid w ?w" for uid by (simp_all add: same_tables)
  have "v \<le> lv (redis w) \<and> (v = lv (redis w) \<longrightarrow> list_current env params json' ?w)"
    if "value_of (spots_list_key (ee_sha env) params v) (redis ?w) = Some json'" for params v json'
  proof (cases "spots_list_key (ee_sha env) params v = k")
    case True
    then show ?thesis
      using list [of params v] that list_current_same [OF _ same(1)] by (auto simp: set_cached_value)
  next
    case False
    then have "value_of (spots_list_key (ee_sha env) params v) (redis w) = Some json'"
      using that by (simp add: set_cached_value)
    then have "v \<le> lv (redis w) \<and> (v = lv (redis w) \<longrightarrow> list_current env params json' w)"
      using cur unfolding current_def by blast
    then show ?thesis using list_current_same [OF _ same(1)] by blast
  qed
  moreover have "v \<le> dv uid (redis w) \<and> (v = dv uid (redis w) \<longrightarrow> detail_current env uid json' ?w)"
    if "value_of (spot_detail_key_at uid v) (redis ?w) = Some json'" for uid v json'
  proof (cases "spot_detail_key_at uid v = k")
    case True
    then show ?thesis
      using detail [of uid v] that detail_current_same [OF _ same(2)] by (auto simp: set_cached_value)
  next
    case False
    then have "value_of (spot_detail_key_at uid v) (redis w) = Some json'"
      using that by (simp add: set_cached_value)
    then have "v \<le> dv uid (redis w) \<and> (v = dv uid (redis w) \<longrightarrow> detail_current env uid json' w)"
      using cur unfolding current_def by blast
    then show ?thesis using detail_current_same [OF _ same(2)] by blast
  qed
  ultimately show ?thesis
    using versions tables_ok_same [OF ok(1), of ?w] unfolding current_def by simp
qed

text \<open>What the two kinds of keys make of a request.\<close>

lemma serve_list:
  fixes ttl :: nat
  assumes cur: "current env w" and query: "explore_query env params answer"
  defines "result \<equiv> serve_cached (Some client) (make_spots_list_key (ee_sha env) (Some client) params (redis w)) ttl (answer w) w"
  shows "current env (snd result)"
    and "fst result = Inr json \<Longrightarrow> list_current env params json w"
proof -
  let ?k = "spots_list_key (ee_sha env) params (lv (redis w))"
  have k: "make_spots_list_key (ee_sha env) (Some client) params (redis w) = ?k"
    by (simp add: make_spots_list_key_def spots_version_value)
  have fresh: "list_current env params' json w"
    if "answer w = Inr json" "ee_sha env (raw_params params) = ee_sha env (raw_params params')" for json params'
    unfolding list_current_def using query that list_same_refl by metis
  have stored: "list_current env params json w" if "value_of ?k (redis w) = Some json" for json
    using cur that unfolding current_def by blast
  show "current env (snd result)"
  proof (cases "value_of ?k (redis w)")
    case None
    have "current env (w\<lparr>redis := set_cached (Some client) ?k json ttl (redis w)\<rparr>)" if "answer w = Inr json" for json
      by (rule current_store [OF cur is_entry_keys(1)])
        (use fresh [OF that] list_key_not_detail in \<open>auto simp: list_key_eq\<close>)
    then show ?thesis
      using cur None unfolding result_def k by (cases "answer w") (simp_all add: serve_cached_def)
  qed (use cur in \<open>simp add: result_def serve_cached_def k\<close>)
  show "fst result = Inr json \<Longrightarrow> list_current env params json w"
    using stored fresh unfolding result_def k serve_cached_def
    by (cases "answer w") (auto simp: ret_def split: option.splits)
qed

lemma serve_detail:
  assumes cur: "current env w" and client: "ee_client env = Some client"
  shows "current env (snd (get_spot env uid w))"
    and "fst (get_spot env uid w) = Inr json \<Longrightarrow> detail_current env uid json w"
    and "fst (get_spot env uid w) = Inl e \<Longrightarrow> detail_answer env uid w = Inl e"
proof -
  let ?k = "spot_detail_key_at uid (dv uid (redis w))"
  have k: "spot_detail_key (Some client) uid (redis w) = ?k"
    by (simp add: spot_detail_key_def detail_version_value)
  have fresh: "detail_current env uid json w" if "detail_answer env uid w = Inr json" for json
    unfolding detail_current_def using that detail_same_refl by metis
  have stored: "detail_current env uid json w" if "value_of ?k (redis w) = Some json" for json
    using cur that unfolding current_def by blast
  show "current env (snd (get_spot env uid w))"
  proof (cases "value_of ?k (redis w)")
    case None
    have "current env (w\<lparr>redis := set_cached (Some client) ?k json ttl (redis w)\<rparr>)"
      if "detail_answer env uid w = Inr json" for json ttl
      by (rule current_store [OF cur is_entry_keys(2)])
        (use fresh [OF that] list_key_not_detail [symmetric] in \<open>auto simp: detail_key_at_inj\<close>)
    then show ?thesis
      using cur None by (cases "detail_answer env uid w") (simp_all add: get_spot_def serve_cached_def client k)
  qed (use cur in \<open>simp add: get_spot_def serve_cached_def client k\<close>)
  show "fst (get_spot env uid w) = Inr json \<Longrightarrow> detail_current env uid json w"
    using stored fresh unfolding get_spot_def serve_cached_def client k
    by (cases "detail_answer env uid w") (auto simp: ret_def split: option.splits)
  show "fst (get_spot env uid w) = Inl e \<Longrightarrow> detail_answer env uid w = Inl e"
    unfolding get_spot_def serve_cached_def client k
    by (cases "detail_answer env uid w") (auto simp: ret_def split: option.splits)
qed

end

context redis_server
begin

lemma limited_run:
  fixes scope :: string and n secs :: nat and visitor :: "user option res" and host :: "string option"
  assumes cur: "current env w"
  defines "w1 \<equiv> snd (rate_limited (Some client) scope n secs visitor host w)"
  shows "current env w1" and "list_same w1 w"
proof -
  show "current env w1" unfolding w1_def by (rule current_sound [OF cur sound_limited])
  obtain r where "w1 = w\<lparr>redis := r\<rparr>" 
    unfolding w1_def by (rule exE [OF rate_limited_redis])
  then show "list_same w1 w" by (simp add: same_tables)
qed

text \<open>A request of the list keys: the limit, the checks of the query, then the cache.\<close>

lemma limited_serve:
  fixes scope :: string and n secs ttl :: nat and visitor :: "user option res" and host :: "string option"
    and bad :: bool
  assumes cur: "current env w"
    and query: "\<And>box. query_box env bbox = Inr box \<Longrightarrow> explore_query env params (answer box)"
  defines "result \<equiv> bindR (rate_limited (Some client) scope n secs visitor host w) (\<lambda>_ w.
       if bad then raise RequestValidationError w
       else check (query_box env bbox) w (\<lambda>box.
         serve_cached (Some client) (make_spots_list_key (ee_sha env) (Some client) params (redis w)) ttl
           (answer box w) w))"
  shows "current env (snd result)" and "fst result = Inr json \<Longrightarrow> list_current env params json w"
proof -
  let ?l = "rate_limited (Some client) scope n secs visitor host w"
  note run = limited_run [OF cur, of scope n secs visitor host]
  show "current env (snd result)"
    unfolding result_def
    by (rule bindR_state [where P = "current env"])
      (auto intro!: run check_state [where P = "current env"] serve_list query)
  assume inr: "fst result = Inr json"
  then obtain x where x: "fst ?l = Inr x" by (cases "fst ?l") (auto simp: result_def bindR_def)
  from inr x have ok: "\<not> bad" by (auto simp: result_def bindR_def raise_def)
  with inr x obtain box where box: "query_box env bbox = Inr box"
    by (cases "query_box env bbox") (auto simp: result_def bindR_def)
  have "fst (serve_cached (Some client) (make_spots_list_key (ee_sha env) (Some client) params (redis (snd ?l))) ttl
      (answer box (snd ?l)) (snd ?l)) = Inr json"
    using inr x ok box by (simp add: result_def bindR_def)
  then have "list_current env params json (snd ?l)" by (rule serve_list(2) [OF run(1) query [OF box]])
  then show "list_current env params json w" using run(2) by (rule list_current_same)
qed

lemma list_request_current:
  assumes "current env w" and client: "ee_client env = Some client"
  shows "current env (snd (list_spots_endpoint env visitor host q category region_province bbox cursor limit w))"
    and "fst (list_spots_endpoint env visitor host q category region_province bbox cursor limit w) = Inr json \<Longrightarrow>
      list_current env (list_spots_params q category region_province bbox cursor (nat limit)) json w"
  unfolding list_spots_endpoint_def client
  by (rule limited_serve [OF assms(1)], erule explore_query.listing)
    (rule limited_serve [OF assms(1)], erule explore_query.listing)

lemma map_request_current:
  assumes "current env w" and client: "ee_client env = Some client"
  shows "current env (snd (list_spots_for_map env visitor host q category region_province bbox limit w))"
    and "fst (list_spots_for_map env visitor host q category region_province bbox limit w) = Inr json \<Longrightarrow>
      list_current env (map_params q category region_province bbox (nat limit)) json w"
  unfolding list_spots_for_map_def client
  by (rule limited_serve [OF assms(1)], erule explore_query.pins)
    (rule limited_serve [OF assms(1)], erule explore_query.pins)

lemma current_step:
  assumes cur: "current env w" and step: "explore_step env decays w w'" and client: "ee_client env = Some client"
  shows "current env w'"
  using step
proof (cases rule: explore_step.cases)
  case list_request
  then show ?thesis using list_request_current(1) [OF cur client] by simp
next
  case map_request
  then show ?thesis using map_request_current(1) [OF cur client] by simp
next
  case detail_request
  then show ?thesis using serve_detail(1) [OF cur client] by simp
next
  case (time r)
  then have "sound w w'"
    using later_decays by (auto intro: sound_redis)
  then show ?thesis by (rule current_sound [OF cur])
qed (auto simp: client intro: current_sound [OF cur] sound_console sound_reviews sound_register
    sound_update_image sound_delete_image sound_bulk sound_decay sound_limited sound_same)

end

text \<open>Every Redis server keeps the cache current under the requests of the program.\<close>

sublocale redis_server \<subseteq> explore: step_system "\<lambda>w. explore_start w"
    "explore_step (env\<lparr>ee_client := Some client\<rparr>) decays" "current (env\<lparr>ee_client := Some client\<rparr>)"
  for env :: "('r, 'b) explore_env"
  by unfold_locales (auto intro: current_start current_step)

lemma detail_answer_hidden:
  assumes "\<And>s. s \<in> set (rows_of uid w) \<Longrightarrow> s_pipeline_status s \<noteq> PUBLISHED \<or> s_deleted_at s \<noteq> None"
  shows "detail_answer env uid w = Inl (app_error SPOT_NOT_FOUND)"
proof -
  obtain shown where shown: "apply_explore_filters (ee_settings env) None None None None = Inr shown"
    by (auto simp: apply_explore_filters_def region_condition_def truthy_def)
  then have "shown s \<Longrightarrow> s_pipeline_status s = PUBLISHED \<and> s_deleted_at s = None" for s
    by (auto simp: apply_explore_filters_def region_condition_def truthy_def)
  then have "filter (\<lambda>s. s_uid s = uid \<and> shown s) (spots w) = []"
    using assms unfolding filter_empty_conv rows_of_def by fastforce
  then show ?thesis
    by (simp add: detail_answer_def get_spot_by_uid_def shown scalar_one_or_none_def)
qed

lemma rows_of_same:
  assumes "detail_same uid w w'" and "s' \<in> set (rows_of uid w')"
  obtains s where "s \<in> set (rows_of uid w)" "detail_shown s = detail_shown s'"
proof -
  have "detail_shown s' \<in> set (map detail_shown (rows_of uid w))"
    using assms by (simp add: detail_same_def flip: assms(1) [unfolded detail_same_def, THEN conjunct1])
  then show ?thesis using that by auto
qed

lemma detail_shown_status:
  "detail_shown s = detail_shown s' \<Longrightarrow> s_pipeline_status s = s_pipeline_status s' \<and> s_deleted_at s = s_deleted_at s'"
proof -
  assume "detail_shown s = detail_shown s'"
  then have "s_pipeline_status (detail_shown s) = s_pipeline_status (detail_shown s')"
      "s_deleted_at (detail_shown s) = s_deleted_at (detail_shown s')" by simp_all
  then show ?thesis by (simp add: detail_shown_def)
qed

context redis_server
begin

lemma answers_current:
  assumes client: "ee_client env = Some client" and start: "explore_start w0"
    and run: "(explore_step env decays)\<^sup>*\<^sup>* w0 w"
  shows "(\<forall>json. fst (list_spots_endpoint env visitor host q category region bbox cursor limit w) = Inr json \<longrightarrow>
       (\<exists>params answer w'. explore_query env params answer
          \<and> ee_sha env (raw_params params)
              = ee_sha env (raw_params (list_spots_params q category region bbox cursor (nat limit)))
          \<and> list_same w w' \<and> answer w' = Inr json))
    \<and> (\<forall>json. fst (list_spots_for_map env visitor host q category region bbox limit w) = Inr json \<longrightarrow>
       (\<exists>params answer w'. explore_query env params answer
          \<and> ee_sha env (raw_params params)
              = ee_sha env (raw_params (map_params q category region bbox (nat limit)))
          \<and> list_same w w' \<and> answer w' = Inr json))
    \<and> (case fst (get_spot env uid w) of
         Inr json \<Rightarrow> \<exists>w'. detail_same uid w w' \<and> detail_answer env uid w' = Inr json
       | Inl e \<Rightarrow> detail_answer env uid w = Inl e)
    \<and> ((\<forall>s \<in> set (spots w). s_uid s = uid \<longrightarrow> s_pipeline_status s \<noteq> PUBLISHED \<or> s_deleted_at s \<noteq> None)
         \<longrightarrow> fst (get_spot env uid w) = Inl (app_error SPOT_NOT_FOUND))"
proof -
  have "env\<lparr>ee_client := Some client\<rparr> = env" using client by (cases env) simp
  then have cur: "current env w"
    using explore.inv_reachable [of w0 env w] start run by simp
  have detail: "case fst (get_spot env uid w) of
         Inr json \<Rightarrow> \<exists>w'. detail_same uid w w' \<and> detail_answer env uid w' = Inr json
       | Inl e \<Rightarrow> detail_answer env uid w = Inl e"
    using serve_detail(2,3) [OF cur client, of uid] by (auto simp: detail_current_def split: sum.split)
  have "fst (get_spot env uid w) = Inl (app_error SPOT_NOT_FOUND)"
    if hidden: "\<forall>s \<in> set (spots w). s_uid s = uid \<longrightarrow> s_pipeline_status s \<noteq> PUBLISHED \<or> s_deleted_at s \<noteq> None"
  proof -
    have "detail_answer env uid w' = Inl (app_error SPOT_NOT_FOUND)" if same: "detail_same uid w w'" for w'
    proof (rule detail_answer_hidden)
      fix s'
      assume "s' \<in> set (rows_of uid w')"
      then obtain s where "s \<in> set (rows_of uid w)" "detail_shown s = detail_shown s'"
        by (rule rows_of_same [OF same])
      then have "s \<in> set (spots w)" "s_uid s = uid"
          "s_pipeline_status s = s_pipeline_status s' \<and> s_deleted_at s = s_deleted_at s'"
        using detail_shown_status [of s s'] by (simp_all add: rows_of_def)
      then show "s_pipeline_status s' \<noteq> PUBLISHED \<or> s_deleted_at s' \<noteq> None"
        using hidden by metis
    qed
    from this detail this [OF detail_same_refl] show ?thesis by (auto split: sum.splits)
  qed
  note hidden = this
  show ?thesis
    by (intro conjI allI impI, erule list_request_current(2) [OF cur client, unfolded list_current_def],
      erule map_request_current(2) [OF cur client, unfolded list_current_def], rule detail, rule hidden)
qed

end

section \<open>Properties\<close>


text \<open>A cached detail, and the deletion of its spot.\<close>

definition sample_explore :: "(mem, unit) explore_env" where
  "sample_explore =
     \<lparr>ee_client = Some mem_client,
      ee_s3 = \<lparr>s3_presign_put = (\<lambda>_ _ _ _. []), s3_presign_get = (\<lambda>_ key _ _. key), s3_head = (\<lambda>_ _ _. Inr 0),
        s3_delete = (\<lambda>_ _ b. (Inr (), b)), s3_copy = (\<lambda>_ _ _ b. (Inr (), b)), s3_upload = (\<lambda>_ _ _ b. (Inr (), b))\<rparr>,
      ee_settings = sample_settings,
      ee_fts = flat_fts, ee_codec = some_codec, ee_fmt6 = (\<lambda>_. []), ee_py_float = (\<lambda>_. None), ee_sha = id,
      ee_dump_list = (\<lambda>_. ''list''), ee_dump_map = (\<lambda>_. ''map''), ee_dump_detail = sd_title\<rparr>"

definition shown_world :: "mem world" where
  "shown_world = (empty_world (\<lambda>_. None))\<lparr>spots := [sample_spot ''a'']\<rparr>"

lemma shown_world_start: "mem.explore_start shown_world"
  by (simp add: mem.explore_start_def mem.versions_ok_def shown_world_def empty_world_def tables_ok_def
      catalog_ok_def unique_key_def keyed_def)


end
