(* ===== verification/Catalog.thy ===== *)
theory Catalog
  imports Explore
begin

text \<open>
  The catalog the console keeps beside the spots: the allowed codes of their array columns
  (\<open>crud/spot_field_option.py\<close>, \<open>endpoints/internal_spot_options.py\<close>) and their business
  information (\<open>crud/spot_business_info.py\<close>, \<open>endpoints/internal_spot_business_info.py\<close>).
\<close>

section \<open>Options\<close>

definition list_field_options :: "spot_option_field \<Rightarrow> 'r world \<Rightarrow> field_option list" where
  "list_field_options field w = sort_key fo_code (filter (\<lambda>p. fo_field p = field) (field_options w))"

text \<open>The CHECK constraint \<open>code ~ '^[A-Z][A-Z0-9_]*$'\<close>.\<close>

definition is_digit_ascii :: "char \<Rightarrow> bool" where
  "is_digit_ascii c \<longleftrightarrow> 48 \<le> (of_char c :: nat) \<and> (of_char c :: nat) \<le> 57"

definition code_format :: "string \<Rightarrow> bool" where
  "code_format code =
     (case code of [] \<Rightarrow> False
      | c # cs \<Rightarrow> is_upper_ascii c
          \<and> list_all (\<lambda>x. is_upper_ascii x \<or> is_digit_ascii x \<or> x = CHR ''_'') cs)"

text \<open>
  A value longer than its column is refused before the constraints are looked at, with an
  exception that is no \<open>IntegrityError\<close>.
\<close>

definition create_field_option ::
    "instant \<Rightarrow> spot_option_field \<Rightarrow> string \<Rightarrow> string \<Rightarrow> 'r world \<Rightarrow> field_option res \<times> 'r world" where
  "create_field_option now field code label_ko w =
     (if str_len code > 50 \<or> str_len label_ko > 100 then raise data_error w
      else let option_row = \<lparr>fo_field = field, fo_code = code, fo_label_ko = label_ko, fo_created_at = Some now\<rparr>
           in if \<not> code_format code then raise (app_error SPOT_OPTION_ALREADY_EXISTS) w
              else case insert_row option_key option_row (field_options w) of
                     None \<Rightarrow> raise (app_error SPOT_OPTION_ALREADY_EXISTS) w
                   | Some rows \<Rightarrow> ret option_row (w\<lparr>field_options := rows\<rparr>))"

text \<open>\<open>getattr(Spot, field.value)\<close>, read and written.\<close>

definition option_column :: "spot_option_field \<Rightarrow> spot \<Rightarrow> string list option" where
  "option_column field s = (case field of
       CATEGORY \<Rightarrow> s_category s | AMENITIES \<Rightarrow> s_amenities s
     | NEARBY_FACILITIES \<Rightarrow> s_nearby_facilities s | HAS_EQUIPMENT_RENTAL \<Rightarrow> s_has_equipment_rental s)"

definition set_option_column :: "spot_option_field \<Rightarrow> string list option \<Rightarrow> spot \<Rightarrow> spot" where
  "set_option_column field v s = (case field of
       CATEGORY \<Rightarrow> s\<lparr>s_category := v\<rparr> | AMENITIES \<Rightarrow> s\<lparr>s_amenities := v\<rparr>
     | NEARBY_FACILITIES \<Rightarrow> s\<lparr>s_nearby_facilities := v\<rparr> | HAS_EQUIPMENT_RENTAL \<Rightarrow> s\<lparr>s_has_equipment_rental := v\<rparr>)"

definition has_code :: "spot_option_field \<Rightarrow> string \<Rightarrow> spot \<Rightarrow> bool" where
  "has_code field code s = (case option_column field s of None \<Rightarrow> False | Some xs \<Rightarrow> code \<in> set xs)"

definition delete_field_option ::
    "instant \<Rightarrow> spot_option_field \<Rightarrow> string \<Rightarrow> 'r world \<Rightarrow> bool \<times> 'r world" where
  "delete_field_option now field code w =
     (if get_by_key option_key (field, code) (field_options w) = None then (False, w)
      else let w' = update_spots now (has_code field code)
                 (\<lambda>s. set_option_column field (map_option (removeAll code) (option_column field s)) s) w
           in (True, w'\<lparr>field_options := delete_where (\<lambda>p. option_key p = (field, code)) (field_options w')\<rparr>))"

definition list_spot_options :: "user res \<Rightarrow> spot_option_field \<Rightarrow> 'r world \<Rightarrow> field_option list res" where
  "list_spot_options caller field w = bindE (as_staff caller) (\<lambda>_. Inr (list_field_options field w))"

definition create_spot_option ::
    "instant \<Rightarrow> user res \<Rightarrow> spot_option_field \<Rightarrow> string \<Rightarrow> string \<Rightarrow> 'r world \<Rightarrow> field_option res \<times> 'r world" where
  "create_spot_option now caller field code label_ko w =
     check (as_role MANAGER caller) w (\<lambda>_. create_field_option now field code label_ko w)"

definition delete_spot_option ::
    "instant \<Rightarrow> user res \<Rightarrow> spot_option_field \<Rightarrow> string \<Rightarrow> 'r world \<Rightarrow> unit res \<times> 'r world" where
  "delete_spot_option now caller field code w =
     check (as_role MANAGER caller) w (\<lambda>_.
       case delete_field_option now field code w of
         (deleted, w') \<Rightarrow> if \<not> deleted then raise (app_error SPOT_OPTION_NOT_FOUND) w' else ret () w')"

section \<open>Business information\<close>

definition info_column :: "string \<Rightarrow> (business_info \<Rightarrow> sort_value) option" where
  "info_column field = map_of
     [(''uid'', \<lambda>b. sort_text (Some (bi_uid b))),
      (''spot_uid'', \<lambda>b. sort_text (Some (bi_spot_uid b))),
      (''business_type'', \<lambda>b. sort_text (bi_business_type b)),
      (''operating_status'', \<lambda>b. sort_text (bi_operating_status b)),
      (''created_at'', \<lambda>b. sort_number (map_option of_int (bi_created_at b))),
      (''updated_at'', \<lambda>b. sort_number (map_option of_int (bi_updated_at b)))] field"

definition get_business_info_by_uid :: "uid \<Rightarrow> 'r world \<Rightarrow> business_info option res" where
  "get_business_info_by_uid uid w =
     scalar_one_or_none multiple_results (filter (\<lambda>b. bi_uid b = uid) (business_infos w))"

definition list_business_info_admin ::
    "nat \<Rightarrow> nat \<Rightarrow> string \<Rightarrow> string \<Rightarrow> string option \<Rightarrow> 'r world \<Rightarrow> (business_info \<times> string) list \<times> nat" where
  "list_business_info_admin offset limit sort_field direction spot_uid w =
     (let found = [(b, s_title s). b \<leftarrow> business_infos w, s \<leftarrow> spots w,
            s_uid s = bi_spot_uid b \<and> (truthy spot_uid \<longrightarrow> Some (bi_spot_uid b) = spot_uid)];
          column = (case info_column sort_field of None \<Rightarrow> (\<lambda>b. sort_text (Some (bi_uid b))) | Some c \<Rightarrow> c)
      in (offset_limit offset limit (order_rows (\<lambda>(b, _). column b) direction found), length found))"

datatype info_attr =
    Set_business_reg_no "string option"
  | Set_tourism_business_reg_no "string option"
  | Set_business_type "string option"
  | Set_operation_type "string option"
  | Set_operating_agency "string option"
  | Set_operating_status "string option"
  | Set_national_park_no "int option"
  | Set_national_park_office_code "string option"
  | Set_national_park_serial_no "string option"
  | Set_national_park_category_code "string option"
  | Set_licensed_at "int option"

fun set_info_attr :: "info_attr \<Rightarrow> business_info \<Rightarrow> business_info option" where
  "set_info_attr (Set_business_reg_no v) b = Some (b\<lparr>bi_business_reg_no := v\<rparr>)"
| "set_info_attr (Set_tourism_business_reg_no v) b = Some (b\<lparr>bi_tourism_business_reg_no := v\<rparr>)"
| "set_info_attr (Set_business_type v) b = Some (b\<lparr>bi_business_type := v\<rparr>)"
| "set_info_attr (Set_operation_type v) b = Some (b\<lparr>bi_operation_type := v\<rparr>)"
| "set_info_attr (Set_operating_agency v) b = Some (b\<lparr>bi_operating_agency := v\<rparr>)"
| "set_info_attr (Set_operating_status v) b = Some (b\<lparr>bi_operating_status := v\<rparr>)"
| "set_info_attr (Set_national_park_no v) b =
     (if int4 v then Some (b\<lparr>bi_national_park_no := v\<rparr>) else None)"
| "set_info_attr (Set_national_park_office_code v) b = Some (b\<lparr>bi_national_park_office_code := v\<rparr>)"
| "set_info_attr (Set_national_park_serial_no v) b = Some (b\<lparr>bi_national_park_serial_no := v\<rparr>)"
| "set_info_attr (Set_national_park_category_code v) b = Some (b\<lparr>bi_national_park_category_code := v\<rparr>)"
| "set_info_attr (Set_licensed_at v) b = Some (b\<lparr>bi_licensed_at := v\<rparr>)"

fun set_info_attrs :: "info_attr list \<Rightarrow> business_info \<Rightarrow> business_info option" where
  "set_info_attrs [] b = Some b"
| "set_info_attrs (a # as) b =
     (case set_info_attr a b of None \<Rightarrow> None | Some b' \<Rightarrow> set_info_attrs as b')"

definition update_business_info ::
    "instant \<Rightarrow> uid \<Rightarrow> info_attr list \<Rightarrow> 'r world \<Rightarrow> business_info option res \<times> 'r world" where
  "update_business_info now uid data w =
     check (get_business_info_by_uid uid w) w (\<lambda>found.
       case found of
         None \<Rightarrow> ret None w
       | Some b \<Rightarrow>
           (case set_info_attrs data b of
              None \<Rightarrow> raise data_error w
            | Some changed \<Rightarrow>
                let saved = (if changed = b then b else changed\<lparr>bi_updated_at := Some now\<rparr>)
                in ret (Some saved)
                     (w\<lparr>business_infos := update_where (\<lambda>x. bi_uid x = uid) (\<lambda>_. saved) (business_infos w)\<rparr>)))"

record business_info_list_item =
  bl_uid :: uid
  bl_spot_uid :: uid
  bl_spot_title :: string
  bl_business_type :: "string option"
  bl_operating_status :: "string option"
  bl_updated_at :: "instant option"

definition business_info_list_item_of :: "business_info \<times> string \<Rightarrow> business_info_list_item" where
  "business_info_list_item_of p = (case p of (b, title) \<Rightarrow>
     \<lparr>bl_uid = bi_uid b, bl_spot_uid = bi_spot_uid b, bl_spot_title = title,
      bl_business_type = bi_business_type b, bl_operating_status = bi_operating_status b,
      bl_updated_at = bi_updated_at b\<rparr>)"

definition list_business_info ::
    "user res \<Rightarrow> int \<Rightarrow> int \<Rightarrow> string \<Rightarrow> string \<Rightarrow> string option \<Rightarrow> 'r world
       \<Rightarrow> (business_info_list_item list \<times> nat) res" where
  "list_business_info caller start to sort_field direction spot_uid w =
     bindE (as_staff caller) (\<lambda>_.
       if start < 0 \<or> to < 0 then Inl RequestValidationError
       else if info_column sort_field = None then Inl (app_error VALIDATION_ERROR)
       else case list_business_info_admin (nat start) (nat (max (to - start) 0)) sort_field
                   (str_lower direction) spot_uid w of
              (items, n) \<Rightarrow> Inr (map business_info_list_item_of items, n))"

text \<open>The detail shows every column of the row.\<close>

definition get_business_info :: "user res \<Rightarrow> uid \<Rightarrow> 'r world \<Rightarrow> business_info res" where
  "get_business_info caller uid w =
     bindE (as_staff caller) (\<lambda>_.
     bindE (get_business_info_by_uid uid w) (\<lambda>found.
       case found of None \<Rightarrow> Inl (app_error SPOT_BUSINESS_INFO_NOT_FOUND) | Some b \<Rightarrow> Inr b))"

definition update_business_info_endpoint ::
    "instant \<Rightarrow> user res \<Rightarrow> uid \<Rightarrow> info_attr list \<Rightarrow> 'r world \<Rightarrow> business_info res \<times> 'r world" where
  "update_business_info_endpoint now caller uid data w =
     check (as_staff caller) w (\<lambda>_.
     bindR (update_business_info now uid data w) (\<lambda>found w'.
       case found of
         None \<Rightarrow> raise (app_error SPOT_BUSINESS_INFO_NOT_FOUND) w'
       | Some b \<Rightarrow> ret b w'))"

section \<open>What a deletion leaves\<close>

lemma set_option_column_sel [simp]:
  "s_uid (set_option_column field v s) = s_uid s"
  "option_column f (set_option_column field v s) = (if f = field then v else option_column f s)"
  "option_column f (s\<lparr>s_updated_at := t\<rparr>) = option_column f s"
  by (cases field; cases f; simp add: set_option_column_def option_column_def)+

definition without :: "string \<Rightarrow> string list option \<Rightarrow> string list option" where
  "without code v = map_option (removeAll code) v"

lemma without_absent: "\<not> has_code field code s \<Longrightarrow> without code (option_column field s) = option_column field s"
  by (auto simp: without_def has_code_def split: option.splits)

lemma delete_option_rows:
  "list_all2 (\<lambda>s s'. s_uid s' = s_uid s
       \<and> (\<forall>f. option_column f s' = (if f = field then without code (option_column f s) else option_column f s)))
     rows (update_where (has_code field code)
       (\<lambda>s. (set_option_column field (map_option (removeAll code) (option_column field s)) s)\<lparr>s_updated_at := t\<rparr>) rows)"
  by (induction rows) (auto simp: without_absent simp flip: without_def)

section \<open>Properties\<close>


definition cafe :: spot where
  "cafe = (sample_spot ''a'')\<lparr>s_category := Some [''CAFE'']\<rparr>"

lemma cafe_sel [simp]:
  "s_uid cafe = ''a''" "s_pipeline_status cafe = PUBLISHED" "s_deleted_at cafe = None"
  "s_category cafe = Some [''CAFE'']"
  by (simp_all add: cafe_def)

definition cafe_world :: "mem world" where
  "cafe_world = (empty_world (\<lambda>_. None))\<lparr>spots := [cafe], field_options :=
     [\<lparr>fo_field = CATEGORY, fo_code = ''CAFE'', fo_label_ko = ''cafe'', fo_created_at = None\<rparr>]\<rparr>"

lemma cafe_deletion:
  "delete_spot_option 5 (Inr (sample_user ''boss'')) CATEGORY ''CAFE'' (cafe_world\<lparr>redis := r\<rparr>)
     = (Inr (), cafe_world\<lparr>redis := r, spots := [cafe\<lparr>s_category := Some [], s_updated_at := Some 5\<rparr>], field_options := []\<rparr>)"
  by (simp add: as_role_def require_role_def require_staff_def sample_user_def delete_spot_option_def
      delete_field_option_def Let_def update_spots_def cafe_world_def empty_world_def option_key_def
      has_code_def option_column_def set_option_column_def ret_def)


text \<open>The cache of explore does not notice: a detail stored before the deletion still shows the code.\<close>

lemma option_deletion_stale:
  defines "env \<equiv> sample_explore\<lparr>ee_dump_detail := (\<lambda>d. concat (the (sd_category d)))\<rparr>"
  defines "w \<equiv> cafe_world"
  defines "w' \<equiv> snd (delete_spot_option 5 (Inr (sample_user ''boss'')) CATEGORY ''CAFE'' (snd (get_spot env ''a'' w)))"
  shows "fst (get_spot env ''a'' w') = Inr ''CAFE''" and "detail_answer env ''a'' w' = Inr ''''"
proof -
  let ?k = "spot_detail_key_at ''a'' 0"
  have key: "spot_detail_key (Some mem_client) ''a'' r = ?k" if "r (spot_detail_version_key ''a'') = None" for r
    using that by (simp add: spot_detail_key_def mem.detail_version_value version_of_value_def truthy_def)
  have set_mem: "rc_set mem_client k v ttl m = (Inr (), m(k \<mapsto> (v, True)))" for k v ttl m
    by (simp add: mem_client_def)
  let ?r = "(\<lambda>_. None)(?k \<mapsto> (''CAFE'', True)) :: mem"
  have env: "ee_client env = Some mem_client" "ee_settings env = sample_settings"
      "ee_dump_detail env = (\<lambda>d. concat (the (sd_category d)))"
    by (simp_all add: env_def sample_explore_def)
  have shown: "detail_answer env ''a'' v = Inr (concat cs)"
    if "spots v = [s]" "s_uid s = ''a''" "s_pipeline_status s = PUBLISHED" "s_deleted_at s = None"
      "s_category s = Some cs" "spot_images v = []" for v :: "mem world" and s cs
    using that by (simp add: detail_answer_def env get_spot_by_uid_def no_filters_condition scalar_one_or_none_def
        resolve_thumbnail_url_def get_thumbnails_by_spots_def spot_detail_of_def)
  have first: "snd (get_spot env ''a'' w) = w\<lparr>redis := ?r\<rparr>"
  proof -
    have "detail_answer env ''a'' w = Inr (concat [''CAFE''])"
      by (rule shown [where s = cafe]) (simp_all add: w_def cafe_world_def empty_world_def)
    moreover have "redis w = (\<lambda>_. None)" by (simp add: w_def cafe_world_def empty_world_def)
    ultimately show ?thesis
      by (simp add: get_spot_def env key serve_cached_def set_cached_def set_mem)
  qed
  have gone: "spots w' = [cafe\<lparr>s_category := Some [], s_updated_at := Some 5\<rparr>]" "spot_images w' = []" "redis w' = ?r"
    unfolding w'_def first unfolding w_def cafe_deletion by (simp_all add: cafe_world_def empty_world_def)
  have "?r (spot_detail_version_key ''a'') = None"
    by (simp add: detail_key_not_version [symmetric])
  then show "fst (get_spot env ''a'' w') = Inr ''CAFE''"
    by (simp add: get_spot_def env gone(3) key serve_cached_def)
  show "detail_answer env ''a'' w' = Inr ''''"
    using shown [OF gone(1) _ _ _ _ gone(2), of "[]"] by simp
qed

end
