(* ===== verification/Audit_Log.thy ===== *)
theory Audit_Log
  imports Spot_Admin
begin

text \<open>
  The audit log of spots and of business information: the trigger of the migration
  \<open>b7f3a1c9d2e4_add_audit_log_triggers.py\<close> that writes it, \<open>crud/audit.py\<close> that reads it and
  the two history endpoints.

  A row as \<open>to_jsonb\<close> gives it is an association list; \<open>None\<close> is the JSON null, and what
  \<open>dict.get\<close> answers for a missing key.  The log is a list in the order of insertion, beside the
  tables of \<open>world\<close>: the program itself only reads it.
\<close>

type_synonym 'j json_row = "(string \<times> 'j option) list"

record 'j audit_log =
  al_id :: nat
  al_table_name :: string
  al_row_uid :: uid
  al_action :: string
  al_old_data :: "'j json_row option"
  al_new_data :: "'j json_row option"
  al_changed_by :: "uid option"
  al_changed_at :: instant

section \<open>The trigger\<close>

datatype trigger_op = Tg_INSERT | Tg_UPDATE | Tg_DELETE

definition tg_op_value :: "trigger_op \<Rightarrow> string" where
  "tg_op_value op = (case op of Tg_INSERT \<Rightarrow> ''INSERT'' | Tg_UPDATE \<Rightarrow> ''UPDATE'' | Tg_DELETE \<Rightarrow> ''DELETE'')"

text \<open>
  \<open>app_user\<close> is \<open>current_setting('app.user_id', true)\<close>, set by \<open>set_audit_user\<close>; \<open>now\<close> the
  time of the transaction.
\<close>

definition log_audit ::
    "nat \<Rightarrow> instant \<Rightarrow> uid option \<Rightarrow> string \<Rightarrow> uid \<Rightarrow> trigger_op \<Rightarrow> 'j json_row \<Rightarrow> 'j json_row \<Rightarrow> 'j audit_log" where
  "log_audit next_id now app_user table row_uid op old new =
     \<lparr>al_id = next_id, al_table_name = table, al_row_uid = row_uid, al_action = tg_op_value op,
      al_old_data = (if op \<noteq> Tg_INSERT then Some old else None),
      al_new_data = (if op \<noteq> Tg_DELETE then Some new else None),
      al_changed_by = app_user, al_changed_at = now\<rparr>"

section \<open>Reading\<close>

definition IGNORED_FIELDS :: "string list" where
  "IGNORED_FIELDS = [''updated_at'']"

record 'j field_change =
  fc_before :: "'j option"
  fc_after :: "'j option"

definition json_get :: "'j json_row \<Rightarrow> string \<Rightarrow> 'j option" where
  "json_get d k = (case map_of d k of None \<Rightarrow> None | Some v \<Rightarrow> v)"

definition compute_changes ::
    "'j json_row option \<Rightarrow> 'j json_row option \<Rightarrow> (string \<times> 'j field_change) list" where
  "compute_changes old new =
     (let old = (case old of None \<Rightarrow> [] | Some d \<Rightarrow> d); new = (case new of None \<Rightarrow> [] | Some d \<Rightarrow> d);
          keys = filter (\<lambda>k. k \<notin> set IGNORED_FIELDS) (remdups (map fst old @ map fst new))
      in map (\<lambda>k. (k, \<lparr>fc_before = json_get old k, fc_after = json_get new k\<rparr>))
           (filter (\<lambda>k. json_get old k \<noteq> json_get new k) keys))"

record 'j audit_log_entry =
  ae_changed_at :: instant
  ae_action :: string
  ae_changed_by :: "uid option"
  ae_changed_by_name :: "string option"
  ae_changes :: "(string \<times> 'j field_change) list"

text \<open>\<open>name or nickname\<close> of the outer join.\<close>

definition changed_by_name :: "uid option \<Rightarrow> 'r world \<Rightarrow> string option" where
  "changed_by_name changed_by w =
     (case changed_by of None \<Rightarrow> None
      | Some uid \<Rightarrow> (case get_by_key u_uid uid (users w) of
            None \<Rightarrow> None
          | Some u \<Rightarrow> if truthy (u_name u) then u_name u else Some (u_nickname u)))"

definition entry_of :: "'r world \<Rightarrow> 'j audit_log \<Rightarrow> 'j audit_log_entry" where
  "entry_of w l =
     \<lparr>ae_changed_at = al_changed_at l, ae_action = al_action l, ae_changed_by = al_changed_by l,
      ae_changed_by_name = changed_by_name (al_changed_by l) w,
      ae_changes = compute_changes (al_old_data l) (al_new_data l)\<rparr>"

definition get_history :: "'j audit_log list \<Rightarrow> string \<Rightarrow> uid \<Rightarrow> nat \<Rightarrow> 'r world \<Rightarrow> 'j audit_log_entry list" where
  "get_history trail table row_uid limit w =
     map (entry_of w)
       (take limit (rev (sort_key (\<lambda>l. (al_changed_at l, al_id l))
          (filter (\<lambda>l. al_table_name l = table \<and> al_row_uid l = row_uid) trail))))"

definition get_spot_history ::
    "'j audit_log list \<Rightarrow> user res \<Rightarrow> uid \<Rightarrow> 'r world \<Rightarrow> 'j audit_log_entry list res" where
  "get_spot_history trail caller uid w =
     bindE (as_staff caller) (\<lambda>_. Inr (get_history trail ''spots'' uid 100 w))"

definition get_spot_business_info_history ::
    "'j audit_log list \<Rightarrow> user res \<Rightarrow> uid \<Rightarrow> 'r world \<Rightarrow> 'j audit_log_entry list res" where
  "get_spot_business_info_history trail caller uid w =
     bindE (as_staff caller) (\<lambda>_. Inr (get_history trail ''spot_business_info'' uid 100 w))"

section \<open>Replay\<close>

text \<open>
  The states of one row, absent or present, as its writes change them, and the log the trigger
  makes of it between the writes of other rows: \<open>audited table row_uid i old trail new\<close>, where
  the next entry has the id \<open>i\<close>.  The transactions that write one row follow each other, so that
  their times do.
\<close>

fun trigger_op_of :: "'j json_row option \<Rightarrow> 'j json_row option \<Rightarrow> trigger_op option" where
  "trigger_op_of None None = None"
| "trigger_op_of None (Some _) = Some Tg_INSERT"
| "trigger_op_of (Some _) (Some _) = Some Tg_UPDATE"
| "trigger_op_of (Some _) None = Some Tg_DELETE"

definition row_or_empty :: "'j json_row option \<Rightarrow> 'j json_row" where
  "row_or_empty row = (case row of None \<Rightarrow> [] | Some d \<Rightarrow> d)"

definition is_about :: "string \<Rightarrow> uid \<Rightarrow> 'j audit_log \<Rightarrow> bool" where
  "is_about table row_uid l \<longleftrightarrow> al_table_name l = table \<and> al_row_uid l = row_uid"

inductive audited ::
    "string \<Rightarrow> uid \<Rightarrow> nat \<Rightarrow> 'j json_row option \<Rightarrow> 'j audit_log list \<Rightarrow> 'j json_row option \<Rightarrow> bool"
  for table row_uid
where
  nothing: "audited table row_uid i old [] old"
| written: "audited table row_uid (Suc i) mid trail new \<Longrightarrow> trigger_op_of old mid = Some op \<Longrightarrow>
     \<forall>l \<in> set trail. is_about table row_uid l \<longrightarrow> now \<le> al_changed_at l \<Longrightarrow>
     audited table row_uid i old
       (log_audit i now app_user table row_uid op (row_or_empty old) (row_or_empty mid) # trail) new"
| elsewhere: "audited table row_uid (Suc i) old trail new \<Longrightarrow> al_id l = i \<Longrightarrow> \<not> is_about table row_uid l \<Longrightarrow>
     audited table row_uid i old (l # trail) new"

text \<open>What a reader of the history makes of a row: the changes applied, oldest first.\<close>

definition apply_changes :: "(string \<times> 'j field_change) list \<Rightarrow> (string \<Rightarrow> 'j option) \<Rightarrow> string \<Rightarrow> 'j option" where
  "apply_changes changes row k = (case map_of changes k of None \<Rightarrow> row k | Some c \<Rightarrow> fc_after c)"

lemma map_of_changes:
  "map_of (compute_changes old new) k =
     (if k \<notin> set IGNORED_FIELDS \<and> json_get (row_or_empty old) k \<noteq> json_get (row_or_empty new) k
      then Some \<lparr>fc_before = json_get (row_or_empty old) k, fc_after = json_get (row_or_empty new) k\<rparr> else None)"
proof -
  have of_keys: "map_of (map (\<lambda>k. (k, f k)) ks) k = (if k \<in> set ks then Some (f k) else None)"
    for f :: "string \<Rightarrow> 'a field_change" and ks
    by (induction ks) auto
  have absent: "json_get d k = None" if "k \<notin> fst ` set d" for d :: "'a json_row"
    using that by (simp add: json_get_def map_of_eq_None_iff [THEN iffD2])
  show ?thesis
    using absent [of "row_or_empty old"] absent [of "row_or_empty new"]
    by (auto simp: compute_changes_def row_or_empty_def Let_def of_keys)
qed

lemma apply_changes_computed:
  "k \<notin> set IGNORED_FIELDS \<Longrightarrow> row k = json_get (row_or_empty old) k
     \<Longrightarrow> apply_changes (compute_changes old new) row k = json_get (row_or_empty new) k"
  by (auto simp: apply_changes_def map_of_changes)

lemma logged_data:
  assumes "trigger_op_of old new = Some op"
  shows "al_old_data (log_audit i now u table uid op (row_or_empty old) (row_or_empty new)) = old"
    and "al_new_data (log_audit i now u table uid op (row_or_empty old) (row_or_empty new)) = new"
  using assms by (cases old; cases new; auto simp: log_audit_def row_or_empty_def)+

lemma logged_row [simp]:
  "al_id (log_audit i now u table uid op old new) = i"
  "al_changed_at (log_audit i now u table uid op old new) = now"
  "is_about table uid (log_audit i now u table uid op old new)"
  by (simp_all add: log_audit_def is_about_def)

lemma audited_sorted:
  assumes "audited table row_uid i old trail new"
  shows "sorted (map (\<lambda>l. (al_changed_at l, al_id l)) (filter (is_about table row_uid) trail))
    \<and> (\<forall>l \<in> set trail. i \<le> al_id l)"
  using assms
proof induction
  case (written i mid trail new old op now app_user)
  then show ?case by (auto simp: less_eq_prod_def le_less)
qed auto

lemma audited_replay:
  assumes "audited table row_uid i old trail new" and "k \<notin> set IGNORED_FIELDS"
    and "row k = json_get (row_or_empty old) k"
  shows "fold (\<lambda>l. apply_changes (compute_changes (al_old_data l) (al_new_data l)))
     (filter (is_about table row_uid) trail) row k = json_get (row_or_empty new) k"
  using assms
proof (induction arbitrary: row)
  case (written i mid trail new old op now app_user)
  have "apply_changes (compute_changes old mid) row k = json_get (row_or_empty mid) k"
    using written.prems by (rule apply_changes_computed)
  with written.IH written.prems(1) show ?case by (simp add: logged_data [OF written.hyps(2)])
qed auto

section \<open>Property\<close>

text \<open>
  C31: The history of a row tells its life.  When the trigger has logged every write of a row, from
  its insertion or any later state on, among the writes of other rows, and at most \<open>limit\<close> of
  them are about the row, then the history lists them all, newest first, and its changes applied
  oldest first turn the first state of the row into the last one, in every column but
  \<open>updated_at\<close>: nothing is lost in a diff, also over insertion, deletion and null values.
\<close>

theorem history_replays:
  assumes "audited table row_uid i old trail new"
    and "length (filter (is_about table row_uid) trail) \<le> limit"
    and "k \<notin> set IGNORED_FIELDS"
  shows "fold (\<lambda>e. apply_changes (ae_changes e)) (rev (get_history trail table row_uid limit w))
       (json_get (row_or_empty old)) k = json_get (row_or_empty new) k
    \<and> get_history trail table row_uid limit w = rev (map (entry_of w) (filter (is_about table row_uid) trail))
    \<and> sorted_wrt (\<lambda>e e'. ae_changed_at e' \<le> ae_changed_at e) (get_history trail table row_uid limit w)"
proof -
  let ?own = "filter (is_about table row_uid) trail"
  have sorted: "sorted (map (\<lambda>l. (al_changed_at l, al_id l)) ?own)" using audited_sorted [OF assms(1)] ..
  then have "sort_key (\<lambda>l. (al_changed_at l, al_id l)) ?own = ?own" by (rule sort_key_id_if_sorted)
  moreover have "filter (\<lambda>l. al_table_name l = table \<and> al_row_uid l = row_uid) trail = ?own"
    by (simp add: is_about_def [abs_def])
  ultimately have history: "get_history trail table row_uid limit w = rev (map (entry_of w) ?own)"
    using assms(2) by (simp add: get_history_def rev_map)
  have "sorted_wrt (\<lambda>e e'. ae_changed_at e \<le> ae_changed_at e') (map (entry_of w) ?own)"
    using sorted by (simp add: sorted_wrt_map sorted_map entry_of_def less_eq_prod_def)
      (rule sorted_wrt_mono_rel, auto)
  moreover have "fold (\<lambda>e. apply_changes (ae_changes e)) (map (entry_of w) ?own) (json_get (row_or_empty old)) k
      = json_get (row_or_empty new) k"
    using audited_replay [where row = "json_get (row_or_empty old)", OF assms(1,3) refl] by (simp add: fold_map comp_def entry_of_def)
  ultimately show ?thesis unfolding history by (simp add: sorted_wrt_rev)
qed

text \<open>A row inserted, another row written, then the first one updated to a null.\<close>

definition sample_trail :: "int audit_log list" where
  "sample_trail =
     [log_audit 5 10 None ''spots'' ''a'' Tg_INSERT [] [(''title'', Some 1), (''updated_at'', Some 10)],
      log_audit 6 11 None ''spots'' ''b'' Tg_INSERT [] [],
      log_audit 7 12 (Some ''ann'') ''spots'' ''a'' Tg_UPDATE [(''title'', Some 1), (''updated_at'', Some 10)]
        [(''title'', None), (''updated_at'', Some 12)]]"

lemma sample_trail_audited:
  "audited ''spots'' ''a'' 5 None sample_trail (Some [(''title'', None), (''updated_at'', Some 12)])"
proof -
  let ?first = "Some [(''title'', Some 1), (''updated_at'', Some 10)] :: int json_row option"
  let ?last = "Some [(''title'', None), (''updated_at'', Some 12)] :: int json_row option"
  have "audited ''spots'' ''a'' 7 ?first [log_audit 7 12 (Some ''ann'') ''spots'' ''a'' Tg_UPDATE
      (row_or_empty ?first) (row_or_empty ?last)] ?last"
    by (rule audited.written [OF audited.nothing]) simp_all
  note third = this
  have "audited ''spots'' ''a'' 6 ?first (log_audit 6 11 None ''spots'' ''b'' Tg_INSERT [] []
      # [log_audit 7 12 (Some ''ann'') ''spots'' ''a'' Tg_UPDATE (row_or_empty ?first) (row_or_empty ?last)]) ?last"
    by (rule audited.elsewhere, use third in simp) (simp_all add: is_about_def log_audit_def)
  note second = this
  have "audited ''spots'' ''a'' 5 None (log_audit 5 10 None ''spots'' ''a'' Tg_INSERT (row_or_empty None)
      (row_or_empty ?first) # log_audit 6 11 None ''spots'' ''b'' Tg_INSERT [] []
      # [log_audit 7 12 (Some ''ann'') ''spots'' ''a'' Tg_UPDATE (row_or_empty ?first) (row_or_empty ?last)]) ?last"
    by (rule audited.written, use second in simp) (simp_all add: is_about_def log_audit_def)
  then show ?thesis by (simp add: sample_trail_def row_or_empty_def)
qed

lemma history_replays_witness:
  "fold (\<lambda>e. apply_changes (ae_changes e)) (rev (get_history sample_trail ''spots'' ''a'' 100 (empty_world ())))
     (json_get []) ''title'' = None
   \<and> length (get_history sample_trail ''spots'' ''a'' 100 (empty_world ())) = 2"
proof -
  have two: "length (filter (is_about ''spots'' ''a'') sample_trail) = 2"
    by (simp add: sample_trail_def is_about_def log_audit_def)
  then have bound: "length (filter (is_about ''spots'' ''a'') sample_trail) \<le> 100" by simp
  have "''title'' \<notin> set IGNORED_FIELDS" by (simp add: IGNORED_FIELDS_def)
  note spec = history_replays [OF sample_trail_audited bound this, of "empty_world ()"]
  from conjunct1 [OF spec] have "fold (\<lambda>e. apply_changes (ae_changes e))
      (rev (get_history sample_trail ''spots'' ''a'' 100 (empty_world ()))) (json_get []) ''title'' = None"
    by (simp add: row_or_empty_def json_get_def)
  moreover from conjunct1 [OF conjunct2 [OF spec]] two
  have "length (get_history sample_trail ''spots'' ''a'' 100 (empty_world ())) = 2" by simp
  ultimately show ?thesis ..
qed

end
