(* ===== verification/Invites.thy ===== *)
theory Invites
  imports Spot_Groups
begin

text \<open>
  Invite links (\<open>crud/invite.py\<close>, \<open>endpoints/invites.py\<close>) and the Google login of
  \<open>endpoints/auth.py\<close>, which consumes one.  All the writes to the tables of groups are then
  known, and the group machine of the program is put together from them.
\<close>

section \<open>Statements\<close>

definition GROUP_INVITE_TTL :: int where
  "GROUP_INVITE_TTL = days 14"

definition create_invite ::
    "uid \<Rightarrow> instant \<Rightarrow> uid \<Rightarrow> uid option \<Rightarrow> group_role option \<Rightarrow> 'r world \<Rightarrow> invite res \<times> 'r world" where
  "create_invite fresh now inviter_uid group_uid role w =
     (let i = \<lparr>iv_uid = fresh, iv_inviter_uid = inviter_uid, iv_group_uid = group_uid,
               iv_group_role = role, iv_status = Invite_PENDING, iv_accepted_by_uid = None,
               iv_accepted_at = None, iv_created_at = Some now\<rparr>
      in case insert_row iv_uid i (invites w) of
           None \<Rightarrow> raise integrity_error w
         | Some rows \<Rightarrow> ret i (w\<lparr>invites := rows\<rparr>))"

definition get_invite_by_uid :: "uid \<Rightarrow> 'r world \<Rightarrow> invite option res" where
  "get_invite_by_uid uid w =
     scalar_one_or_none multiple_results (filter (\<lambda>i. iv_uid i = uid) (invites w))"

definition invite_expired :: "instant \<Rightarrow> invite \<Rightarrow> bool" where
  "invite_expired now i \<longleftrightarrow>
     (case iv_created_at i of None \<Rightarrow> False | Some t \<Rightarrow> now - t > GROUP_INVITE_TTL)"

text \<open>The caller has checked that the invite is to a group; a NULL matches no group.\<close>

definition is_group_invite_still_valid :: "instant \<Rightarrow> invite \<Rightarrow> 'r world \<Rightarrow> bool res" where
  "is_group_invite_still_valid now i w =
     (if invite_expired now i then Inr False
      else case iv_group_uid i of
        None \<Rightarrow> Inr False
      | Some k \<Rightarrow>
          bindE (get_group_by_uid k w) (\<lambda>g.
            if g = None \<or> g_visibility (the g) = PRIVATE then Inr False
            else bindE (get_membership k (iv_inviter_uid i) w) (\<lambda>m.
              Inr (m \<noteq> None \<and> gm_role (the m) = OWNER))))"

text \<open>\<open>add_member\<close> with the nullable role of the invite: a NULL role violates the column.\<close>

definition join_group :: "instant \<Rightarrow> invite \<Rightarrow> uid \<Rightarrow> uid \<Rightarrow> 'r world \<Rightarrow> unit res \<times> 'r world" where
  "join_group now i k user_uid w =
     (case iv_group_role i of
        Some role \<Rightarrow> bindR (add_member now k user_uid role (iv_inviter_uid i) w) (\<lambda>_ w'. ret () w')
      | None \<Rightarrow> check (get_membership k user_uid w) w (\<lambda>m.
                  if m \<noteq> None then raise (app_error SPOT_GROUP_MEMBER_ALREADY_EXISTS) w
                  else raise integrity_error w))"

definition mark_accepted :: "instant \<Rightarrow> uid \<Rightarrow> invite \<Rightarrow> invite" where
  "mark_accepted now user_uid i =
     i\<lparr>iv_status := Invite_ACCEPTED, iv_accepted_by_uid := Some user_uid,
       iv_accepted_at := Some now\<rparr>"

definition save_accepted :: "instant \<Rightarrow> invite \<Rightarrow> uid \<Rightarrow> 'r world \<Rightarrow> 'r world" where
  "save_accepted now i user_uid w =
     w\<lparr>invites := update_where (\<lambda>x. iv_uid x = iv_uid i) (\<lambda>_. mark_accepted now user_uid i) (invites w)\<rparr>"

definition accept_invite :: "instant \<Rightarrow> invite \<Rightarrow> uid \<Rightarrow> 'r world \<Rightarrow> invite res \<times> 'r world" where
  "accept_invite now i user_uid w =
     (case iv_group_uid i of
        None \<Rightarrow> raise (app_error INVITE_NOT_ACCEPTABLE) w
      | Some k \<Rightarrow>
          if iv_status i \<noteq> Invite_PENDING then raise (app_error INVITE_NOT_ACCEPTABLE) w
          else check (is_group_invite_still_valid now i w) w (\<lambda>valid.
            if \<not> valid then raise (app_error INVITE_NOT_ACCEPTABLE) w
            else bindR (join_group now i k user_uid w) (\<lambda>_ w'.
              ret (mark_accepted now user_uid i) (save_accepted now i user_uid w'))))"

text \<open>
  Consuming an invite at sign-up.  The referral is written with the first commit: a failed
  join rolls it back.
\<close>

definition consume_invite_for_signup ::
    "instant \<Rightarrow> uid \<Rightarrow> user \<Rightarrow> 'r world \<Rightarrow> unit res \<times> 'r world" where
  "consume_invite_for_signup now invite_uid u w =
     check (get_invite_by_uid invite_uid w) w (\<lambda>found.
       case found of
         None \<Rightarrow> ret () w
       | Some i \<Rightarrow>
           if iv_status i \<noteq> Invite_PENDING then ret () w
           else
             let w1 = snd (save_user now u
                        (u\<lparr>u_referred_by_uid := Some (iv_inviter_uid i)\<rparr>) w)
             in case iv_group_uid i of
                  None \<Rightarrow> ret () w1
                | Some k \<Rightarrow>
                    check (is_group_invite_still_valid now i w1) w (\<lambda>valid.
                      if \<not> valid then ret () w1
                      else (case join_group now i k (u_uid u) w1 of
                              (Inl e, _) \<Rightarrow> raise e w
                            | (Inr _, w2) \<Rightarrow> ret () (save_accepted now i (u_uid u) w2))))"

section \<open>Endpoints\<close>

record invite_response =
  ir_uid :: uid
  ir_group_uid :: "uid option"
  ir_group_role :: "group_role option"
  ir_status :: invite_status
  ir_created_at :: "instant option"

definition invite_response_of :: "invite \<Rightarrow> invite_response" where
  "invite_response_of i =
     \<lparr>ir_uid = iv_uid i, ir_group_uid = iv_group_uid i, ir_group_role = iv_group_role i,
      ir_status = iv_status i, ir_created_at = iv_created_at i\<rparr>"

text \<open>The two fields come together (\<open>_check_group_fields_paired\<close>).\<close>

definition check_group_fields_paired :: "uid option \<Rightarrow> group_role option \<Rightarrow> unit res" where
  "check_group_fields_paired group_uid role =
     ensure ((group_uid = None) = (role = None)) RequestValidationError"

definition may_invite :: "user \<Rightarrow> uid option \<Rightarrow> 'r world \<Rightarrow> unit res" where
  "may_invite u group_uid w =
     (case group_uid of
        None \<Rightarrow> Inr ()
      | Some k \<Rightarrow>
          bindE (get_group_or_404 k w) (\<lambda>g.
            if g_visibility g = PRIVATE then Inl (app_error SPOT_GROUP_INVITE_NOT_ALLOWED)
            else bindE (get_membership (g_uid g) (u_uid u) w) (\<lambda>m.
              case m of
                None \<Rightarrow> Inl (app_error SPOT_GROUP_NOT_FOUND)
              | Some m \<Rightarrow> if gm_role m \<noteq> OWNER then Inl (app_error FORBIDDEN) else Inr ())))"

definition create_invite_endpoint ::
    "'r redis_client option \<Rightarrow> uid \<Rightarrow> instant \<Rightarrow> user option res \<Rightarrow> string option \<Rightarrow> uid option
       \<Rightarrow> group_role option \<Rightarrow> 'r world \<Rightarrow> invite_response res \<times> 'r world" where
  "create_invite_endpoint client fresh now visitor client_host group_uid role w =
     bindR (rate_limited client ''invite_create'' 20 3600 visitor client_host w) (\<lambda>_ w.
     check (login_required visitor) w (\<lambda>u.
     check (check_group_fields_paired group_uid role) w (\<lambda>_.
     check (may_invite u group_uid w) w (\<lambda>_.
     bindR (create_invite fresh now (u_uid u) group_uid role w)
       (\<lambda>i w'. ret (invite_response_of i) w')))))"

record invite_preview =
  ip_inviter_nickname :: string
  ip_group_name :: "string option"
  ip_status :: invite_status

definition unknown_inviter :: string where
  "unknown_inviter = [CHR 0xEC, CHR 0x95, CHR 0x8C, CHR 0x20, CHR 0xEC, CHR 0x88, CHR 0x98, CHR 0x20,
     CHR 0xEC, CHR 0x97, CHR 0x86, CHR 0xEC, CHR 0x9D, CHR 0x8C]"

definition get_invite_or_404 :: "uid \<Rightarrow> 'r world \<Rightarrow> invite res" where
  "get_invite_or_404 uid w =
     bindE (get_invite_by_uid uid w) (\<lambda>found.
       case found of None \<Rightarrow> Inl (app_error INVITE_NOT_FOUND) | Some i \<Rightarrow> Inr i)"

definition preview_invite :: "uid \<Rightarrow> 'r world \<Rightarrow> invite_preview res" where
  "preview_invite uid w =
     bindE (get_invite_or_404 uid w) (\<lambda>i.
     bindE (get_user_by_id (iv_inviter_uid i) w) (\<lambda>inviter.
     bindE (if truthy (iv_group_uid i) then get_group_by_uid (the (iv_group_uid i)) w else Inr None)
       (\<lambda>g. Inr \<lparr>ip_inviter_nickname = (case inviter of None \<Rightarrow> unknown_inviter | Some u \<Rightarrow> u_nickname u),
                 ip_group_name = map_option g_name g, ip_status = iv_status i\<rparr>)))"

definition accept_invite_endpoint ::
    "instant \<Rightarrow> user res \<Rightarrow> uid \<Rightarrow> 'r world \<Rightarrow> invite_response res \<times> 'r world" where
  "accept_invite_endpoint now caller uid w =
     check caller w (\<lambda>u.
     check (get_invite_or_404 uid w) w (\<lambda>i.
     bindR (accept_invite now i (u_uid u) w) (\<lambda>i' w'. ret (invite_response_of i') w')))"

section \<open>Login\<close>

text \<open>
  \<open>race\<close> is what other requests commit between the lookup of the account and the insert of
  a new one; alone the request runs with \<open>\<lambda>w. w\<close>.  The new account is told from an old one by
  the first lookup only.
\<close>

definition sign_up ::
    "uid \<Rightarrow> (nat \<Rightarrow> draw) \<Rightarrow> instant \<Rightarrow> google_claims \<Rightarrow> string \<Rightarrow> 'r world \<Rightarrow> user res \<times> 'r world" where
  "sign_up fresh draws now info sub w =
     (case gc_email info of
        None \<Rightarrow> raise key_error w
      | Some email \<Rightarrow>
          (case create_user fresh draws now email sub (gc_name info) (gc_picture info) w of
             (Inl e, w') \<Rightarrow>
               if e = integrity_error
               then check (get_user_by_google_sub sub w') w' (\<lambda>found.
                      case found of None \<Rightarrow> raise e w' | Some u \<Rightarrow> ret u w')
               else raise e w'
           | (Inr u, w') \<Rightarrow> ret u w'))"

definition login_account ::
    "uid \<Rightarrow> (nat \<Rightarrow> draw) \<Rightarrow> instant \<Rightarrow> ('r world \<Rightarrow> 'r world) \<Rightarrow> google_claims \<Rightarrow> 'r world
       \<Rightarrow> (user \<times> bool) res \<times> 'r world" where
  "login_account fresh draws now race info w =
     (case gc_sub info of
        None \<Rightarrow> raise key_error w
      | Some sub \<Rightarrow>
          check (get_user_by_google_sub sub w) w (\<lambda>found.
            case found of
              None \<Rightarrow> bindR (sign_up fresh draws now info sub (race w)) (\<lambda>u w'. ret (u, True) w')
            | Some u \<Rightarrow> bindR (update_user_profile now u (gc_name info) (gc_picture info) w)
                          (\<lambda>u w'. ret (u, False) w')))"

definition google_login ::
    "'r redis_client option \<Rightarrow> google_verifier \<Rightarrow> 't jwt_lib \<Rightarrow> settings \<Rightarrow> uid \<Rightarrow> (nat \<Rightarrow> draw)
       \<Rightarrow> instant \<Rightarrow> ('r world \<Rightarrow> 'r world) \<Rightarrow> user option res \<Rightarrow> string option \<Rightarrow> string
       \<Rightarrow> string option \<Rightarrow> 'r world \<Rightarrow> 't token_response res \<times> 'r world" where
  "google_login client google J cfg fresh draws now race visitor client_host id_token invite_uid w =
     bindR (rate_limited client ''auth_google'' 30 60 visitor client_host w) (\<lambda>_ w.
     check (checked_google_info google cfg id_token) w (\<lambda>info.
     bindR (login_account fresh draws now race info w) (\<lambda>(u, is_new_user) w.
       if \<not> u_is_active u then raise (app_error FORBIDDEN) w
       else bindR (if is_new_user \<and> truthy invite_uid
                   then consume_invite_for_signup now (the invite_uid) u w else ret () w)
         (\<lambda>_ w. ret (token_response_for J cfg now u) w))))"
section \<open>Laws of the statements\<close>

lemma still_valid_group:
  "is_group_invite_still_valid now i w = Inr True \<Longrightarrow> iv_group_uid i = Some k \<Longrightarrow>
     k \<in> g_uid ` set (spot_groups w)"
  by (auto simp: is_group_invite_still_valid_def get_group_by_uid_def bindE_Inr_iff
      scalar_one_or_none_Some_iff filter_eq_Cons_iff split: if_splits)

lemma groups_ok_join:
  assumes "groups_ok w" and "k \<in> g_uid ` set (spot_groups w)"
  shows "groups_ok (snd (join_group now i k u w))"
  using assms
  by (auto simp: join_group_def intro!: groups_ok_bind groups_ok_check groups_ok_add_member
      split: option.split)

lemma groups_ok_save_accepted: "groups_ok (save_accepted now i u w) = groups_ok w"
  by (rule groups_ok_cong) (simp add: group_tables_def save_accepted_def)

lemma groups_ok_save_user: "groups_ok (snd (save_user now u new w)) = groups_ok w"
  by (rule groups_ok_cong) (simp add: group_tables_def save_user_def Let_def)

lemma groups_ok_valid_join:
  "groups_ok w \<Longrightarrow> is_group_invite_still_valid now i w = Inr True \<Longrightarrow> iv_group_uid i = Some k \<Longrightarrow>
     groups_ok (snd (join_group now i k u w))"
  by (rule groups_ok_join) (auto dest: still_valid_group)

lemma groups_ok_accept: "groups_ok w \<Longrightarrow> groups_ok (snd (accept_invite now i u w))"
  unfolding accept_invite_def
  by (auto split: option.split intro!: groups_ok_check groups_ok_bind groups_ok_valid_join
      simp: groups_ok_save_accepted)

lemma groups_ok_consume:
  assumes ok: "groups_ok w"
  shows "groups_ok (snd (consume_invite_for_signup now uid u w))"
proof -
  have joined: "groups_ok (snd (check (is_group_invite_still_valid now i v) w (\<lambda>valid.
      if \<not> valid then ret () v
      else (case join_group now i k uid v of
              (Inl e, _) \<Rightarrow> raise e w
            | (Inr _, w2) \<Rightarrow> ret () (save_accepted now i uid w2)))))"
    if "groups_ok v" "iv_group_uid i = Some k" for i k uid and v :: "'a world"
  proof (rule groups_ok_check [OF ok])
    fix valid
    assume valid: "is_group_invite_still_valid now i v = Inr valid"
    show "groups_ok (snd (if \<not> valid then ret () v
      else (case join_group now i k uid v of
              (Inl e, _) \<Rightarrow> raise e w
            | (Inr _, w2) \<Rightarrow> ret () (save_accepted now i uid w2))))"
    proof (cases valid)
      case True
      then have "k \<in> g_uid ` set (spot_groups v)"
        using valid that still_valid_group [of now i v k] by simp
      from groups_ok_join [OF that(1) this, of now i uid] show ?thesis
        using ok that(1) by (auto simp: groups_ok_save_accepted split: prod.split sum.split)
    qed (simp add: that)
  qed
  show ?thesis
    unfolding consume_invite_for_signup_def Let_def
    by (rule groups_ok_check [OF ok])
      (auto simp: groups_ok_save_user ok intro!: joined split: option.split)
qed

section \<open>The machine of groups\<close>

text \<open>
  Every write to the tables of groups is a request to the app or the console, an accepted
  invite or a sign-up; the rest of the program leaves those tables alone.
\<close>

inductive group_step :: "'b s3_client \<Rightarrow> settings \<Rightarrow> 'r world \<Rightarrow> 'r world \<Rightarrow> bool"
  for s3 :: "'b s3_client" and cfg :: settings where
  app: "group_step s3 cfg w (run_group_request s3 cfg now caller req w)"
| console: "group_step s3 cfg w (run_group_request_admin s3 cfg now caller req w)"
| accept: "group_step s3 cfg w (snd (accept_invite_endpoint now caller uid w))"
| signup: "group_step s3 cfg w (snd (consume_invite_for_signup now uid u w))"
| elsewhere: "group_tables w' = group_tables w \<Longrightarrow> group_step s3 cfg w w'"

inductive_cases group_stepE: "group_step s3 cfg w w'"

lemma groups_ok_accept_endpoint:
  "groups_ok w \<Longrightarrow> groups_ok (snd (accept_invite_endpoint now caller uid w))"
  unfolding accept_invite_endpoint_def
  by (auto intro!: groups_ok_check groups_ok_bind groups_ok_accept)

lemma groups_ok_step:
  assumes "groups_ok w" and "group_step s3 cfg w w'"
  shows "groups_ok w'"
  using assms(2)
proof cases
  case (app now caller req)
  then show ?thesis using groups_ok_run [OF assms(1)] by simp
next
  case (console now caller req)
  then show ?thesis using groups_ok_run_admin [OF assms(1)] by simp
next
  case (accept now caller uid)
  then show ?thesis using groups_ok_accept_endpoint [OF assms(1)] by simp
next
  case (signup now uid u)
  then show ?thesis using groups_ok_consume [OF assms(1)] by simp
next
  case elsewhere
  then show ?thesis using groups_ok_cong assms(1) by blast
qed

interpretation group_run:
  step_system "\<lambda>w :: 'r world. \<exists>r. w = empty_world r" "group_step s3 cfg" groups_ok
  for s3 :: "'b s3_client" and cfg
  by unfold_locales (auto elim: groups_ok_step [rotated])

text \<open>
  C2: A group always has an owner.  However app requests, console requests, accepted invites
  and sign-ups follow each other from the empty database, every group has at least one
  OWNER, every membership and every item is in a group that exists, and nobody is a member
  of a group twice.
\<close>

theorem groups_always_owned:
  assumes "(group_step s3 cfg)\<^sup>*\<^sup>* (empty_world r) w"
  shows "(\<forall>g \<in> set (spot_groups w). \<exists>m \<in> set (group_members w). gm_group_uid m = g_uid g \<and> gm_role m = OWNER)
     \<and> (\<forall>m \<in> set (group_members w). gm_group_uid m \<in> g_uid ` set (spot_groups w))
     \<and> (\<forall>x \<in> set (group_spots w). gs_group_uid x \<in> g_uid ` set (spot_groups w))
     \<and> distinct (map (\<lambda>m. (gm_group_uid m, gm_user_uid m)) (group_members w))"
proof -
  have ok: "groups_ok w"
    by (rule group_run.inv_reachable [OF _ assms]) blast
  have "\<exists>m \<in> set (group_members w). gm_group_uid m = g_uid g \<and> gm_role m = OWNER"
    if "g \<in> set (spot_groups w)" for g
    using ok that count_where_pos [of "\<lambda>m. gm_group_uid m = g_uid g \<and> gm_role m = OWNER" "group_members w"]
    by (auto simp: groups_ok_def count_owners_def)
  then show ?thesis
    using ok by (auto simp: groups_ok_def unique_key_def member_key_def [abs_def])
qed

lemma groups_always_owned_witness:
  "(let w = run_group_request map_s3 sample_settings 1 (Inr (sample_user ''ann''))
              (Remove_Group_Member ''g'' ''ann'')
              (run_group_request map_s3 sample_settings 0 (Inr (sample_user ''ann''))
                 (Create_Group ''g'' ''trip'' None None) (empty_world ()))
    in length (spot_groups w) = 1
       \<and> (\<forall>g \<in> set (spot_groups w). \<exists>m \<in> set (group_members w). gm_group_uid m = g_uid g \<and> gm_role m = OWNER))"
proof -
  let ?create = "Create_Group ''g'' ''trip'' None None"
  let ?w1 = "run_group_request map_s3 sample_settings 0 (Inr (sample_user ''ann'')) ?create (empty_world ())"
  let ?w = "run_group_request map_s3 sample_settings 1 (Inr (sample_user ''ann''))
              (Remove_Group_Member ''g'' ''ann'') ?w1"
  have "(group_step map_s3 sample_settings)\<^sup>*\<^sup>* (empty_world ()) ?w"
    by (meson app converse_rtranclp_into_rtranclp rtranclp.rtrancl_refl)
  from groups_always_owned [OF this]
  have "\<forall>g \<in> set (spot_groups ?w). \<exists>m \<in> set (group_members ?w). gm_group_uid m = g_uid g \<and> gm_role m = OWNER"
    by blast
  moreover have "length (spot_groups ?w) = 1"
    by (simp add: create_group_endpoint_def create_group_def valid_group_name_def str_len_def
        is_continuation_def empty_world_def insert_row_def sample_user_def remove_group_member_def
        require_group_role_def get_membership_or_404_def get_group_or_404_def get_group_by_uid_def
        scalar_one_or_none_def get_membership_def target_member_def remove_member_def
        GROUP_ROLE_RANK_def count_owners_def Let_def)
  ultimately show ?thesis by (simp only: Let_def)
qed

section \<open>What accepting means\<close>

text \<open>
  The condition the documentation states: a pending invite to a group, at most fourteen days
  old, while the group still exists and is not private and the inviter still owns it.
\<close>

definition acceptable :: "instant \<Rightarrow> invite \<Rightarrow> 'r world \<Rightarrow> bool" where
  "acceptable now i w \<longleftrightarrow> iv_status i = Invite_PENDING
     \<and> (\<forall>t. iv_created_at i = Some t \<longrightarrow> now \<le> t + days 14)
     \<and> (\<exists>g \<in> set (spot_groups w). iv_group_uid i = Some (g_uid g) \<and> g_visibility g \<noteq> PRIVATE
          \<and> (\<exists>m \<in> set (group_members w). gm_group_uid m = g_uid g
               \<and> gm_user_uid m = iv_inviter_uid i \<and> gm_role m = OWNER))"

lemma expired_iff:
  "invite_expired now i \<longleftrightarrow> \<not> (\<forall>t. iv_created_at i = Some t \<longrightarrow> now \<le> t + days 14)"
  by (auto simp: invite_expired_def GROUP_INVITE_TTL_def split: option.split)

lemma still_valid_spec:
  assumes ok: "groups_ok w" and "iv_status i = Invite_PENDING" and k: "iv_group_uid i = Some k"
  shows "is_group_invite_still_valid now i w = Inr (acceptable now i w)"
proof -
  have keys: "unique_key g_uid (spot_groups w)" "unique_key member_key (group_members w)"
    using ok by (simp_all add: groups_ok_def)
  have owner: "(\<exists>m \<in> set (group_members w). gm_group_uid m = k
        \<and> gm_user_uid m = iv_inviter_uid i \<and> gm_role m = OWNER) \<longleftrightarrow>
      (case get_by_key member_key (k, iv_inviter_uid i) (group_members w) of
         None \<Rightarrow> False | Some m \<Rightarrow> gm_role m = OWNER)"
    using get_by_key_Ex [OF keys(2), of "(k, iv_inviter_uid i)" "\<lambda>m. gm_role m = OWNER"]
    by (simp add: member_key_def conj_assoc)
  have grp: "(\<exists>g \<in> set (spot_groups w). g_uid g = k \<and> g_visibility g \<noteq> PRIVATE) \<longleftrightarrow>
      (case get_by_key g_uid k (spot_groups w) of None \<Rightarrow> False | Some g \<Rightarrow> g_visibility g \<noteq> PRIVATE)"
    by (rule get_by_key_Ex [OF keys(1)])
  have "acceptable now i w \<longleftrightarrow> \<not> invite_expired now i
      \<and> (\<exists>g \<in> set (spot_groups w). g_uid g = k \<and> g_visibility g \<noteq> PRIVATE)
      \<and> (\<exists>m \<in> set (group_members w). gm_group_uid m = k
            \<and> gm_user_uid m = iv_inviter_uid i \<and> gm_role m = OWNER)"
    using assms(2) k by (auto simp: acceptable_def expired_iff)
  then show ?thesis
    unfolding owner grp
    using k by (auto simp: is_group_invite_still_valid_def get_group_by_uid_ok [OF keys(1)]
        get_membership_ok [OF keys(2)] split: option.splits)
qed


definition sample_invite :: invite where
  "sample_invite = \<lparr>iv_uid = ''i'', iv_inviter_uid = ''ann'', iv_group_uid = Some ''g'',
     iv_group_role = Some EDITOR, iv_status = Invite_PENDING, iv_accepted_by_uid = None,
     iv_accepted_at = None, iv_created_at = Some 0\<rparr>"

lemma sample_invite_sel [simp]:
  "iv_group_uid sample_invite = Some ''g''" "iv_inviter_uid sample_invite = ''ann''"
  "iv_group_role sample_invite = Some EDITOR" "iv_status sample_invite = Invite_PENDING"
  "iv_uid sample_invite = ''i''" "iv_created_at sample_invite = Some 0"
  by (simp_all add: sample_invite_def)

lemma sample_acceptable: "acceptable now sample_invite sample_groups \<longleftrightarrow> now \<le> days 14"
  by (auto simp: acceptable_def)


section \<open>What a login does to the accounts\<close>

definition has_account :: "string \<Rightarrow> user \<Rightarrow> 'r world \<Rightarrow> bool" where
  "has_account sub u w \<longleftrightarrow> users_ok (users w)
     \<and> (\<exists>v \<in> set (users w). u_uid v = u_uid u \<and> u_google_sub v = sub \<and> u_is_active v = u_is_active u)"

lemma save_user_account:
  assumes "users_ok (users w)" and "u \<in> set (users w)"
    and "u_uid new = u_uid u" "u_email new = u_email u" "u_google_sub new = u_google_sub u"
      "u_nickname new = u_nickname u" "u_is_active new = u_is_active u"
  obtains v where "fst (save_user now u new w) = Inr v" and "v \<in> set (users (snd (save_user now u new w)))"
    and "users_ok (users (snd (save_user now u new w)))" and "u_google_sub v = u_google_sub u"
    and "u_uid v = u_uid u" and "u_is_active v = u_is_active u"
proof (cases "new = u")
  case True
  with assms show ?thesis by (intro that [of u]) (simp_all add: save_user_def)
next
  case False
  let ?v = "new\<lparr>u_updated_at := now\<rparr>"
  have "?v \<in> set (users (snd (save_user now u new w)))"
    using False assms(2) by (auto simp: save_user_def Let_def set_update_where)
  then show ?thesis
    using assms save_user_ok [OF assms(1-6), of now] False
    by (intro that [of ?v]) (simp_all add: save_user_def Let_def)
qed

lemma save_user_rows:
  assumes "u_uid new = u_uid u"
  obtains us where "map u_uid us = map u_uid (users w)" and "snd (save_user now u new w) = w\<lparr>users := us\<rparr>"
proof (cases "new = u")
  case True
  then show ?thesis by (intro that [of "users w"]) (simp_all add: save_user_def)
next
  case False
  with assms show ?thesis
    by (intro that [of "update_where (\<lambda>x. u_uid x = u_uid u) (\<lambda>_. new\<lparr>u_updated_at := now\<rparr>) (users w)"])
      (simp_all add: save_user_def Let_def map_key_update_where)
qed

definition logged_in :: "string \<Rightarrow> user \<Rightarrow> 'r world \<Rightarrow> bool" where
  "logged_in sub u w \<longleftrightarrow> users_ok (users w) \<and> u \<in> set (users w) \<and> u_google_sub u = sub"

lemma sign_up_account:
  assumes ok: "users_ok (users w)"
  shows "users_ok (users (snd (sign_up fresh draws now info sub w)))
     \<and> (\<forall>u. fst (sign_up fresh draws now info sub w) = Inr u \<longrightarrow>
           logged_in sub u (snd (sign_up fresh draws now info sub w)))"
proof (cases "gc_email info")
  case (Some email)
  obtain r w' where run: "create_user fresh draws now email sub (gc_name info) (gc_picture info) w = (r, w')"
    by (cases "create_user fresh draws now email sub (gc_name info) (gc_picture info) w")
  have ok': "users_ok (users w')" using create_user_ok [OF ok] run by (metis snd_conv)
  show ?thesis
  proof (cases r)
    case (Inl e)
    then show ?thesis
      using Some run ok'
      by (auto simp: sign_up_def logged_in_def get_user_by_google_sub_ok [OF ok']
          dest!: get_by_key_Some_key split: option.split)
  next
    case (Inr u)
    then have "u_google_sub u = sub" "u \<in> set (users w')"
      using snd_create_user_users [OF run] by (auto simp: new_user_def dest!: insert_user_users)
    then show ?thesis
      using Some run Inr ok' by (simp add: sign_up_def logged_in_def)
  qed
qed (use ok in \<open>simp add: sign_up_def\<close>)

text \<open>The account part of a login: an old account keeps its row, a new one is the caller's.\<close>

lemma login_account_rows:
  assumes ok: "users_ok (users w)" and race: "users_ok (users (race w))"
  shows "users_ok (users (snd (login_account fresh draws now race info w)))
     \<and> (\<forall>u b. fst (login_account fresh draws now race info w) = Inr (u, b) \<longrightarrow>
           (\<exists>sub. gc_sub info = Some sub \<and> (b \<longleftrightarrow> sub \<notin> u_google_sub ` set (users w))
              \<and> logged_in sub u (snd (login_account fresh draws now race info w))))
     \<and> ((\<exists>v \<in> set (users w). gc_sub info = Some (u_google_sub v)) \<longrightarrow>
           (\<exists>us. map u_uid us = map u_uid (users w)
              \<and> snd (login_account fresh draws now race info w) = w\<lparr>users := us\<rparr>))"
proof (cases "gc_sub info")
  case (Some sub)
  show ?thesis
  proof (cases "get_by_key u_google_sub sub (users w)")
    case None
    then have fresh: "sub \<notin> u_google_sub ` set (users w)" by (simp add: get_by_key_None_iff)
    moreover have "login_account fresh draws now race info w
        = bindR (sign_up fresh draws now info sub (race w)) (\<lambda>u w'. ret (u, True) w')"
      using Some None by (simp add: login_account_def get_user_by_google_sub_ok [OF ok])
    ultimately show ?thesis
      using sign_up_account [OF race, of fresh draws now info sub] Some
      by (cases "fst (sign_up fresh draws now info sub (race w))") (auto simp: bindR_def image_iff)
  next
    case found: (Some u)
    then have u: "u \<in> set (users w)" "u_google_sub u = sub" by (auto dest: get_by_key_Some_key)
    let ?new = "u\<lparr>u_name := (if gc_name info \<noteq> None then gc_name info else u_name u),
          u_picture := (if gc_picture info \<noteq> None then gc_picture info else u_picture u)\<rparr>"
    have run: "login_account fresh draws now race info w
        = bindR (save_user now u ?new w) (\<lambda>u w'. ret (u, False) w')"
      using Some found by (simp add: login_account_def get_user_by_google_sub_ok [OF ok] update_user_profile_def)
    obtain v where "fst (save_user now u ?new w) = Inr v" "v \<in> set (users (snd (save_user now u ?new w)))"
        "users_ok (users (snd (save_user now u ?new w)))" "u_google_sub v = u_google_sub u"
      using save_user_account [OF ok u(1), of ?new now] by auto
    moreover have "\<exists>us. map u_uid us = map u_uid (users w) \<and> snd (save_user now u ?new w) = w\<lparr>users := us\<rparr>"
      by (rule save_user_rows [of ?new u w now]) auto
    moreover have "sub \<in> u_google_sub ` set (users w)"
      using u by force
    ultimately show ?thesis
      using u Some by (auto simp: run bindR_def logged_in_def)
  qed
qed (use ok in \<open>simp add: login_account_def\<close>)

lemma users_join [simp]: "users (snd (join_group now i k u w)) = users w"
  by (auto simp: join_group_def add_member_def check_def bindR_def Let_def raise_def ret_def
      split: option.split sum.split)

lemma consume_users:
  "snd (consume_invite_for_signup now uid u w) = w \<or>
   (\<exists>x. users (snd (consume_invite_for_signup now uid u w))
      = users (snd (save_user now u (u\<lparr>u_referred_by_uid := Some x\<rparr>) w)))"
proof (cases "\<exists>i. get_invite_by_uid uid w = Inr (Some i) \<and> iv_status i = Invite_PENDING")
  case False
  then show ?thesis
    by (auto simp: consume_invite_for_signup_def check_def split: sum.split option.split)
next
  case True
  then obtain i where i: "get_invite_by_uid uid w = Inr (Some i)" "iv_status i = Invite_PENDING" by blast
  let ?w1 = "snd (save_user now u (u\<lparr>u_referred_by_uid := Some (iv_inviter_uid i)\<rparr>) w)"
  show ?thesis
  proof (cases "iv_group_uid i")
    case None
    with i show ?thesis by (auto simp: consume_invite_for_signup_def)
  next
    case (Some k)
    have "users (snd (join_group now i k (u_uid u) ?w1)) = users ?w1" by simp
    then show ?thesis
      using i Some
      by (cases "is_group_invite_still_valid now i ?w1"; cases "join_group now i k (u_uid u) ?w1")
        (auto simp: consume_invite_for_signup_def Let_def save_accepted_def split: sum.split)
  qed
qed

lemma consume_keeps_account:
  assumes "logged_in sub u w"
  shows "has_account sub u (snd (consume_invite_for_signup now uid u w))"
proof -
  have u: "users_ok (users w)" "u \<in> set (users w)" "u_google_sub u = sub"
    using assms by (simp_all add: logged_in_def)
  from consume_users [of now uid u w] show ?thesis
  proof (elim disjE exE)
    fix x
    assume rows: "users (snd (consume_invite_for_signup now uid u w))
      = users (snd (save_user now u (u\<lparr>u_referred_by_uid := Some x\<rparr>) w))"
    show ?thesis
      using save_user_account [OF u(1,2), of "u\<lparr>u_referred_by_uid := Some x\<rparr>" now] u(3)
      unfolding has_account_def rows by simp metis
  qed (use u in \<open>auto simp: has_account_def\<close>)
qed

definition sample_google :: google_verifier where
  "sample_google token audience = Inr \<lparr>gc_sub = Some token, gc_email = Some (token @ ''@vivac.kr''),
     gc_email_verified = True, gc_name = None, gc_picture = None\<rparr>"


end
