(* ===== verification/Conversations.thy ===== *)
theory Conversations
  imports Spots_Properties
begin

text \<open>
  Conversations between users: \<open>crud/conversation.py\<close>, \<open>crud/message.py\<close>,
  \<open>crud/user_block.py\<close>, \<open>core/ws_manager.py\<close> and the endpoints
  \<open>conversations.py\<close>, \<open>user_blocks.py\<close> and \<open>ws_conversations.py\<close>.

  Sending a message writes to the database and to the sockets of the connected users, so its
  state is a \<open>live\<close>: the database, the connections the process holds, and the frames sent so
  far.  A socket is a number; \<open>alive c\<close> is whether sending to \<open>c\<close> succeeds.  The order in
  which Python iterates over a set is unspecified: a set is the list of its elements, each once.
  \<open>codec\<close> is the JSON and base64 text of a cursor; \<open>message_codec_ok\<close> is its law.
\<close>

section \<open>Blocks\<close>

definition get_block :: "uid \<Rightarrow> uid \<Rightarrow> 'r world \<Rightarrow> user_block option res" where
  "get_block blocker_uid blocked_uid w =
     scalar_one_or_none multiple_results
       (filter (\<lambda>b. ub_blocker_uid b = blocker_uid \<and> ub_blocked_uid b = blocked_uid) (user_blocks w))"

text \<open>The constraints of \<open>user_blocks\<close>: the key, no block of oneself, two users that exist.\<close>

definition insert_block :: "user_block \<Rightarrow> 'r world \<Rightarrow> 'r world option" where
  "insert_block b w =
     (if block_key b \<in> block_key ` set (user_blocks w) \<or> ub_blocker_uid b = ub_blocked_uid b
         \<or> ub_blocker_uid b \<notin> u_uid ` set (users w) \<or> ub_blocked_uid b \<notin> u_uid ` set (users w)
      then None else Some (w\<lparr>user_blocks := user_blocks w @ [b]\<rparr>))"

definition block_user :: "instant \<Rightarrow> uid \<Rightarrow> uid \<Rightarrow> 'r world \<Rightarrow> user_block res \<times> 'r world" where
  "block_user now blocker_uid blocked_uid w =
     check (get_block blocker_uid blocked_uid w) w (\<lambda>existing.
       case existing of
         Some b \<Rightarrow> ret b w
       | None \<Rightarrow>
           let b = \<lparr>ub_blocker_uid = blocker_uid, ub_blocked_uid = blocked_uid, ub_created_at = now\<rparr>
           in case insert_block b w of
                None \<Rightarrow> raise integrity_error w
              | Some w' \<Rightarrow> ret b w')"

definition unblock_user :: "uid \<Rightarrow> uid \<Rightarrow> 'r world \<Rightarrow> unit res \<times> 'r world" where
  "unblock_user blocker_uid blocked_uid w =
     check (get_block blocker_uid blocked_uid w) w (\<lambda>found.
       case found of
         None \<Rightarrow> ret () w
       | Some b \<Rightarrow> ret () (w\<lparr>user_blocks := delete_where (\<lambda>x. block_key x = block_key b) (user_blocks w)\<rparr>))"

definition has_block_between :: "uid \<Rightarrow> uid \<Rightarrow> 'r world \<Rightarrow> bool" where
  "has_block_between user_a user_b w \<longleftrightarrow>
     take 1 (filter (\<lambda>b. ub_blocker_uid b = user_a \<and> ub_blocked_uid b = user_b
                       \<or> ub_blocker_uid b = user_b \<and> ub_blocked_uid b = user_a) (user_blocks w)) \<noteq> []"

section \<open>Conversations\<close>

text \<open>The two self joins of the query for the DIRECT conversation of two users.\<close>

definition direct_between :: "uid \<Rightarrow> uid \<Rightarrow> 'r world \<Rightarrow> conversation list" where
  "direct_between user_uid target_uid w =
     [c. c \<leftarrow> conversations w, p1 \<leftarrow> participants w, p2 \<leftarrow> participants w,
        cp_conversation_uid p1 = c_uid c \<and> cp_conversation_uid p2 = c_uid c \<and> c_type c = DIRECT
          \<and> cp_user_uid p1 = user_uid \<and> cp_user_uid p2 = target_uid]"

definition new_participant :: "uid \<Rightarrow> instant \<Rightarrow> uid \<Rightarrow> participant" where
  "new_participant conversation_uid now user_uid =
     \<lparr>cp_conversation_uid = conversation_uid, cp_user_uid = user_uid, cp_joined_at = now,
      cp_last_read_at = None, cp_left_at = None\<rparr>"

text \<open>
  One transaction: the conversation and its participants.  It fails on a taken key and on a
  participant who is not a user.
\<close>

definition insert_conversation :: "conversation \<Rightarrow> uid list \<Rightarrow> instant \<Rightarrow> 'r world \<Rightarrow> 'r world option" where
  "insert_conversation c members now w =
     (if c_uid c \<in> c_uid ` set (conversations w) \<or> \<not> distinct members
         \<or> (\<exists>u \<in> set members. (c_uid c, u) \<in> participant_key ` set (participants w) \<or> u \<notin> u_uid ` set (users w))
      then None
      else Some (w\<lparr>conversations := conversations w @ [c],
                   participants := participants w @ map (new_participant (c_uid c) now) members\<rparr>))"

definition new_conversation ::
    "uid \<Rightarrow> instant \<Rightarrow> conversation_type \<Rightarrow> string option \<Rightarrow> conversation" where
  "new_conversation fresh now type name =
     \<lparr>c_uid = fresh, c_type = type, c_name = name, c_created_at = now, c_updated_at = now\<rparr>"

definition create_with ::
    "uid \<Rightarrow> instant \<Rightarrow> conversation_type \<Rightarrow> string option \<Rightarrow> uid list \<Rightarrow> 'r world
       \<Rightarrow> conversation res \<times> 'r world" where
  "create_with fresh now type name members w =
     (let c = new_conversation fresh now type name
      in case insert_conversation c members now w of
           None \<Rightarrow> raise integrity_error w
         | Some w' \<Rightarrow> ret c w')"

text \<open>The reads of \<open>get_or_create_direct_conversation\<close>, and the whole of it.\<close>

definition find_direct :: "uid \<Rightarrow> uid \<Rightarrow> 'r world \<Rightarrow> conversation option res" where
  "find_direct user_uid target_uid w =
     (if user_uid = target_uid then Inl (app_error VALIDATION_ERROR)
      else if has_block_between user_uid target_uid w then Inl (app_error USER_BLOCKED)
      else scalar_one_or_none multiple_results (direct_between user_uid target_uid w))"

definition get_or_create_direct_conversation ::
    "uid \<Rightarrow> instant \<Rightarrow> uid \<Rightarrow> uid \<Rightarrow> 'r world \<Rightarrow> conversation res \<times> 'r world" where
  "get_or_create_direct_conversation fresh now user_uid target_uid w =
     check (find_direct user_uid target_uid w) w (\<lambda>existing.
       case existing of
         Some c \<Rightarrow> ret c w
       | None \<Rightarrow> create_with fresh now DIRECT None [user_uid, target_uid] w)"

definition create_group_conversation ::
    "uid \<Rightarrow> instant \<Rightarrow> uid \<Rightarrow> uid list \<Rightarrow> string option \<Rightarrow> 'r world \<Rightarrow> conversation res \<times> 'r world" where
  "create_group_conversation fresh now creator_uid participant_uids name w =
     create_with fresh now GROUP name (remdups (creator_uid # participant_uids)) w"

definition get_conversation_by_uid :: "uid \<Rightarrow> 'r world \<Rightarrow> conversation option res" where
  "get_conversation_by_uid uid w =
     scalar_one_or_none multiple_results (filter (\<lambda>c. c_uid c = uid) (conversations w))"

definition is_active_in :: "uid \<Rightarrow> participant \<Rightarrow> bool" where
  "is_active_in conversation_uid p \<longleftrightarrow> cp_conversation_uid p = conversation_uid \<and> cp_left_at p = None"

definition get_active_participant :: "uid \<Rightarrow> uid \<Rightarrow> 'r world \<Rightarrow> participant option res" where
  "get_active_participant conversation_uid user_uid w =
     scalar_one_or_none multiple_results
       (filter (\<lambda>p. is_active_in conversation_uid p \<and> cp_user_uid p = user_uid) (participants w))"

definition list_active_participant_uids :: "uid \<Rightarrow> 'r world \<Rightarrow> uid list" where
  "list_active_participant_uids conversation_uid w =
     map cp_user_uid (filter (is_active_in conversation_uid) (participants w))"

definition list_conversations_for_user ::
    "uid \<Rightarrow> nat \<Rightarrow> nat \<Rightarrow> 'r world \<Rightarrow> (conversation \<times> participant) list" where
  "list_conversations_for_user user_uid offset limit w =
     offset_limit offset limit
       (newest_first (\<lambda>(c, p). Some (c_updated_at c))
         [(c, p). c \<leftarrow> conversations w, p \<leftarrow> participants w,
            is_active_in (c_uid c) p \<and> cp_user_uid p = user_uid])"

text \<open>
  The counts of a group that has no row are 0, as the dictionary they are written into has it.
\<close>

definition get_unread_counts :: "uid \<Rightarrow> participant list \<Rightarrow> 'r world \<Rightarrow> (uid \<times> nat) list" where
  "get_unread_counts user_uid ps w =
     map (\<lambda>uid. (uid, length [m. m \<leftarrow> messages w, p \<leftarrow> participants w,
            cp_conversation_uid p = m_conversation_uid m \<and> cp_user_uid p = user_uid
              \<and> m_conversation_uid m = uid \<and> m_sender_uid m \<noteq> user_uid \<and> m_deleted_at m = None
              \<and> (case cp_last_read_at p of None \<Rightarrow> True | Some t \<Rightarrow> t < m_created_at m)]))
       (map cp_conversation_uid ps)"

definition mark_read :: "instant \<Rightarrow> participant \<Rightarrow> 'r world \<Rightarrow> 'r world" where
  "mark_read now p w =
     w\<lparr>participants := update_where (\<lambda>x. participant_key x = participant_key p)
         (\<lambda>x. x\<lparr>cp_last_read_at := Some now\<rparr>) (participants w)\<rparr>"

section \<open>Messages\<close>

record message_codec =
  encode_position :: "instant \<times> uid \<Rightarrow> string"
  decode_position :: "string \<Rightarrow> (instant \<times> uid) option"

definition encode_cursor :: "message_codec \<Rightarrow> instant \<Rightarrow> uid \<Rightarrow> string" where
  "encode_cursor codec created_at uid = encode_position codec (created_at, uid)"

definition decode_cursor :: "message_codec \<Rightarrow> string \<Rightarrow> (instant \<times> uid) res" where
  "decode_cursor codec cursor =
     (case decode_position codec cursor of
        None \<Rightarrow> Inl (app_error VALIDATION_ERROR) | Some p \<Rightarrow> Inr p)"

definition create_message ::
    "uid \<Rightarrow> instant \<Rightarrow> conversation \<Rightarrow> uid \<Rightarrow> string \<Rightarrow> 'r world \<Rightarrow> message res \<times> 'r world" where
  "create_message fresh now c sender_uid content w =
     (let m = \<lparr>m_uid = fresh, m_conversation_uid = c_uid c, m_sender_uid = sender_uid,
               m_content = content, m_deleted_at = None, m_created_at = now\<rparr>
      in case insert_row m_uid m (messages w) of
           None \<Rightarrow> raise integrity_error w
         | Some rows \<Rightarrow>
             ret m (w\<lparr>messages := rows,
                      conversations := update_where (\<lambda>x. c_uid x = c_uid c)
                        (\<lambda>x. x\<lparr>c_updated_at := now\<rparr>) (conversations w)\<rparr>))"

definition message_position :: "message \<Rightarrow> instant \<times> uid" where
  "message_position m = (m_created_at m, m_uid m)"

definition is_shown_in :: "uid \<Rightarrow> message \<Rightarrow> bool" where
  "is_shown_in conversation_uid m \<longleftrightarrow> m_conversation_uid m = conversation_uid \<and> m_deleted_at m = None"

text \<open>The page of the query on the rows of a conversation, from the cursor on.\<close>

definition message_cursor :: "message_codec \<Rightarrow> message \<Rightarrow> string" where
  "message_cursor codec m = encode_cursor codec (m_created_at m) (m_uid m)"

definition message_page ::
    "message_codec \<Rightarrow> nat \<Rightarrow> message list \<Rightarrow> string option \<Rightarrow> (message, string) page res" where
  "message_page codec limit rows cursor =
     bindE (if truthy cursor
            then bindE (decode_cursor codec (the cursor)) (\<lambda>p. Inr (Some p))
            else Inr None) (\<lambda>last_position.
       let query = rev (sort_key message_position rows)
       in Inr (first_page (message_cursor codec) limit
            (case last_position of
               None \<Rightarrow> query
             | Some p \<Rightarrow> filter (\<lambda>m. message_position m < p) query)))"

definition list_messages ::
    "message_codec \<Rightarrow> uid \<Rightarrow> string option \<Rightarrow> nat \<Rightarrow> 'r world \<Rightarrow> (message, string) page res" where
  "list_messages codec conversation_uid cursor limit w =
     message_page codec limit (filter (is_shown_in conversation_uid) (messages w)) cursor"

definition get_last_messages :: "uid list \<Rightarrow> 'r world \<Rightarrow> (uid \<times> message) list" where
  "get_last_messages conversation_uids w =
     [(uid, m). uid \<leftarrow> conversation_uids,
        m \<leftarrow> take 1 (newest_first (\<lambda>m. Some (m_created_at m)) (filter (is_shown_in uid) (messages w)))]"

definition get_message_by_uid :: "uid \<Rightarrow> 'r world \<Rightarrow> message option res" where
  "get_message_by_uid uid w =
     scalar_one_or_none multiple_results (filter (\<lambda>m. m_uid m = uid) (messages w))"

definition soft_delete_message :: "instant \<Rightarrow> message \<Rightarrow> 'r world \<Rightarrow> 'r world" where
  "soft_delete_message now m w =
     w\<lparr>messages := update_where (\<lambda>x. m_uid x = m_uid m) (\<lambda>x. x\<lparr>m_deleted_at := Some now\<rparr>) (messages w)\<rparr>"

section \<open>Connections\<close>

type_synonym connection = nat

record message_out =
  mo_uid :: uid
  mo_conversation_uid :: uid
  mo_sender_uid :: uid
  mo_content :: string
  mo_created_at :: instant

definition message_out_of :: "message \<Rightarrow> message_out" where
  "message_out_of m =
     \<lparr>mo_uid = m_uid m, mo_conversation_uid = m_conversation_uid m, mo_sender_uid = m_sender_uid m,
      mo_content = m_content m, mo_created_at = m_created_at m\<rparr>"

record 'r live =
  db :: "'r world"
  hub :: "uid \<rightharpoonup> connection list"
  wire :: "(connection \<times> message_out) list"

definition connections_of :: "uid \<Rightarrow> (uid \<rightharpoonup> connection list) \<Rightarrow> connection list" where
  "connections_of user_uid h = (case h user_uid of None \<Rightarrow> [] | Some cs \<Rightarrow> cs)"

definition connect :: "uid \<Rightarrow> connection \<Rightarrow> (uid \<rightharpoonup> connection list) \<Rightarrow> (uid \<rightharpoonup> connection list)" where
  "connect user_uid websocket h = h(user_uid \<mapsto> List.insert websocket (connections_of user_uid h))"

definition disconnect :: "uid \<Rightarrow> connection \<Rightarrow> (uid \<rightharpoonup> connection list) \<Rightarrow> (uid \<rightharpoonup> connection list)" where
  "disconnect user_uid websocket h =
     (let rest = removeAll websocket (connections_of user_uid h)
      in if rest = [] then h(user_uid := None) else h(user_uid \<mapsto> rest))"

fun send_each :: "(connection \<Rightarrow> bool) \<Rightarrow> uid \<Rightarrow> message_out \<Rightarrow> connection list \<Rightarrow> 'r live \<Rightarrow> 'r live" where
  "send_each alive user_uid payload [] s = s"
| "send_each alive user_uid payload (c # cs) s =
     send_each alive user_uid payload cs
       (if alive c then s\<lparr>wire := wire s @ [(c, payload)]\<rparr>
        else s\<lparr>hub := disconnect user_uid c (hub s)\<rparr>)"

definition send_to_user :: "(connection \<Rightarrow> bool) \<Rightarrow> uid \<Rightarrow> message_out \<Rightarrow> 'r live \<Rightarrow> 'r live" where
  "send_to_user alive user_uid payload s =
     send_each alive user_uid payload (connections_of user_uid (hub s)) s"

text \<open>
  The websocket endpoint until it waits for the client: it closes the socket with a code, or
  registers it.  What it does when the socket is gone is \<open>ws_closed\<close>; frames of the client
  change nothing.
\<close>

definition UNAUTHORIZED_CLOSE :: nat where
  "UNAUTHORIZED_CLOSE = 4401"

definition ws_conversations ::
    "'t jwt_lib \<Rightarrow> settings \<Rightarrow> instant \<Rightarrow> 't \<Rightarrow> connection \<Rightarrow> 'r live \<Rightarrow> (nat + uid) res \<times> 'r live" where
  "ws_conversations J cfg now token websocket s =
     (case decode_token J cfg now token of
        None \<Rightarrow> ret (Inl UNAUTHORIZED_CLOSE) s
      | Some payload \<Rightarrow>
          if cl_type payload \<noteq> Some ''access'' then ret (Inl UNAUTHORIZED_CLOSE) s
          else (case cl_sub payload of
                  None \<Rightarrow> raise key_error s
                | Some sub \<Rightarrow>
                    check (get_user_by_id sub (db s)) s (\<lambda>found.
                      case found of
                        None \<Rightarrow> ret (Inl UNAUTHORIZED_CLOSE) s
                      | Some u \<Rightarrow>
                          if \<not> u_is_active u then ret (Inl UNAUTHORIZED_CLOSE) s
                          else ret (Inr (u_uid u)) (s\<lparr>hub := connect (u_uid u) websocket (hub s)\<rparr>))))"

definition ws_closed :: "uid \<Rightarrow> connection \<Rightarrow> 'r live \<Rightarrow> 'r live" where
  "ws_closed user_uid websocket s = s\<lparr>hub := disconnect user_uid websocket (hub s)\<rparr>"

section \<open>Endpoints\<close>

definition get_conversation_or_404 :: "uid \<Rightarrow> 'r world \<Rightarrow> conversation res" where
  "get_conversation_or_404 conversation_uid w =
     bindE (get_conversation_by_uid conversation_uid w) (\<lambda>found.
       case found of None \<Rightarrow> Inl (app_error CONVERSATION_NOT_FOUND) | Some c \<Rightarrow> Inr c)"

definition get_active_participant_or_404 ::
    "user res \<Rightarrow> uid \<Rightarrow> 'r world \<Rightarrow> (user \<times> conversation \<times> participant) res" where
  "get_active_participant_or_404 caller conversation_uid w =
     bindE (get_conversation_or_404 conversation_uid w) (\<lambda>c.
     bindE caller (\<lambda>u.
     bindE (get_active_participant (c_uid c) (u_uid u) w) (\<lambda>found.
       case found of
         None \<Rightarrow> Inl (app_error CONVERSATION_NOT_FOUND) | Some p \<Rightarrow> Inr (u, c, p))))"

record conversation_detail =
  cd_uid :: uid
  cd_type :: conversation_type
  cd_name :: "string option"
  cd_participant_uids :: "uid list"
  cd_created_at :: instant
  cd_updated_at :: instant

definition to_detail :: "conversation \<Rightarrow> 'r world \<Rightarrow> conversation_detail" where
  "to_detail c w =
     \<lparr>cd_uid = c_uid c, cd_type = c_type c, cd_name = c_name c,
      cd_participant_uids = list_active_participant_uids (c_uid c) w,
      cd_created_at = c_created_at c, cd_updated_at = c_updated_at c\<rparr>"

record conversation_create =
  cc_type :: conversation_type
  cc_participant_uids :: "uid list"
  cc_name :: "string option"

definition valid_conversation_create :: "conversation_create \<Rightarrow> bool" where
  "valid_conversation_create payload \<longleftrightarrow> cc_participant_uids payload \<noteq> []
     \<and> (case cc_name payload of None \<Rightarrow> True | Some n \<Rightarrow> str_len n \<le> 100)"

fun users_exist :: "uid list \<Rightarrow> 'r world \<Rightarrow> unit res" where
  "users_exist [] w = Inr ()"
| "users_exist (uid # uids) w =
     bindE (get_user_by_id uid w) (\<lambda>found.
       if found = None then Inl (app_error USER_NOT_FOUND) else users_exist uids w)"

definition open_conversation ::
    "uid \<Rightarrow> instant \<Rightarrow> user \<Rightarrow> conversation_create \<Rightarrow> 'r world \<Rightarrow> conversation res \<times> 'r world" where
  "open_conversation fresh now u payload w =
     (if cc_type payload = DIRECT
      then (case cc_participant_uids payload of
              [target_uid] \<Rightarrow>
                check (users_exist [target_uid] w) w (\<lambda>_.
                  get_or_create_direct_conversation fresh now (u_uid u) target_uid w)
            | _ \<Rightarrow> raise (app_error VALIDATION_ERROR) w)
      else check (users_exist (cc_participant_uids payload) w) w (\<lambda>_.
             create_group_conversation fresh now (u_uid u) (cc_participant_uids payload)
               (cc_name payload) w))"

definition create_conversation ::
    "uid \<Rightarrow> instant \<Rightarrow> user res \<Rightarrow> conversation_create \<Rightarrow> 'r world \<Rightarrow> conversation_detail res \<times> 'r world" where
  "create_conversation fresh now caller payload w =
     check caller w (\<lambda>u.
       if \<not> valid_conversation_create payload then raise RequestValidationError w
       else bindR (open_conversation fresh now u payload w) (\<lambda>c w'. ret (to_detail c w') w'))"

record conversation_list_item =
  ci_uid :: uid
  ci_conversation_type :: conversation_type
  ci_name :: "string option"
  ci_last_message_preview :: "string option"
  ci_last_message_at :: "instant option"
  ci_unread_count :: nat
  ci_updated_at :: instant

definition list_conversations :: "user res \<Rightarrow> int \<Rightarrow> int \<Rightarrow> 'r world \<Rightarrow> conversation_list_item list res" where
  "list_conversations caller offset limit w =
     bindE caller (\<lambda>u.
     bindE (paging_query offset limit) (\<lambda>(o', l).
       let rows = list_conversations_for_user (u_uid u) o' l w;
           last_messages = map_of (get_last_messages (map (\<lambda>(c, p). c_uid c) rows) w);
           unread_counts = map_of (get_unread_counts (u_uid u) (map snd rows) w)
       in Inr (map (\<lambda>(c, p). let m = last_messages (c_uid c) in
            \<lparr>ci_uid = c_uid c, ci_conversation_type = c_type c, ci_name = c_name c,
             ci_last_message_preview = map_option m_content m,
             ci_last_message_at = map_option m_created_at m,
             ci_unread_count = (case unread_counts (c_uid c) of None \<Rightarrow> 0 | Some n \<Rightarrow> n),
             ci_updated_at = c_updated_at c\<rparr>) rows)))"

definition get_conversation :: "user res \<Rightarrow> uid \<Rightarrow> 'r world \<Rightarrow> conversation_detail res" where
  "get_conversation caller conversation_uid w =
     bindE (get_active_participant_or_404 caller conversation_uid w) (\<lambda>(u, c, p). Inr (to_detail c w))"

definition list_messages_endpoint ::
    "message_codec \<Rightarrow> user res \<Rightarrow> uid \<Rightarrow> string option \<Rightarrow> int \<Rightarrow> 'r world
       \<Rightarrow> (message_out, string) page res" where
  "list_messages_endpoint codec caller conversation_uid cursor limit w =
     bindE (get_active_participant_or_404 caller conversation_uid w) (\<lambda>(u, c, p).
       if limit < 1 \<or> 50 < limit then Inl RequestValidationError
       else bindE (list_messages codec (c_uid c) cursor (nat limit) w)
              (\<lambda>(rows, next, has_more). Inr (map message_out_of rows, next, has_more)))"

text \<open>A step on the database alone.\<close>

definition in_db :: "('r world \<Rightarrow> 'a res \<times> 'r world) \<Rightarrow> 'r live \<Rightarrow> 'a res \<times> 'r live" where
  "in_db f s = (case f (db s) of (r, w) \<Rightarrow> (r, s\<lparr>db := w\<rparr>))"

definition post_message ::
    "(connection \<Rightarrow> bool) \<Rightarrow> uid \<Rightarrow> instant \<Rightarrow> user \<Rightarrow> conversation \<Rightarrow> string \<Rightarrow> 'r live
       \<Rightarrow> message_out res \<times> 'r live" where
  "post_message alive fresh now u c content s =
     (let participant_uids = list_active_participant_uids (c_uid c) (db s);
          other_uids = filter (\<lambda>uid. uid \<noteq> u_uid u) participant_uids
      in if c_type c = DIRECT \<and> other_uids \<noteq> [] \<and> has_block_between (u_uid u) (hd other_uids) (db s)
         then raise (app_error USER_BLOCKED) s
         else bindR (in_db (create_message fresh now c (u_uid u) content) s) (\<lambda>m s.
                let out = message_out_of m
                in ret out (fold (\<lambda>uid. send_to_user alive uid out) other_uids s)))"

definition send_message ::
    "(connection \<Rightarrow> bool) \<Rightarrow> 'r redis_client option \<Rightarrow> uid \<Rightarrow> instant \<Rightarrow> user option res \<Rightarrow> string option
       \<Rightarrow> uid \<Rightarrow> string \<Rightarrow> 'r live \<Rightarrow> message_out res \<times> 'r live" where
  "send_message alive client fresh now visitor client_host conversation_uid content s =
     bindR (in_db (rate_limited client ''dm_message_send'' 60 60 visitor client_host) s) (\<lambda>_ s.
     check (get_active_participant_or_404 (login_required visitor) conversation_uid (db s)) s (\<lambda>(u, c, p).
       if str_len content < 1 \<or> 4000 < str_len content then raise RequestValidationError s
       else post_message alive fresh now u c content s))"

definition mark_conversation_read ::
    "instant \<Rightarrow> user res \<Rightarrow> uid \<Rightarrow> 'r world \<Rightarrow> unit res \<times> 'r world" where
  "mark_conversation_read now caller conversation_uid w =
     check (get_active_participant_or_404 caller conversation_uid w) w (\<lambda>(u, c, p).
       ret () (mark_read now p w))"

definition delete_message ::
    "instant \<Rightarrow> user res \<Rightarrow> uid \<Rightarrow> uid \<Rightarrow> 'r world \<Rightarrow> unit res \<times> 'r world" where
  "delete_message now caller conversation_uid message_uid w =
     check (get_active_participant_or_404 caller conversation_uid w) w (\<lambda>(u, c, p).
     check (get_message_by_uid message_uid w) w (\<lambda>found.
       case found of
         None \<Rightarrow> raise (app_error MESSAGE_NOT_FOUND) w
       | Some m \<Rightarrow>
           if m_conversation_uid m \<noteq> c_uid c \<or> m_deleted_at m \<noteq> None
           then raise (app_error MESSAGE_NOT_FOUND) w
           else if m_sender_uid m \<noteq> u_uid u then raise (app_error FORBIDDEN) w
           else ret () (soft_delete_message now m w)))"

definition block_user_endpoint ::
    "instant \<Rightarrow> user res \<Rightarrow> uid \<Rightarrow> 'r world \<Rightarrow> unit res \<times> 'r world" where
  "block_user_endpoint now caller user_uid w =
     check caller w (\<lambda>u.
       if user_uid = u_uid u then raise (app_error VALIDATION_ERROR) w
       else check (users_exist [user_uid] w) w (\<lambda>_.
              bindR (block_user now (u_uid u) user_uid w) (\<lambda>_ w'. ret () w')))"

definition unblock_user_endpoint :: "user res \<Rightarrow> uid \<Rightarrow> 'r world \<Rightarrow> unit res \<times> 'r world" where
  "unblock_user_endpoint caller user_uid w =
     check caller w (\<lambda>u. unblock_user (u_uid u) user_uid w)"

section \<open>The requests about conversations\<close>

datatype chat_request =
    Create_Conversation uid conversation_create
  | Send_Message uid uid string
  | Mark_Read uid
  | Delete_Message uid uid
  | Block_User uid
  | Unblock_User uid
  | Disconnected uid connection

fun run_chat_request ::
    "(connection \<Rightarrow> bool) \<Rightarrow> 'r redis_client option \<Rightarrow> instant \<Rightarrow> user option res \<Rightarrow> string option
       \<Rightarrow> chat_request \<Rightarrow> 'r live \<Rightarrow> 'r live" where
  "run_chat_request alive client now visitor host (Create_Conversation fresh payload) s =
     snd (in_db (create_conversation fresh now (login_required visitor) payload) s)"
| "run_chat_request alive client now visitor host (Send_Message fresh conversation_uid content) s =
     snd (send_message alive client fresh now visitor host conversation_uid content s)"
| "run_chat_request alive client now visitor host (Mark_Read conversation_uid) s =
     snd (in_db (mark_conversation_read now (login_required visitor) conversation_uid) s)"
| "run_chat_request alive client now visitor host (Delete_Message conversation_uid message_uid) s =
     snd (in_db (delete_message now (login_required visitor) conversation_uid message_uid) s)"
| "run_chat_request alive client now visitor host (Block_User uid) s =
     snd (in_db (block_user_endpoint now (login_required visitor) uid) s)"
| "run_chat_request alive client now visitor host (Unblock_User uid) s =
     snd (in_db (unblock_user_endpoint (login_required visitor) uid) s)"
| "run_chat_request alive client now visitor host (Disconnected uid c) s = ws_closed uid c s"

text \<open>
  A step is a request run to its end, a socket that asks to be connected, or anything that
  leaves the three tables of the conversations alone.
\<close>

inductive chat_step :: "'t jwt_lib \<Rightarrow> 'r live \<Rightarrow> 'r live \<Rightarrow> bool" for J where
  request: "chat_step J s (run_chat_request alive client now visitor host req s)"
| socket: "chat_step J s (snd (ws_conversations J cfg now token websocket s))"
| elsewhere: "conversations (db t) = conversations (db s) \<Longrightarrow> participants (db t) = participants (db s) \<Longrightarrow>
     messages (db t) = messages (db s) \<Longrightarrow> chat_step J s t"

definition chat_init :: "'r live \<Rightarrow> bool" where
  "chat_init s \<longleftrightarrow> conversations (db s) = [] \<and> participants (db s) = [] \<and> messages (db s) = []"

text \<open>
  The invariant looks at the kind of each conversation (\<open>heads\<close>), at who takes part (\<open>seats\<close>) and
  at the keys of the messages.
\<close>

definition heads :: "'r world \<Rightarrow> (uid \<times> conversation_type) list" where
  "heads w = map (\<lambda>c. (c_uid c, c_type c)) (conversations w)"

definition seats :: "'r world \<Rightarrow> (uid \<times> uid) list" where
  "seats w = map participant_key (participants w)"

definition parties :: "uid \<Rightarrow> (uid \<times> uid) list \<Rightarrow> uid list" where
  "parties k ss = map snd (filter (\<lambda>x. fst x = k) ss)"

definition chat_ok :: "(uid \<times> conversation_type) list \<Rightarrow> (uid \<times> uid) list \<Rightarrow> uid list \<Rightarrow> bool" where
  "chat_ok hs ss ms \<longleftrightarrow> distinct (map fst hs) \<and> distinct ss \<and> distinct ms \<and> fst ` set ss \<subseteq> fst ` set hs
     \<and> (\<forall>k. (k, DIRECT) \<in> set hs \<longrightarrow> (\<exists>a b. a \<noteq> b \<and> parties k ss = [a, b]))
     \<and> (\<forall>k k'. (k, DIRECT) \<in> set hs \<longrightarrow> (k', DIRECT) \<in> set hs \<longrightarrow>
          set (parties k ss) = set (parties k' ss) \<longrightarrow> k = k')"

definition conversations_ok :: "'r world \<Rightarrow> bool" where
  "conversations_ok w \<longleftrightarrow> chat_ok (heads w) (seats w) (map m_uid (messages w))"

lemma concat_map_if_key:
  assumes "unique_key key rows"
  shows "concat (map (\<lambda>p. if key p = k \<and> Q then xs else []) rows)
     = (if k \<in> key ` set rows \<and> Q then xs else [])"
  using assms
proof (induction rows)
  case (Cons p rows)
  then have IH: "concat (map (\<lambda>p. if key p = k \<and> Q then xs else []) rows)
      = (if k \<in> key ` set rows \<and> Q then xs else [])"
    by (simp add: unique_key_def)
  have "key p = k \<Longrightarrow> k \<notin> key ` set rows" using Cons.prems by (auto simp: unique_key_def)
  with IH show ?case by auto
qed simp

lemma concat_map_if: "concat (map (\<lambda>x. if P x then [x] else []) xs) = filter P xs"
  by (induction xs) auto

text \<open>On a unique key the joins select each conversation at most once.\<close>

lemma direct_between_eq:
  assumes "unique_key participant_key (participants w)"
  shows "direct_between a b w = filter (\<lambda>c. c_type c = DIRECT \<and> (c_uid c, a) \<in> set (seats w)
     \<and> (c_uid c, b) \<in> set (seats w)) (conversations w)"
proof -
  have "concat (map (\<lambda>p1. concat (map (\<lambda>p2. if cp_conversation_uid p1 = c_uid c \<and> cp_conversation_uid p2 = c_uid c
      \<and> c_type c = DIRECT \<and> cp_user_uid p1 = a \<and> cp_user_uid p2 = b then [c] else []) (participants w)))
      (participants w)) =
    (if c_type c = DIRECT \<and> (c_uid c, a) \<in> set (seats w) \<and> (c_uid c, b) \<in> set (seats w) then [c] else [])"
    for c
  proof -
    have inner: "concat (map (\<lambda>p2. if cp_conversation_uid p1 = c_uid c \<and> cp_conversation_uid p2 = c_uid c
        \<and> c_type c = DIRECT \<and> cp_user_uid p1 = a \<and> cp_user_uid p2 = b then [c] else []) (participants w))
      = (if participant_key p1 = (c_uid c, a) \<and> (c_type c = DIRECT \<and> (c_uid c, b) \<in> set (seats w)) then [c] else [])"
      for p1
      using concat_map_if_key [OF assms, of "(c_uid c, b)"
          "c_type c = DIRECT \<and> cp_conversation_uid p1 = c_uid c \<and> cp_user_uid p1 = a" "[c]"]
      by (simp add: participant_key_def seats_def conj_ac cong: if_cong)
    show ?thesis
      unfolding inner using concat_map_if_key [OF assms, of "(c_uid c, a)"
          "c_type c = DIRECT \<and> (c_uid c, b) \<in> set (seats w)" "[c]"]
      by (simp add: seats_def conj_ac cong: if_cong)
  qed
  then have "direct_between a b w = concat (map (\<lambda>c. if c_type c = DIRECT \<and> (c_uid c, a) \<in> set (seats w)
      \<and> (c_uid c, b) \<in> set (seats w) then [c] else []) (conversations w))"
    unfolding direct_between_def by (intro arg_cong [where f = concat] map_cong refl)
  then show ?thesis by (simp only: concat_map_if)
qed

lemma mem_parties: "u \<in> set (parties k ss) \<longleftrightarrow> (k, u) \<in> set ss"
  by (force simp: parties_def)

lemma two_parties: "a \<noteq> b \<Longrightarrow> x \<noteq> y \<Longrightarrow> a \<in> {x, y} \<Longrightarrow> b \<in> {x, y} \<Longrightarrow> {a, b} = {x, y}"
  by auto

text \<open>Two users have at most one DIRECT conversation, which is nobody else's.\<close>

lemma direct_of_pair:
  assumes "chat_ok hs ss ms" and "a \<noteq> b" and "(k, DIRECT) \<in> set hs" and "(k, a) \<in> set ss" "(k, b) \<in> set ss"
  shows "set (parties k ss) = {a, b}"
proof -
  obtain x y where xy: "x \<noteq> y" "parties k ss = [x, y]"
    using assms(1,3) unfolding chat_ok_def by blast
  have "{a, b} \<subseteq> {x, y}" using assms(4,5) mem_parties [of _ k ss] by (simp add: xy)
  then show ?thesis using xy assms(2) by auto
qed

lemma seat_mem: "p \<in> set (participants w) \<Longrightarrow> (cp_conversation_uid p, cp_user_uid p) \<in> set (seats w)"
  by (auto simp: seats_def participant_key_def)

lemma head_mem: "c \<in> set (conversations w) \<Longrightarrow> c_type c = t \<Longrightarrow> (c_uid c, t) \<in> set (heads w)"
  by (auto simp: heads_def)

lemma chat_ok_same: "chat_ok hs ss ms \<Longrightarrow> (k, DIRECT) \<in> set hs \<Longrightarrow> (k', DIRECT) \<in> set hs \<Longrightarrow>
    set (parties k ss) = set (parties k' ss) \<Longrightarrow> k = k'"
  by (simp add: chat_ok_def)

lemma conversations_ok_keys:
  assumes "conversations_ok w"
  shows "unique_key participant_key (participants w)" "unique_key c_uid (conversations w)"
    "unique_key m_uid (messages w)"
  using assms by (simp_all add: conversations_ok_def chat_ok_def seats_def heads_def unique_key_def comp_def)

lemma all_same_filter:
  assumes "distinct xs" and "\<And>x y. x \<in> set xs \<Longrightarrow> y \<in> set xs \<Longrightarrow> P x \<Longrightarrow> P y \<Longrightarrow> x = y"
  shows "\<exists>x. filter P xs = [] \<or> filter P xs = [x]"
  using assms
proof (induction xs)
  case (Cons x xs)
  show ?case
  proof (cases "P x")
    case True
    then have "filter P xs = []" using Cons.prems by (auto simp: filter_empty_conv)
    with True show ?thesis by simp
  next
    case False
    have "\<exists>y. filter P xs = [] \<or> filter P xs = [y]"
      by (rule Cons.IH) (use Cons.prems in auto)
    with False show ?thesis by simp
  qed
qed simp

lemma direct_between_ok:
  assumes ok: "conversations_ok w" and "a \<noteq> b"
  shows "\<exists>c. direct_between a b w = [] \<or> direct_between a b w = [c]"
proof -
  note keys = conversations_ok_keys [OF ok]
  show ?thesis
    unfolding direct_between_eq [OF keys(1)]
  proof (rule all_same_filter)
    show "distinct (conversations w)" using keys(2) by (simp add: unique_key_def distinct_map)
  next
    fix c c'
    assume c: "c \<in> set (conversations w)" "c' \<in> set (conversations w)"
      "c_type c = DIRECT \<and> (c_uid c, a) \<in> set (seats w) \<and> (c_uid c, b) \<in> set (seats w)"
      "c_type c' = DIRECT \<and> (c_uid c', a) \<in> set (seats w) \<and> (c_uid c', b) \<in> set (seats w)"
    note chat = ok [unfolded conversations_ok_def]
    have d: "(c_uid c, DIRECT) \<in> set (heads w)" "(c_uid c', DIRECT) \<in> set (heads w)"
      using c by (auto intro: head_mem)
    have "set (parties (c_uid c) (seats w)) = {a, b}" "set (parties (c_uid c') (seats w)) = {a, b}"
      using direct_of_pair [OF chat assms(2) d(1)] direct_of_pair [OF chat assms(2) d(2)] c by simp_all
    then have "c_uid c = c_uid c'" using chat_ok_same [OF chat d] by simp
    then show "c = c'" using unique_key_eq [OF keys(2)] c by blast
  qed
qed

text \<open>What a new conversation does to the invariant.\<close>

lemma parties_fresh: "k \<notin> fst ` set ss \<Longrightarrow> parties k ss = []"
  by (auto simp: parties_def filter_empty_conv)

lemma parties_append: "parties k (ss @ ss') = parties k ss @ parties k ss'"
  by (simp add: parties_def)

lemma parties_seat: "parties k (map (Pair k') us) = (if k = k' then us else [])"
  by (auto simp: parties_def filter_map comp_def)

lemma distinct_seats:
  assumes "k \<notin> fst ` set ss" and "distinct ss" and "distinct us"
  shows "distinct (ss @ map (Pair k) us)"
proof -
  have "fst x \<noteq> k" if "x \<in> set ss" for x
    using assms(1) imageI [OF that, of fst] by metis
  then have "x \<notin> set (map (Pair k) us)" if "x \<in> set ss" for x
    using that by fastforce
  moreover have "distinct (map (Pair k) us)"
    using assms(3) by (simp add: distinct_map inj_on_def)
  ultimately show ?thesis using assms(2) by (auto simp only: distinct_append)
qed

lemma chat_ok_create:
  assumes ok: "chat_ok hs ss ms" and fresh: "k \<notin> fst ` set hs" and us: "distinct us"
    and direct: "ty = DIRECT \<Longrightarrow> \<exists>a b. us = [a, b] \<and> a \<noteq> b
        \<and> (\<forall>j. (j, DIRECT) \<in> set hs \<longrightarrow> \<not> ((j, a) \<in> set ss \<and> (j, b) \<in> set ss))"
  shows "chat_ok (hs @ [(k, ty)]) (ss @ map (Pair k) us) ms"
proof -
  have none: "k \<notin> fst ` set ss" using ok fresh unfolding chat_ok_def by blast
  have old: "j \<noteq> k" if "(j, t) \<in> set hs" for j t using fresh that by force
  have ps: "parties j (ss @ map (Pair k) us) = (if j = k then us else parties j ss)" for j
    using parties_fresh [OF none] by (simp add: parties_append parties_seat)
  have other: "set (parties j ss) \<noteq> set us" if "ty = DIRECT" "(j, DIRECT) \<in> set hs" for j
  proof -
    have "\<exists>a b. us = [a, b] \<and> \<not> ((j, a) \<in> set ss \<and> (j, b) \<in> set ss)"
      using direct that by blast
    then show ?thesis using mem_parties [of _ j ss] by auto
  qed
  have new: "(j, DIRECT) \<in> set (hs @ [(k, ty)]) \<Longrightarrow> (j, DIRECT) \<in> set hs \<and> j \<noteq> k \<or> j = k \<and> ty = DIRECT" for j
    using old [of j DIRECT] by auto
  show ?thesis
    unfolding chat_ok_def ps
  proof (intro conjI allI impI)
    show "distinct (map fst (hs @ [(k, ty)]))" "distinct ms"
      using ok fresh by (simp_all add: chat_ok_def)
    show "distinct (ss @ map (Pair k) us)"
      using distinct_seats [OF none _ us] ok by (simp add: chat_ok_def)
    have "fst ` set ss \<subseteq> fst ` set hs" using ok by (simp add: chat_ok_def)
    then show "fst ` set (ss @ map (Pair k) us) \<subseteq> fst ` set (hs @ [(k, ty)])" by force
  next
    fix j
    assume "(j, DIRECT) \<in> set (hs @ [(k, ty)])"
    from new [OF this] show "\<exists>a b. a \<noteq> b \<and> (if j = k then us else parties j ss) = [a, b]"
    proof (elim disjE conjE)
      assume "(j, DIRECT) \<in> set hs" "j \<noteq> k"
      with ok show ?thesis by (simp add: chat_ok_def)
    next
      assume "j = k" "ty = DIRECT"
      with direct show ?thesis by auto
    qed
  next
    fix i j
    assume "(i, DIRECT) \<in> set (hs @ [(k, ty)])" "(j, DIRECT) \<in> set (hs @ [(k, ty)])"
      "set (if i = k then us else parties i ss) = set (if j = k then us else parties j ss)"
    with new [OF this(1)] new [OF this(2)] show "i = j"
      using other [of i] other [of j] chat_ok_same [OF ok, of i j] by (elim disjE conjE) simp_all
  qed
qed

text \<open>What each request does to it.\<close>

lemma conversations_ok_cong:
  "heads w' = heads w \<Longrightarrow> seats w' = seats w \<Longrightarrow> map m_uid (messages w') = map m_uid (messages w) \<Longrightarrow>
     conversations_ok w \<Longrightarrow> conversations_ok w'"
  by (simp add: conversations_ok_def)

lemma conversations_ok_tables:
  "conversations w' = conversations w \<Longrightarrow> participants w' = participants w \<Longrightarrow> messages w' = messages w \<Longrightarrow>
     conversations_ok w \<Longrightarrow> conversations_ok w'"
  by (simp add: conversations_ok_def heads_def seats_def)

lemma touched_heads: "heads (w\<lparr>messages := ms, conversations := update_where P (\<lambda>x. x\<lparr>c_updated_at := t\<rparr>) (conversations w)\<rparr>)
    = heads w"
  by (auto simp: heads_def update_where_def)

lemma insert_conversation_rows:
  assumes "insert_conversation c us now w = Some w'"
  shows "heads w' = heads w @ [(c_uid c, c_type c)]" "seats w' = seats w @ map (Pair (c_uid c)) us"
    "messages w' = messages w" "c_uid c \<notin> fst ` set (heads w)" "distinct us"
    "conversations w' = conversations w @ [c]" "user_blocks w' = user_blocks w"
  using assms
  by (auto simp: insert_conversation_def heads_def seats_def new_participant_def participant_key_def
      comp_def split: if_splits)

lemma create_with_ok:
  assumes ok: "conversations_ok w"
    and direct: "ty = DIRECT \<Longrightarrow> \<exists>a b. us = [a, b] \<and> a \<noteq> b \<and> direct_between a b w = []"
  shows "conversations_ok (snd (create_with fresh now ty name us w))"
proof (cases "insert_conversation (new_conversation fresh now ty name) us now w")
  case None
  with ok show ?thesis by (simp add: create_with_def)
next
  case (Some w')
  note rows = insert_conversation_rows [OF Some]
  have "\<exists>a b. us = [a, b] \<and> a \<noteq> b \<and> (\<forall>j. (j, DIRECT) \<in> set (heads w) \<longrightarrow>
      \<not> ((j, a) \<in> set (seats w) \<and> (j, b) \<in> set (seats w)))" if ty: "ty = DIRECT"
  proof -
    obtain a b where ab: "us = [a, b]" "a \<noteq> b" "direct_between a b w = []"
      using direct [OF ty] by blast
    then have "\<forall>c \<in> set (conversations w). \<not> (c_type c = DIRECT \<and> (c_uid c, a) \<in> set (seats w)
        \<and> (c_uid c, b) \<in> set (seats w))"
      by (simp add: direct_between_eq [OF conversations_ok_keys(1) [OF ok]] filter_empty_conv)
    with ab show ?thesis by (auto simp: heads_def)
  qed
  then have "chat_ok (heads w @ [(fresh, ty)]) (seats w @ map (Pair fresh) us) (map m_uid (messages w))"
    using rows ok
    by (intro chat_ok_create) (simp_all add: conversations_ok_def new_conversation_def)
  with Some rows show ?thesis
    by (simp add: create_with_def Let_def conversations_ok_def new_conversation_def)
qed

lemma find_direct_None:
  "find_direct a b w = Inr None \<Longrightarrow> a \<noteq> b \<and> direct_between a b w = []"
  by (auto simp: find_direct_def scalar_one_or_none_None_iff split: if_splits)

lemma get_or_create_ok:
  assumes "conversations_ok w"
  shows "conversations_ok (snd (get_or_create_direct_conversation fresh now a b w))"
  unfolding get_or_create_direct_conversation_def
proof (rule check_state [where P = conversations_ok, OF assms])
  fix found
  assume "find_direct a b w = Inr found"
  then show "conversations_ok (snd (case found of None \<Rightarrow> create_with fresh now DIRECT None [a, b] w
      | Some c \<Rightarrow> ret c w))"
    using assms by (cases found) (auto intro!: create_with_ok dest: find_direct_None)
qed

lemma open_conversation_ok:
  assumes "conversations_ok w"
  shows "conversations_ok (snd (open_conversation fresh now u payload w))"
proof -
  have group: "conversations_ok (snd (create_group_conversation fresh now k us name w))" for k us name
    unfolding create_group_conversation_def using assms by (intro create_with_ok) simp_all
  show ?thesis
    unfolding open_conversation_def using assms group
    by (auto simp del: users_exist.simps split: list.split
        intro!: check_state [where P = conversations_ok] get_or_create_ok)
qed

lemma create_conversation_ok:
  assumes "conversations_ok w"
  shows "conversations_ok (snd (create_conversation fresh now caller payload w))"
  unfolding create_conversation_def
proof (rule check_state [where P = conversations_ok, OF assms])
  fix u
  show "conversations_ok (snd (if \<not> valid_conversation_create payload then raise RequestValidationError w
      else bindR (open_conversation fresh now u payload w) (\<lambda>c w'. ret (to_detail c w') w')))"
    using assms by (auto intro!: bindR_state [where P = conversations_ok] open_conversation_ok)
qed

lemma send_each_db [simp]: "db (send_each alive uid out cs s) = db s"
  by (induction cs arbitrary: s) simp_all

lemma send_to_user_db [simp]: "db (send_to_user alive uid out s) = db s"
  by (simp add: send_to_user_def)

lemma fold_send_db [simp]: "db (fold (\<lambda>uid. send_to_user alive uid out) us s) = db s"
  by (induction us arbitrary: s) simp_all

lemma in_db_simps [simp]:
  "fst (in_db f s) = fst (f (db s))" "snd (in_db f s) = s\<lparr>db := snd (f (db s))\<rparr>"
  by (simp_all add: in_db_def split: prod.split)

lemma create_message_ok:
  assumes "conversations_ok w"
  shows "conversations_ok (snd (create_message fresh now c u content w))"
proof (cases "insert_row m_uid \<lparr>m_uid = fresh, m_conversation_uid = c_uid c, m_sender_uid = u,
               m_content = content, m_deleted_at = None, m_created_at = now\<rparr> (messages w)")
  case None
  with assms show ?thesis by (simp add: create_message_def)
next
  case (Some rows)
  then have "chat_ok (heads w) (seats w) (map m_uid rows)"
    using assms by (auto simp: conversations_ok_def chat_ok_def insert_row_Some)
  with Some show ?thesis
    by (simp add: create_message_def conversations_ok_def touched_heads seats_def)
qed

lemma rate_limited_conversations_ok:
  assumes "conversations_ok w"
  shows "conversations_ok (snd (rate_limited client scope limit secs visitor host w))"
proof -
  obtain r where "snd (rate_limited client scope limit secs visitor host w) = w\<lparr>redis := r\<rparr>"
    by (rule exE [OF rate_limited_redis])
  with assms show ?thesis by (auto intro: conversations_ok_tables)
qed

lemma post_message_ok:
  assumes "conversations_ok (db s)"
  shows "conversations_ok (db (snd (post_message alive fresh now u c content s)))"
  unfolding post_message_def Let_def
  using assms by (auto intro!: bindR_state [where P = "\<lambda>s. conversations_ok (db s)"] create_message_ok)

lemma send_message_ok:
  assumes "conversations_ok (db s)"
  shows "conversations_ok (db (snd (send_message alive client fresh now visitor host k content s)))"
  unfolding send_message_def
  using assms
  by (auto intro!: bindR_state [where P = "\<lambda>s. conversations_ok (db s)"]
      check_state [where P = "\<lambda>s. conversations_ok (db s)"] rate_limited_conversations_ok post_message_ok)

lemma mark_conversation_read_ok:
  assumes "conversations_ok w"
  shows "conversations_ok (snd (mark_conversation_read now caller k w))"
proof -
  have "conversations_ok (mark_read now p w)" for p
    by (rule conversations_ok_cong [OF _ _ _ assms])
      (simp_all add: mark_read_def heads_def seats_def map_key_update_where participant_key_def)
  with assms show ?thesis
    unfolding mark_conversation_read_def by (auto intro!: check_state [where P = conversations_ok])
qed

lemma delete_message_ok:
  assumes "conversations_ok w"
  shows "conversations_ok (snd (delete_message now caller k j w))"
proof -
  have "conversations_ok (soft_delete_message now m w)" for m
    by (rule conversations_ok_cong [OF _ _ _ assms])
      (simp_all add: soft_delete_message_def heads_def seats_def map_key_update_where)
  with assms show ?thesis
    unfolding delete_message_def
    by (auto intro!: check_state [where P = conversations_ok] split: option.split)
qed

lemma block_tables:
  "conversations (snd (block_user now a b w)) = conversations w"
  "participants (snd (block_user now a b w)) = participants w"
  "messages (snd (block_user now a b w)) = messages w"
  "conversations (snd (unblock_user a b w)) = conversations w"
  "participants (snd (unblock_user a b w)) = participants w"
  "messages (snd (unblock_user a b w)) = messages w"
  by (auto simp: block_user_def unblock_user_def insert_block_def check_def Let_def split: sum.split option.split)

lemma block_user_ok:
  assumes "conversations_ok w"
  shows "conversations_ok (snd (block_user now a b w))" "conversations_ok (snd (unblock_user a b w))"
  by (rule conversations_ok_tables [OF _ _ _ assms]; simp add: block_tables)+

lemma block_endpoints_ok:
  assumes "conversations_ok w"
  shows "conversations_ok (snd (block_user_endpoint now caller uid w))"
    "conversations_ok (snd (unblock_user_endpoint caller uid w))"
  unfolding block_user_endpoint_def unblock_user_endpoint_def using assms
  by (auto simp del: users_exist.simps intro!: check_state [where P = conversations_ok]
      bindR_state [where P = conversations_ok] block_user_ok)

lemma run_chat_request_ok:
  "conversations_ok (db s) \<Longrightarrow> conversations_ok (db (run_chat_request alive client now visitor host req s))"
  by (cases req)
    (simp_all add: create_conversation_ok send_message_ok mark_conversation_read_ok delete_message_ok
      block_endpoints_ok ws_closed_def)

lemma ws_conversations_db [simp]: "db (snd (ws_conversations J cfg now token c s)) = db s"
  by (auto simp: ws_conversations_def check_def split: option.split sum.split)

interpretation chat: step_system chat_init "chat_step J" "\<lambda>s. conversations_ok (db s)" for J
proof
  show "chat_init s \<Longrightarrow> conversations_ok (db s)" for s :: "'a live"
    by (simp add: chat_init_def conversations_ok_def chat_ok_def heads_def seats_def)
  show "conversations_ok (db s) \<Longrightarrow> chat_step J s t \<Longrightarrow> conversations_ok (db t)" for s t :: "'a live"
    by (erule chat_step.cases) (auto intro: run_chat_request_ok conversations_ok_tables)
qed

section \<open>One DIRECT conversation of two users\<close>

lemma direct_between_commute:
  "unique_key participant_key (participants w) \<Longrightarrow> direct_between a b w = direct_between b a w"
  by (simp add: direct_between_eq conj_ac)

lemma has_block_commute: "has_block_between a b w = has_block_between b a w"
  by (simp add: has_block_between_def disj_commute)

lemma has_block_cong: "user_blocks w' = user_blocks w \<Longrightarrow> has_block_between a b w' = has_block_between a b w"
  by (simp add: has_block_between_def)

lemma direct_between_mem:
  assumes ok: "conversations_ok w" and "a \<noteq> b" and "c \<in> set (conversations w)" "c_type c = DIRECT"
    and "(c_uid c, a) \<in> set (seats w)" "(c_uid c, b) \<in> set (seats w)"
  shows "direct_between a b w = [c]"
proof -
  have "c \<in> set (direct_between a b w)"
    using assms by (simp add: direct_between_eq conversations_ok_keys)
  with direct_between_ok [OF ok \<open>a \<noteq> b\<close>] show ?thesis by auto
qed

lemma get_or_create_found:
  assumes "a \<noteq> b" and "\<not> has_block_between a b w" and "direct_between a b w = [c]"
  shows "get_or_create_direct_conversation fresh now a b w = (Inr c, w)"
  using assms by (simp add: get_or_create_direct_conversation_def find_direct_def scalar_one_or_none_def)

lemma get_or_create_result:
  assumes ok: "conversations_ok w"
    and run: "get_or_create_direct_conversation fresh now a b w = (Inr c, w')"
  shows "a \<noteq> b \<and> \<not> has_block_between a b w' \<and> direct_between a b w' = [c]"
proof -
  obtain found where found: "find_direct a b w = Inr found"
      and rest: "(case found of Some c \<Rightarrow> ret c w | None \<Rightarrow> create_with fresh now DIRECT None [a, b] w) = (Inr c, w')"
    using run unfolding get_or_create_direct_conversation_def by (rule check_eq_InrD)
  have ab: "a \<noteq> b" "\<not> has_block_between a b w"
    using found by (auto simp: find_direct_def split: if_splits)
  show ?thesis
  proof (cases found)
    case (Some c')
    with found rest ab show ?thesis
      by (auto simp: find_direct_def scalar_one_or_none_Some_iff)
  next
    case None
    then have new: "c = new_conversation fresh now DIRECT None"
        "insert_conversation c [a, b] now w = Some w'"
      using rest by (auto simp: create_with_def Let_def split: option.splits)
    note rows = insert_conversation_rows [OF new(2)]
    have "conversations_ok w'"
      using get_or_create_ok [OF ok, of fresh now a b] run by simp
    then have "direct_between a b w' = [c]"
      using ab(1) rows new(1)
      by (intro direct_between_mem) (simp_all add: new_conversation_def)
    then show ?thesis using ab rows(7) has_block_cong by blast
  qed
qed

text \<open>
  C22: Two users share one DIRECT conversation.  After any sequence of requests, opening the
  conversation of two users never finds two of them, and what it answers is a DIRECT
  conversation of exactly these two users which the other user, opening it next, gets too, with
  nothing created a second time.
\<close>

theorem one_direct_conversation:
  assumes "chat_init s" and "(chat_step J)\<^sup>*\<^sup>* s t"
  shows "fst (get_or_create_direct_conversation fresh now a b (db t)) \<noteq> Inl multiple_results
    \<and> (\<forall>c w'. get_or_create_direct_conversation fresh now a b (db t) = (Inr c, w') \<longrightarrow>
          c \<in> set (conversations w') \<and> c_type c = DIRECT
          \<and> {u. \<exists>p \<in> set (participants w'). cp_conversation_uid p = c_uid c \<and> cp_user_uid p = u} = {a, b}
          \<and> get_or_create_direct_conversation fresh' now' b a w' = (Inr c, w'))"
proof (intro conjI allI impI)
  have ok: "conversations_ok (db t)" using chat.inv_reachable [OF assms] .
  show "fst (get_or_create_direct_conversation fresh now a b (db t)) \<noteq> Inl multiple_results"
    using direct_between_ok [OF ok, of a b]
    by (auto simp: get_or_create_direct_conversation_def find_direct_def scalar_one_or_none_def
        create_with_def check_def Let_def ret_def raise_def split: option.splits if_splits)
  fix c w'
  assume run: "get_or_create_direct_conversation fresh now a b (db t) = (Inr c, w')"
  have ok': "conversations_ok w'"
    using get_or_create_ok [OF ok, of fresh now a b] run by simp
  note keys = conversations_ok_keys [OF ok']
  have res: "a \<noteq> b" "\<not> has_block_between a b w'" "direct_between a b w' = [c]"
    using get_or_create_result [OF ok run] by simp_all
  have "c \<in> set (direct_between a b w')" by (simp add: res(3))
  then have c: "c \<in> set (conversations w')" "c_type c = DIRECT"
      "(c_uid c, a) \<in> set (seats w')" "(c_uid c, b) \<in> set (seats w')"
    by (simp_all add: direct_between_eq [OF keys(1)])
  then show "c \<in> set (conversations w')" "c_type c = DIRECT" by simp_all
  have "set (parties (c_uid c) (seats w')) = {a, b}"
    by (rule direct_of_pair [OF ok' [unfolded conversations_ok_def] res(1) head_mem [OF c(1,2)] c(3,4)])
  moreover have "u \<in> set (parties (c_uid c) (seats w')) \<longleftrightarrow>
      (\<exists>p \<in> set (participants w'). cp_conversation_uid p = c_uid c \<and> cp_user_uid p = u)" for u
    unfolding mem_parties by (force simp: seats_def participant_key_def)
  ultimately show "{u. \<exists>p \<in> set (participants w'). cp_conversation_uid p = c_uid c \<and> cp_user_uid p = u} = {a, b}"
    by blast
  show "get_or_create_direct_conversation fresh' now' b a w' = (Inr c, w')"
  proof (rule get_or_create_found)
    show "b \<noteq> a" using res(1) by simp
    show "\<not> has_block_between b a w'" using res(2) has_block_commute [of a b w'] by blast
    show "direct_between b a w' = [c]" using res(3) direct_between_commute [OF keys(1), of a b] by metis
  qed
qed

definition quiet :: "'r world \<Rightarrow> 'r live" where
  "quiet w = \<lparr>db = w, hub = Map.empty, wire = []\<rparr>"

lemma quiet_db [simp]: "db (quiet w) = w"
  by (simp add: quiet_def)

lemma one_direct_conversation_witness:
  "\<exists>c w. get_or_create_direct_conversation ''c'' 0 ''ann'' ''bob'' sample_accounts = (Inr c, w)
     \<and> get_or_create_direct_conversation ''d'' 5 ''bob'' ''ann'' w = (Inr c, w)"
proof -
  have "chat_init (quiet sample_accounts)"
    by (simp add: chat_init_def sample_accounts_def empty_world_def)
  note main = one_direct_conversation [OF this rtranclp.rtrancl_refl, of "''c''" 0 "''ann''" "''bob''" "''d''" 5]
  have "fst (get_or_create_direct_conversation ''c'' 0 ''ann'' ''bob'' sample_accounts)
      = Inr (new_conversation ''c'' 0 DIRECT None)"
    by (simp add: get_or_create_direct_conversation_def find_direct_def has_block_between_def
        direct_between_def scalar_one_or_none_def create_with_def insert_conversation_def
        new_conversation_def sample_accounts_def sample_user_def empty_world_def Let_def)
  then obtain w where "get_or_create_direct_conversation ''c'' 0 ''ann'' ''bob'' sample_accounts
      = (Inr (new_conversation ''c'' 0 DIRECT None), w)"
    by (metis prod.collapse)
  with main show ?thesis by auto
qed

text \<open>
  The requests are run to their end.  Two of them whose reads both come before either of their
  writes create two conversations, and from then on every request for the two users raises.
\<close>

definition both_opened :: "unit world" where
  "both_opened =
     (let w = snd (create_with ''c'' 0 DIRECT None [''ann'', ''bob''] sample_accounts)
      in snd (create_with ''d'' 0 DIRECT None [''bob'', ''ann''] w))"

lemma direct_conversation_race:
  "find_direct ''ann'' ''bob'' sample_accounts = Inr None"
  "find_direct ''bob'' ''ann'' sample_accounts = Inr None"
  "fst (get_or_create_direct_conversation ''e'' 1 ''ann'' ''bob'' both_opened) = Inl multiple_results"
  by code_simp+

section \<open>The history of a conversation\<close>

text \<open>What the JSON codec does: it reads back what it wrote, and writes no empty text.\<close>

definition message_codec_ok :: "message_codec \<Rightarrow> bool" where
  "message_codec_ok codec \<longleftrightarrow> (\<forall>p. decode_position codec (encode_position codec p) = Some p
     \<and> encode_position codec p \<noteq> [])"

definition reads_back :: "message_codec \<Rightarrow> message \<Rightarrow> bool" where
  "reads_back codec m \<longleftrightarrow> message_cursor codec m \<noteq> []
     \<and> decode_position codec (message_cursor codec m) = Some (message_position m)"

lemma reads_back_ok: "message_codec_ok codec \<Longrightarrow> reads_back codec m"
  by (simp add: message_codec_ok_def reads_back_def message_cursor_def encode_cursor_def message_position_def)

interpretation message_pager: keyset_pager "\<lambda>p q. q < p" message_position "reads_back codec"
    "\<lambda>rows. rev (sort_key message_position rows)" "message_cursor codec" "message_page codec"
  for codec
  by unfold_locales
    (auto simp: message_page_def truthy_def reads_back_def decode_cursor_def sort_key_strict_desc)

lemma page_ignores_newer:
  assumes "reads_back codec m" and "\<And>x. x \<in> set newer \<Longrightarrow> message_position m < message_position x"
  shows "message_page codec limit (rows @ newer) (Some (message_cursor codec m))
     = message_page codec limit rows (Some (message_cursor codec m))"
proof -
  have "filter (\<lambda>x. message_position x < message_position m) newer = []"
    using assms(2) by (fastforce simp: filter_empty_conv)
  then have "filter (\<lambda>x. message_position x < message_position m) (rev (sort_key message_position (rows @ newer)))
      = filter (\<lambda>x. message_position x < message_position m) (rev (sort_key message_position rows))"
    by (simp add: rev_filter [symmetric] filter_sort del: sort_key_simps)
  then show ?thesis
    by (simp only: message_pager.fetch_next [OF assms(1)])
qed

text \<open>
  C23: The history of a conversation.  A client that reads a conversation from its newest page
  on by following the cursors gets every message that was shown when it began, each once,
  newest first, and nothing else, also when messages are sent while it reads: \<open>w i\<close> is the
  database when the page number \<open>i\<close> is fetched.
\<close>

theorem message_history_complete:
  assumes "message_codec_ok codec" and "unique_key m_uid (messages (w 0))"
    and "0 < limit" and "length (filter (is_shown_in k) (messages (w 0))) \<le> n * limit" and "0 < n"
    and "\<And>i. \<exists>newer. messages (w i) = messages (w 0) @ newer
       \<and> (\<forall>x \<in> set newer. \<forall>m \<in> set (messages (w 0)). message_position m < message_position x)"
  shows "walk_changing (\<lambda>i c. list_messages codec k c limit (w i)) 0 n None
     = Inr (rev (sort_key message_position (filter (is_shown_in k) (messages (w 0)))))"
proof -
  let ?rows = "filter (is_shown_in k) (messages (w 0))"
  have "distinct (map message_position ?rows)"
  proof -
    have "distinct (map m_uid ?rows)" using assms(2) by (simp add: unique_key_def distinct_map_filter_rows)
    then have "distinct (map (snd \<circ> message_position) ?rows)"
      by (simp add: message_position_def comp_def)
    then show ?thesis by (metis distinct_map map_map)
  qed
  note distinct = this
  have later: "list_messages codec k (Some (message_cursor codec r)) limit (w i)
      = message_page codec limit ?rows (Some (message_cursor codec r))" if "r \<in> set ?rows" for i r
  proof -
    have r: "r \<in> set (messages (w 0))" using that by simp
    obtain newer where newer: "messages (w i) = messages (w 0) @ newer"
        "\<And>x. x \<in> set newer \<Longrightarrow> message_position r < message_position x"
      using assms(6) [of i] r by blast
    then show ?thesis
      using page_ignores_newer [OF reads_back_ok [OF assms(1)], of "filter (is_shown_in k) newer" r]
      by (simp add: list_messages_def)
  qed
  show ?thesis
  proof (rule message_pager.walk_changing_complete [OF distinct _ assms(3,4,5)])
    show "reads_back codec r" for r by (rule reads_back_ok [OF assms(1)])
    show "list_messages codec k None limit (w 0) = message_page codec limit ?rows None"
      by (simp only: list_messages_def)
    show "r \<in> set ?rows \<Longrightarrow> list_messages codec k (Some (message_cursor codec r)) limit (w i)
        = message_page codec limit ?rows (Some (message_cursor codec r))" for i r
      by (rule later)
  qed
qed

text \<open>A codec that satisfies the law on the messages of the sample.\<close>

definition sample_message :: "uid \<Rightarrow> instant \<Rightarrow> message" where
  "sample_message uid t =
     \<lparr>m_uid = uid, m_conversation_uid = ''c'', m_sender_uid = ''ann'', m_content = ''hi'',
      m_deleted_at = None, m_created_at = t\<rparr>"

fun digit_string :: "nat \<Rightarrow> string" where
  "digit_string n = replicate n (CHR ''1'')"

definition plain_message_codec :: message_codec where
  "plain_message_codec =
     \<lparr>encode_position = (\<lambda>(t, uid). (if t < 0 then CHR ''-'' else CHR ''+'') # digit_string (nat \<bar>t\<bar>) @ CHR '':'' # uid),
      decode_position = (\<lambda>s. case s of [] \<Rightarrow> None
        | c # r \<Rightarrow> let n = int (length (takeWhile (\<lambda>x. x = CHR ''1'') r))
                   in Some (if c = CHR ''-'' then - n else n, tl (dropWhile (\<lambda>x. x = CHR ''1'') r)))\<rparr>"

lemma plain_message_codec_ok: "message_codec_ok plain_message_codec"
  by (auto simp: message_codec_ok_def plain_message_codec_def takeWhile_tail Let_def
      takeWhile_append dropWhile_append)

lemma message_history_complete_witness:
  "walk_changing (\<lambda>i c. list_messages plain_message_codec ''c'' c 1
       (sample_accounts\<lparr>messages := [sample_message ''m'' 1, sample_message ''n'' 2] @ replicate i (sample_message ''o'' 3)\<rparr>))
     0 2 None
   = Inr [sample_message ''n'' 2, sample_message ''m'' 1]"
proof -
  have "unique_key m_uid [sample_message ''m'' 1, sample_message ''n'' 2]"
    by (simp add: unique_key_def sample_message_def)
  then show ?thesis
    by (subst message_history_complete [OF plain_message_codec_ok])
      (auto simp: sample_message_def message_position_def is_shown_in_def)
qed

section \<open>Sending a message\<close>

lemma connections_disconnect:
  "connections_of u (disconnect uid c h) = (if u = uid then removeAll c (connections_of uid h) else connections_of u h)"
  by (auto simp: disconnect_def connections_of_def Let_def)

lemma send_each_effect:
  "wire (send_each alive uid out cs s) = wire s @ map (\<lambda>c. (c, out)) (filter alive cs)"
  "connections_of u (hub (send_each alive uid out cs s)) =
     (if u = uid then filter (\<lambda>c. c \<notin> set cs \<or> alive c) (connections_of uid (hub s))
      else connections_of u (hub s))"
proof (induction cs arbitrary: s)
  case (Cons c cs)
  case 1
  show ?case by (simp add: Cons.IH(1))
  case 2
  show ?case
    by (auto simp: Cons.IH(2) connections_disconnect removeAll_filter_not_eq intro!: filter_cong)
qed (auto intro!: filter_True [symmetric])

lemma send_to_user_effect:
  "wire (send_to_user alive uid out s) = wire s @ map (\<lambda>c. (c, out)) (filter alive (connections_of uid (hub s)))"
  "connections_of u (hub (send_to_user alive uid out s)) =
     (if u = uid then filter alive (connections_of uid (hub s)) else connections_of u (hub s))"
  by (auto simp: send_to_user_def send_each_effect intro!: filter_cong)

text \<open>The frames a message becomes: one for each live socket of each of the users.\<close>

definition frames :: "(connection \<Rightarrow> bool) \<Rightarrow> (uid \<rightharpoonup> connection list) \<Rightarrow> message_out \<Rightarrow> uid list
    \<Rightarrow> (connection \<times> message_out) list" where
  "frames alive h out uids = [(c, out). uid \<leftarrow> uids, c \<leftarrow> connections_of uid h, alive c]"

lemma fold_send_effect:
  assumes "distinct uids"
  shows "wire (fold (\<lambda>uid. send_to_user alive uid out) uids s) = wire s @ frames alive (hub s) out uids
    \<and> (\<forall>u. connections_of u (hub (fold (\<lambda>uid. send_to_user alive uid out) uids s)) =
         (if u \<in> set uids then filter alive (connections_of u (hub s)) else connections_of u (hub s)))"
  using assms
proof (induction uids arbitrary: s)
  case (Cons uid uids)
  have filter: "concat (map (\<lambda>c. if alive c then [(c, out)] else []) cs) = map (\<lambda>c. (c, out)) (filter alive cs)" for cs
    by (induction cs) auto
  have "frames alive (hub (send_to_user alive uid out s)) out uids = frames alive (hub s) out uids"
    unfolding frames_def using Cons.prems
    by (intro arg_cong [where f = concat] map_cong refl) (auto simp: send_to_user_effect)
  with Cons show ?case
    by (auto simp: send_to_user_effect frames_def filter)
qed (simp add: frames_def)

lemma get_active_participant_or_404_Inr:
  assumes "get_active_participant_or_404 caller k w = Inr (u, c, p)"
  shows "caller = Inr u \<and> c \<in> set (conversations w) \<and> c_uid c = k \<and> p \<in> set (participants w)
    \<and> is_active_in k p \<and> cp_user_uid p = u_uid u"
proof -
  show ?thesis
    using assms
    by (auto simp: get_active_participant_or_404_def get_conversation_or_404_def get_conversation_by_uid_def
        get_active_participant_def bindE_Inr_iff split: option.splits dest!: scalar_one_or_none_filter)
qed

lemma create_message_effect:
  "create_message fresh now c u content w = (r, w') \<Longrightarrow>
     (\<forall>e. r = Inl e \<longrightarrow> w' = w) \<and>
     (\<forall>m. r = Inr m \<longrightarrow> m = \<lparr>m_uid = fresh, m_conversation_uid = c_uid c, m_sender_uid = u,
        m_content = content, m_deleted_at = None, m_created_at = now\<rparr>
        \<and> messages w' = messages w @ [m] \<and> user_blocks w' = user_blocks w)"
  by (auto simp: create_message_def Let_def insert_row_Some split: option.splits)

text \<open>In a DIRECT conversation the first other participant is the only one.\<close>

lemma direct_others:
  assumes ok: "conversations_ok w" and "c \<in> set (conversations w)" "c_type c = DIRECT"
    and "v \<in> set (list_active_participant_uids (c_uid c) w)" "v \<noteq> u"
    and "u \<in> set (list_active_participant_uids (c_uid c) w)"
  shows "hd (filter (\<lambda>uid. uid \<noteq> u) (list_active_participant_uids (c_uid c) w)) = v"
proof -
  have sub: "set (list_active_participant_uids (c_uid c) w) \<subseteq> set (parties (c_uid c) (seats w))"
    by (auto simp: list_active_participant_uids_def is_active_in_def mem_parties dest: seat_mem)
  obtain a b where "parties (c_uid c) (seats w) = [a, b]"
    using ok head_mem [OF assms(2,3)] unfolding conversations_ok_def chat_ok_def by blast
  then have two: "set (list_active_participant_uids (c_uid c) w) \<subseteq> {a, b}" using sub by simp
  let ?others = "filter (\<lambda>uid. uid \<noteq> u) (list_active_participant_uids (c_uid c) w)"
  have "?others \<noteq> []" using assms(4,5) by (auto simp: filter_empty_conv)
  then have "hd ?others \<in> set ?others" by (rule hd_in_set)
  then have "hd ?others \<in> {a, b}" "hd ?others \<noteq> u" using two unfolding set_filter by blast+
  moreover have "u \<in> {a, b}" "v \<in> {a, b}" using two assms(4,6) by auto
  ultimately show ?thesis using assms(5) by auto
qed

text \<open>
  What may be said of a message that was sent, and of one that was refused.
\<close>

lemma post_message_spec:
  assumes ok: "conversations_ok (db s)" and c: "c \<in> set (conversations (db s))"
    and u: "u_uid u \<in> set (list_active_participant_uids (c_uid c) (db s))"
    and run: "post_message alive fresh now u c content s = (r, s')"
  shows "(\<forall>e. r = Inl e \<longrightarrow> s' = s) \<and>
    (\<forall>out. r = Inr out \<longrightarrow> (\<exists>m. m = \<lparr>m_uid = fresh, m_conversation_uid = c_uid c, m_sender_uid = u_uid u,
        m_content = content, m_deleted_at = None, m_created_at = now\<rparr>
      \<and> messages (db s') = messages (db s) @ [m] \<and> out = message_out_of m)
      \<and> (let others = filter (\<lambda>uid. uid \<noteq> u_uid u) (list_active_participant_uids (c_uid c) (db s)) in
           (c_type c = DIRECT \<longrightarrow> (\<forall>v \<in> set others. \<not> has_block_between (u_uid u) v (db s)))
           \<and> wire s' = wire s @ frames alive (hub s) out others))"
proof -
  let ?active = "list_active_participant_uids (c_uid c) (db s)"
  let ?others = "filter (\<lambda>uid. uid \<noteq> u_uid u) ?active"
  have "distinct (map participant_key (participants (db s)))"
    using conversations_ok_keys(1) [OF ok] by (simp add: unique_key_def)
  then have "distinct (map participant_key (filter (is_active_in (c_uid c)) (participants (db s))))"
    by (rule distinct_map_filter_rows)
  then have "distinct ?active"
    by (auto simp: list_active_participant_uids_def distinct_map inj_on_def participant_key_def is_active_in_def)
  then have others: "distinct ?others" by simp
  have unblocked: "\<not> has_block_between (u_uid u) v (db s)"
    if "\<not> (c_type c = DIRECT \<and> ?others \<noteq> [] \<and> has_block_between (u_uid u) (hd ?others) (db s))"
      "c_type c = DIRECT" "v \<in> set ?others" for v
  proof -
    have "?others \<noteq> []" using that(3) by (metis empty_iff empty_set)
    moreover have "hd ?others = v"
      using direct_others [OF ok c that(2) _ _ u, of v] that(3) by simp
    ultimately show ?thesis using that(1,2) by blast
  qed
  show ?thesis
  proof (cases "c_type c = DIRECT \<and> ?others \<noteq> [] \<and> has_block_between (u_uid u) (hd ?others) (db s)")
    case True
    then have "r = Inl (app_error USER_BLOCKED) \<and> s' = s"
      using run unfolding post_message_def Let_def by (simp only: if_True simp_thms raise_eq)
    then show ?thesis by simp
  next
    case False
    obtain q w' where cm: "create_message fresh now c (u_uid u) content (db s) = (q, w')"
      by (cases "create_message fresh now c (u_uid u) content (db s)")
    note eff = create_message_effect [OF cm]
    have run': "bindR (in_db (create_message fresh now c (u_uid u) content) s) (\<lambda>m s.
        let out = message_out_of m in ret out (fold (\<lambda>uid. send_to_user alive uid out) ?others s)) = (r, s')"
      using run False unfolding post_message_def Let_def by (simp only: if_False)
    show ?thesis
    proof (cases q)
      case (Inl e)
      with eff have "w' = db s" by simp
      then have "r = Inl e \<and> s' = s" using run' by (simp add: in_db_def cm Inl)
      then show ?thesis by simp
    next
      case (Inr m)
      have res: "r = Inr (message_out_of m)"
          "s' = fold (\<lambda>uid. send_to_user alive uid (message_out_of m)) ?others (s\<lparr>db := w'\<rparr>)"
        using run' by (simp_all add: in_db_def cm Inr Let_def)
      have "wire s' = wire s @ frames alive (hub s) (message_out_of m) ?others"
        using fold_send_effect [OF others, of alive "message_out_of m" "s\<lparr>db := w'\<rparr>"] res(2) by simp
      then show ?thesis
        using eff Inr res unblocked [OF False] by (simp add: Let_def)
    qed
  qed
qed

text \<open>
  C21: Sending a message.  It is accepted only from a logged-in active participant, with 1 to 4000
  characters, and in a DIRECT conversation only when neither of the two has blocked the
  other; then exactly this message is stored, under the conversation and the sender, and one
  frame with it goes to each live socket of each other active participant and to nobody else.
  A message that is refused is not stored and not sent.
\<close>

theorem send_message_delivers:
  assumes "conversations_ok (db s)"
    and "send_message alive client fresh now visitor host k content s = (r, s')"
  shows "(case r of
      Inl e \<Rightarrow> messages (db s') = messages (db s) \<and> wire s' = wire s \<and> hub s' = hub s
    | Inr out \<Rightarrow> (\<exists>u c. login_required visitor = Inr u \<and> c \<in> set (conversations (db s)) \<and> c_uid c = k
        \<and> u_uid u \<in> set (list_active_participant_uids k (db s))
        \<and> 1 \<le> str_len content \<and> str_len content \<le> 4000
        \<and> messages (db s') = messages (db s) @ [\<lparr>m_uid = fresh, m_conversation_uid = k,
             m_sender_uid = u_uid u, m_content = content, m_deleted_at = None, m_created_at = now\<rparr>]
        \<and> out = message_out_of (last (messages (db s')))
        \<and> (let others = filter (\<lambda>uid. uid \<noteq> u_uid u) (list_active_participant_uids k (db s)) in
             (c_type c = DIRECT \<longrightarrow> (\<forall>v \<in> set others. \<not> has_block_between (u_uid u) v (db s)))
             \<and> wire s' = wire s @ frames alive (hub s) out others)))"
proof -
  obtain q s1 where rl: "in_db (rate_limited client ''dm_message_send'' 60 60 visitor host) s = (q, s1)"
    by (cases "in_db (rate_limited client ''dm_message_send'' 60 60 visitor host) s")
  obtain rd where "snd (rate_limited client ''dm_message_send'' 60 60 visitor host (db s)) = db s\<lparr>redis := rd\<rparr>"
    by (rule exE [OF rate_limited_redis])
  then have s1: "s1 = s\<lparr>db := db s\<lparr>redis := rd\<rparr>\<rparr>"
    using rl in_db_simps(2) by (metis snd_conv)
  note run = assms(2) [unfolded send_message_def rl]
  let ?found = "get_active_participant_or_404 (login_required visitor) k (db s1)"
  show ?thesis
  proof (cases "q = Inr () \<and> (\<exists>x. ?found = Inr x) \<and> 1 \<le> str_len content \<and> str_len content \<le> 4000")
    case False
    then obtain e where "r = Inl e" "s' = s1"
      using run by (cases q; cases ?found) (auto split: if_splits)
    then show ?thesis by (simp add: s1)
  next
    case True
    then obtain u c p where found: "?found = Inr (u, c, p)" by auto
    then have post: "post_message alive fresh now u c content s1 = (r, s')"
      using run True by simp
    have facts: "login_required visitor = Inr u" "c \<in> set (conversations (db s1))" "c_uid c = k"
        "p \<in> set (participants (db s1))" "is_active_in k p" "cp_user_uid p = u_uid u"
      using get_active_participant_or_404_Inr [OF found] by simp_all
    then have member: "u_uid u \<in> set (list_active_participant_uids (c_uid c) (db s1))"
      by (auto simp: list_active_participant_uids_def intro!: rev_image_eqI [of p])
    have ok: "conversations_ok (db s1)"
      by (rule conversations_ok_tables [OF _ _ _ assms(1)]) (simp_all add: s1)
    have same: "list_active_participant_uids j (db s1) = list_active_participant_uids j (db s)"
        "has_block_between a b (db s1) = has_block_between a b (db s)" for j a b
      by (simp_all add: s1 list_active_participant_uids_def has_block_between_def)
    note spec = post_message_spec [OF ok facts(2) member post]
    show ?thesis
    proof (cases r)
      case (Inl e)
      with spec show ?thesis by (simp add: s1)
    next
      case (Inr out)
      with spec facts member True show ?thesis
        unfolding same Let_def
        by (auto simp: s1 intro!: exI [of _ u] exI [of _ c])
    qed
  qed
qed

text \<open>A DIRECT conversation of ann and bob, with bob on two sockets of which one is dead.\<close>

definition direct_chat :: "unit live" where
  "direct_chat =
     \<lparr>db = sample_accounts\<lparr>conversations := [new_conversation ''c'' 0 DIRECT None],
            participants := [new_participant ''c'' 0 ''ann'', new_participant ''c'' 0 ''bob'']\<rparr>,
      hub = [''bob'' \<mapsto> [7, 8]], wire = []\<rparr>"

lemma direct_chat_ok: "conversations_ok (db direct_chat)"
proof -
  have "heads (db direct_chat) = [(''c'', DIRECT)]" "messages (db direct_chat) = []"
      "seats (db direct_chat) = [(''c'', ''ann''), (''c'', ''bob'')]"
    by (simp_all add: direct_chat_def heads_def seats_def new_conversation_def new_participant_def
        participant_key_def sample_accounts_def empty_world_def)
  then show ?thesis
    by (simp add: conversations_ok_def chat_ok_def parties_def)
qed

lemma send_message_delivers_witness:
  "(let s' = snd (send_message (\<lambda>c. c = 7) None ''m'' 5 (Inr (Some (sample_user ''ann''))) None ''c'' ''hi'' direct_chat)
    in length (messages (db s')) = 1 \<and> map fst (wire s') = [7])"
proof -
  obtain r s' where run: "send_message (\<lambda>c. c = 7) None ''m'' 5 (Inr (Some (sample_user ''ann''))) None ''c'' ''hi''
      direct_chat = (r, s')" by (cases "send_message (\<lambda>c. c = 7) None ''m'' 5 (Inr (Some (sample_user ''ann''))) None
      ''c'' ''hi'' direct_chat")
  have "\<not> isl (fst (send_message (\<lambda>c. c = 7) None ''m'' 5 (Inr (Some (sample_user ''ann''))) None ''c'' ''hi''
      direct_chat))"
    by code_simp
  then obtain out where sent: "r = Inr out" by (cases r) (simp_all add: run)
  have "messages (db direct_chat) = []" "wire direct_chat = []"
      "list_active_participant_uids ''c'' (db direct_chat) = [''ann'', ''bob'']"
      "connections_of ''bob'' (hub direct_chat) = [7, 8]" "u_uid (sample_user ''ann'') = ''ann''"
    by code_simp+
  with send_message_delivers [OF direct_chat_ok run] show ?thesis
    by (auto simp: run sent login_required_def Let_def frames_def)
qed

end
