(* ===== verification/Program.thy ===== *)
theory Program
  imports Jobs Explore Catalog Audit_Log Invites Conversations
begin

text \<open>
  How the program is put together: the routers of \<open>api/v1/routers.py\<close> and the gate in front of
  them, the start of \<open>main.py\<close>, and the two scripts a host timer runs,
  \<open>scripts/decay_trust_tier.py\<close> and \<open>scripts/send_spots_slack.py\<close>.
\<close>

section \<open>Routers\<close>

datatype router =
    Auth_Router | Explore_Router | Spot_Reviews_Router | Spot_Groups_Router | Invites_Router
  | Conversations_Router | User_Blocks_Router | Ws_Conversations_Router | Admin_Auth_Router
  | Internal_Jobs_Router | Internal_Db_Dumps_Router | Internal_Spots_Router | Internal_Spot_Images_Router
  | Internal_Spot_Business_Info_Router | Internal_Spot_Options_Router | Internal_Spot_Groups_Router
  | Internal_Review_Reports_Router

datatype dependency = Require_Staff

record included =
  in_router :: router
  in_prefix :: string
  in_dependencies :: "dependency list"

definition included_with :: "router \<Rightarrow> string \<Rightarrow> dependency list \<Rightarrow> included" where
  "included_with r p ds = \<lparr>in_router = r, in_prefix = p, in_dependencies = ds\<rparr>"

definition api_v1_router :: "included list" where
  "api_v1_router =
     [included_with Auth_Router ''/auth'' [],
      included_with Explore_Router ''/explore'' [],
      included_with Spot_Reviews_Router ''/explore'' [],
      included_with Spot_Groups_Router ''/groups'' [],
      included_with Invites_Router ''/invites'' [],
      included_with Conversations_Router ''/conversations'' [],
      included_with User_Blocks_Router ''/users'' [],
      included_with Ws_Conversations_Router ''/ws'' [],
      included_with Admin_Auth_Router ''/admin/auth'' [],
      included_with Internal_Jobs_Router ''/internal/jobs'' [Require_Staff],
      included_with Internal_Db_Dumps_Router ''/internal/db-dumps'' [Require_Staff],
      included_with Internal_Spots_Router ''/internal/spots'' [Require_Staff],
      included_with Internal_Spot_Images_Router ''/internal/spots'' [Require_Staff],
      included_with Internal_Spot_Business_Info_Router ''/internal/spot-business-info'' [Require_Staff],
      included_with Internal_Spot_Options_Router ''/internal/spot-options'' [Require_Staff],
      included_with Internal_Spot_Groups_Router ''/internal/groups'' [Require_Staff],
      included_with Internal_Review_Reports_Router ''/internal/review-reports'' [Require_Staff]]"

text \<open>The path a request may take to a router, and what its dependencies make of the caller.\<close>

definition mounted_at :: "included \<Rightarrow> string" where
  "mounted_at i = ''/v1'' @ in_prefix i"

fun run_dependencies :: "dependency list \<Rightarrow> user res \<Rightarrow> user option res" where
  "run_dependencies [] caller = Inr None"
| "run_dependencies (Require_Staff # ds) caller =
     bindE (as_staff caller) (\<lambda>u. bindE (run_dependencies ds caller) (\<lambda>_. Inr (Some u)))"

text \<open>No router under \<open>/v1/internal\<close> is reached by a caller who is not on the staff.\<close>

lemma internal_routers_gated:
  assumes "i \<in> set api_v1_router" and "take 12 (mounted_at i) = ''/v1/internal''"
    and "run_dependencies (in_dependencies i) caller = Inr u"
  shows "\<exists>v. caller = Inr v \<and> u_is_staff v"
proof -
  have "\<forall>i \<in> set api_v1_router. take 12 (mounted_at i) = ''/v1/internal'' \<longrightarrow> in_dependencies i = [Require_Staff]"
    by (simp add: api_v1_router_def included_with_def mounted_at_def)
  with assms have "in_dependencies i = [Require_Staff]" by blast
  with assms(3) show ?thesis by (auto simp: bindE_Inr_iff as_staff_Inr)
qed

section \<open>Start\<close>

text \<open>
  Before the first request \<open>lifespan\<close> fails the jobs an earlier run left behind, then the worker
  starts.
\<close>

definition lifespan_start :: "instant \<Rightarrow> ('r, 'b) plant \<Rightarrow> nat \<times> ('r, 'b) plant" where
  "lifespan_start now p =
     (case cleanup_orphaned_jobs now (pt_jobs p) of (orphan_count, jobs) \<Rightarrow> (orphan_count, p\<lparr>pt_jobs := jobs\<rparr>))"

record health_report =
  hr_status :: string
  hr_environment :: environment
  hr_version :: string

definition health :: "settings \<Rightarrow> string \<Rightarrow> health_report" where
  "health cfg version = \<lparr>hr_status = ''ok'', hr_environment = ENVIRONMENT cfg, hr_version = version\<rparr>"

lemma lifespan_leaves_no_running_job:
  "\<forall>j \<in> set (pt_jobs (snd (lifespan_start now p))). j_status j \<noteq> Job_RUNNING"
  by (auto simp: lifespan_start_def cleanup_orphaned_jobs_def update_where_def)

section \<open>Scripts\<close>

definition decay_main :: "'r redis_client option \<Rightarrow> instant \<Rightarrow> 'r world \<Rightarrow> (nat \<times> nat) \<times> 'r world" where
  "decay_main client now w = decay_stale_trust_tiers client now TRUST_TIER_DECAY_DAYS w"

definition SPOT_COUNT :: nat where
  "SPOT_COUNT = 3"

text \<open>The title line is Korean; the bytes of its encoding are an argument, as are those of the link text.\<close>

definition format_message :: "string \<Rightarrow> string \<Rightarrow> spot list \<Rightarrow> string" where
  "format_message heading link_text rows =
     str_join [CHR 0x0A] (heading # map (\<lambda>s.
       let region = str_join '' '' (map the (filter truthy [s_region_province s, s_region_city s]))
       in ''- '' @ s_title s
          @ (if region \<noteq> [] then '' ('' @ region @ '')'' else [])
          @ (if truthy (s_booking_url s) then '' <'' @ the (s_booking_url s) @ ''|'' @ link_text @ ''>'' else [])) rows)"

text \<open>\<open>post\<close> sends a text to a URL; an answer that is no success raises.\<close>

definition send_spots_slack ::
    "settings \<Rightarrow> string \<Rightarrow> string \<Rightarrow> (spot list \<Rightarrow> spot list) \<Rightarrow> (string \<Rightarrow> string \<Rightarrow> unit res) \<Rightarrow> 'r world
       \<Rightarrow> unit res" where
  "send_spots_slack cfg heading link_text shuffle post w =
     (if \<not> truthy (SLACK_WEBHOOK_URL cfg) then Inr ()
      else let found = get_random_spots shuffle SPOT_COUNT w
           in if found = [] then Inr ()
              else post (the (SLACK_WEBHOOK_URL cfg)) (format_message heading link_text found))"

text \<open>A message names at most three spots, none of them deleted.\<close>

lemma slack_spots:
  assumes "\<And>xs. set (shuffle xs) \<subseteq> set xs"
  shows "length (get_random_spots shuffle SPOT_COUNT w) \<le> 3"
    and "\<forall>s \<in> set (get_random_spots shuffle SPOT_COUNT w). s \<in> set (spots w) \<and> s_deleted_at s = None"
  using assms [of "filter (\<lambda>s. s_deleted_at s = None) (spots w)"]
  by (auto simp: get_random_spots_def SPOT_COUNT_def dest!: in_set_takeD)

section \<open>From a request to its result\<close>

text \<open>The row of a uid, as \<open>get_job\<close> reports it.\<close>

lemma get_job_of_row:
  assumes "unique_key j_uid (pt_jobs p)" and "j \<in> set (pt_jobs p)" and "as_staff observer = Inr u"
  shows "\<exists>r. get_job observer (j_uid j) p = Inr r \<and> jr_uid r = j_uid j \<and> jr_type r = j_type j
     \<and> jr_status r = j_status j"
proof -
  have "get_by_key j_uid (j_uid j) (pt_jobs p) = Some j"
    using assms(1,2) by (simp add: get_by_key_mem)
  then have "get_job_by_id (j_uid j) p = Inr (Some j)"
    by (simp add: get_job_by_id_def scalar_one_or_none_unique [OF assms(1)])
  with assms(3) show ?thesis by (simp add: get_job_def)
qed

lemma queued_row:
  assumes "(Inr job_id, q) \<in> {enqueue_db_dump fresh now caller p,
      enqueue_spots_bulk_upsert parse fresh now content_length stream caller p,
      enqueue_spot_business_info_bulk_upsert parse' fresh now content_length stream caller p}"
    and "unique_key j_uid (pt_jobs p)"
  obtains j where "j \<in> set (pt_jobs q)" "j_uid j = job_id" "j_status j = Job_PENDING"
    "unique_key j_uid (pt_jobs q)"
proof -
  obtain ty payload staff where "enqueue fresh now ty payload staff p = (Inr job_id, q)"
    using assms(1)
    by (auto simp: enqueue_db_dump_def enqueue_spots_bulk_upsert_def enqueue_spot_business_info_bulk_upsert_def
        check_def raise_def split: sum.splits option.splits if_splits)
  with assms(2) show ?thesis
    by (auto simp: enqueue_def Let_def insert_row_Some unique_key_snoc raise_def ret_def split: option.splits intro!: that)
qed



end
