(* ===== verification/Application.thy ===== *)
theory Application
  imports Program
begin

text \<open>
  What \<open>main.py\<close> sets up around the routers: the documentation routes, the tags of the API
  description, CORS, the session of the admin pages and the one page they have (\<open>UserAdmin\<close>), and
  the page of \<open>scalar_docs\<close>.  The libraries that act on these values are not modelled;
  SQLAdmin writes the form columns of a view to the row, as any change through the ORM does.
\<close>

section \<open>Documentation\<close>

record api_docs =
  docs_url :: "string option"
  redoc_url :: "string option"
  openapi_url :: "string option"

definition app_docs :: "settings \<Rightarrow> api_docs" where
  "app_docs cfg =
     \<lparr>docs_url = (if ENABLE_API_DOCS cfg then Some ''/docs'' else None),
      redoc_url = (if ENABLE_API_DOCS cfg then Some ''/redoc'' else None),
      openapi_url = (if ENABLE_API_DOCS cfg then Some ''/openapi.json'' else None)\<rparr>"

text \<open>The names of the described tags, and the tags each router is included with.\<close>

definition openapi_tags :: "string list" where
  "openapi_tags =
     [''auth'', ''explore'', ''spot-reviews'', ''spot-groups'', ''invites'', ''conversations'',
      ''user-blocks'', ''ws'', ''admin-auth'', ''internal-jobs'', ''internal-db-dumps'',
      ''internal-spots'', ''internal-spot-images'', ''internal-spot-business-info'',
      ''internal-spot-options'', ''internal-spot-groups'', ''internal-review-reports'']"

fun router_tags :: "router \<Rightarrow> string list" where
  "router_tags Auth_Router = [''auth'']"
| "router_tags Explore_Router = [''explore'']"
| "router_tags Spot_Reviews_Router = [''explore'', ''spot-reviews'']"
| "router_tags Spot_Groups_Router = [''spot-groups'']"
| "router_tags Invites_Router = [''invites'']"
| "router_tags Conversations_Router = [''conversations'']"
| "router_tags User_Blocks_Router = [''user-blocks'']"
| "router_tags Ws_Conversations_Router = [''ws'']"
| "router_tags Admin_Auth_Router = [''admin-auth'']"
| "router_tags Internal_Jobs_Router = [''internal-jobs'']"
| "router_tags Internal_Db_Dumps_Router = [''internal-db-dumps'']"
| "router_tags Internal_Spots_Router = [''internal-spots'']"
| "router_tags Internal_Spot_Images_Router = [''internal-spot-images'']"
| "router_tags Internal_Spot_Business_Info_Router = [''internal-spot-business-info'']"
| "router_tags Internal_Spot_Options_Router = [''internal-spot-options'']"
| "router_tags Internal_Spot_Groups_Router = [''internal-spot-groups'']"
| "router_tags Internal_Review_Reports_Router = [''internal-review-reports'']"

text \<open>The described tags are those of the routers, each once.\<close>

lemma tags_described:
  "set openapi_tags = (\<Union>i \<in> set api_v1_router. set (router_tags (in_router i)))" "distinct openapi_tags"
  by (auto simp: openapi_tags_def api_v1_router_def included_with_def)

text \<open>
  The page of \<open>/scalar\<close>: the library's page for the two arguments, with a badge of the version and
  the first seven characters of the commit put before its end.
\<close>

definition scalar_badge :: "settings \<Rightarrow> string \<Rightarrow> string" where
  "scalar_badge cfg version =
     ''<div style='' @ [CHR 0x22] @ ''position:fixed;bottom:8px;left:8px;z-index:9999;''
     @ ''font:11px monospace;background:#111;color:#0f0;''
     @ ''padding:4px 8px;border-radius:4px;opacity:0.85;'' @ [CHR 0x22] @ ''>''
     @ ''v'' @ version @ '' ('' @ str_take 7 (GIT_SHA cfg) @ '')</div>''"

definition scalar_docs :: "(string option \<Rightarrow> string \<Rightarrow> string) \<Rightarrow> settings \<Rightarrow> string \<Rightarrow> string" where
  "scalar_docs get_scalar_api_reference cfg version =
     str_replace ''</body>'' (scalar_badge cfg version @ ''</body>'')
       (get_scalar_api_reference (openapi_url (app_docs cfg)) ''VIVAC API'')"

lemma scalar_badge_placed:
  assumes "get_scalar_api_reference (openapi_url (app_docs cfg)) ''VIVAC API'' = page @ ''</body>'' @ rest"
    and "CHR ''<'' \<notin> set page" and "split_on ''</body>'' rest = [rest]"
  shows "scalar_docs get_scalar_api_reference cfg version = page @ scalar_badge cfg version @ ''</body>'' @ rest"
proof -
  have "split_on ''</body>'' (page @ ''</body>'' @ rest) = [page, rest]"
    using split_on_piece [of "CHR ''<''" page "''/body>''" rest] assms(2,3) by simp
  with assms(1) show ?thesis by (simp add: scalar_docs_def str_replace_def)
qed

section \<open>Origins and cookies\<close>

record cors_policy =
  allow_origins :: "string list"
  allow_credentials :: bool
  allow_methods :: "string list"
  allow_headers :: "string list"
  expose_headers :: "string list"

definition cors_middleware :: "settings \<Rightarrow> cors_policy" where
  "cors_middleware cfg =
     \<lparr>allow_origins = origin_list cfg, allow_credentials = False,
      allow_methods = [''GET'', ''POST'', ''PUT'', ''PATCH'', ''DELETE'', ''OPTIONS''],
      allow_headers = [''Authorization'', ''Content-Type''], expose_headers = [''X-Total-Count'']\<rparr>"

record admin_cookie =
  secret_key :: string
  https_only :: bool
  max_age :: int

definition admin_session_cookie :: "settings \<Rightarrow> admin_cookie" where
  "admin_session_cookie cfg =
     \<lparr>secret_key = ADMIN_SESSION_SECRET cfg, https_only = (ENVIRONMENT cfg \<noteq> Env_local),
      max_age = JWT_ADMIN_ACCESS_TOKEN_EXPIRE_HOURS cfg * 3600\<rparr>"

text \<open>
  A production process that starts serves no documentation, answers no wildcard and no local
  origin, and has a secure admin cookie under a secret of at least 32 characters.
\<close>

theorem production_surface:
  assumes "load_settings cfg = Inr cfg'" and "ENVIRONMENT cfg = Env_prod"
  shows "app_docs cfg' = \<lparr>docs_url = None, redoc_url = None, openapi_url = None\<rparr>"
    and "\<forall>origin \<in> set (allow_origins (cors_middleware cfg')).
      origin \<noteq> ''*'' \<and> \<not> contains origin ''localhost'' \<and> \<not> contains origin ''127.0.0.1''"
    and "https_only (admin_session_cookie cfg')" "32 \<le> str_len (secret_key (admin_session_cookie cfg'))"
  using assms
  by (auto simp: load_settings_def validate_prod_requirements_def prod_errors_empty cors_errors_empty
      app_docs_def cors_middleware_def admin_session_cookie_def split: if_splits)

text \<open>The admin cookie lives as long as an admin token.\<close>

lemma admin_cookie_lifetime:
  "seconds (max_age (admin_session_cookie cfg)) = hours (JWT_ADMIN_ACCESS_TOKEN_EXPIRE_HOURS cfg)"
  by (simp add: admin_session_cookie_def hours_def)

section \<open>The page of accounts\<close>

record admin_view =
  can_create :: bool
  can_delete :: bool

definition UserAdmin :: admin_view where
  "UserAdmin = \<lparr>can_create = False, can_delete = False\<rparr>"

record user_form =
  uf_is_active :: bool
  uf_is_staff :: bool

definition user_admin_update :: "instant \<Rightarrow> uid \<Rightarrow> user_form \<Rightarrow> 'r world \<Rightarrow> 'r world" where
  "user_admin_update now uid form w =
     w\<lparr>users := update_where (\<lambda>u. u_uid u = uid)
         (\<lambda>u. let u' = u\<lparr>u_is_active := uf_is_active form, u_is_staff := uf_is_staff form\<rparr>
              in if u' = u then u else u'\<lparr>u_updated_at := now\<rparr>) (users w)\<rparr>"

lemma user_admin_update_found:
  assumes "get_user_by_id uid w = Inr (Some u)"
  shows "\<exists>t. get_user_by_id uid (user_admin_update now uid form w) =
     Inr (Some (u\<lparr>u_is_active := uf_is_active form, u_is_staff := uf_is_staff form, u_updated_at := t\<rparr>))"
proof -
  let ?f = "\<lambda>u. let u' = u\<lparr>u_is_active := uf_is_active form, u_is_staff := uf_is_staff form\<rparr>
              in if u' = u then u else u'\<lparr>u_updated_at := now\<rparr>"
  have rows: "filter (\<lambda>u. u_uid u = uid) (map (\<lambda>r. if u_uid r = uid then ?f r else r) us) =
      map ?f (filter (\<lambda>u. u_uid u = uid) us)" for us :: "user list"
    by (induction us) (simp_all add: Let_def)
  have "filter (\<lambda>u. u_uid u = uid) (users w) = [u]"
    using assms by (auto simp: get_user_by_id_def scalar_one_or_none_def split: list.splits)
  then have "filter (\<lambda>u. u_uid u = uid) (users (user_admin_update now uid form w)) = [?f u]"
    using rows by (simp add: user_admin_update_def update_where_def)
  then have "get_user_by_id uid (user_admin_update now uid form w) = Inr (Some (?f u))"
    by (simp add: get_user_by_id_def scalar_one_or_none_def)
  moreover have "\<exists>t. ?f u = u\<lparr>u_is_active := uf_is_active form, u_is_staff := uf_is_staff form, u_updated_at := t\<rparr>"
    by (cases u) auto
  ultimately show ?thesis by auto
qed

text \<open>
  Taking an account off the staff, or disabling it, holds from the next request on: the session of
  the admin pages is refused and emptied, and a token issued before opens no staff endpoint.
\<close>

theorem revoked_at_next_request:
  assumes "get_user_by_id uid w = Inr (Some u)" and "uid \<noteq> []"
    and "\<not> (uf_is_active form \<and> uf_is_staff form)"
    and "decode_token J cfg now' token = Some payload" "cl_type payload = Some ''access''"
      "cl_sub payload = Some uid"
    and w': "w' = user_admin_update now uid form w"
  shows "session_user_uid session = Some uid \<Longrightarrow> admin_authenticate w' session = (Inr False, empty_session)"
    and "as_staff (get_current_user J cfg now' (Some token) w') = Inl (app_error FORBIDDEN)"
proof -
  obtain t where found: "get_user_by_id uid w' =
      Inr (Some (u\<lparr>u_is_active := uf_is_active form, u_is_staff := uf_is_staff form, u_updated_at := t\<rparr>))"
    using user_admin_update_found [OF assms(1)] by (auto simp: w')
  show "admin_authenticate w' session = (Inr False, empty_session)" if "session_user_uid session = Some uid"
    using assms(2,3) found that by (auto simp: admin_authenticate_def truthy_def ret_def)
  show "as_staff (get_current_user J cfg now' (Some token) w') = Inl (app_error FORBIDDEN)"
    using assms(3-6) found by (auto simp: get_current_user_def as_staff_def require_staff_def)
qed

end
