(* ===== verification/Local_Load.thy ===== *)
theory Local_Load
  imports Bulk
begin

text \<open>
  The load of a CSV file into a local database, \<open>scripts/upload_spots_local.py\<close>.

  A row of \<open>csv.DictReader\<close> gives for each column of the header a text, or \<open>None\<close> when the
  line is too short; \<open>parse\<close> turns the text of a cell into the value of its column.  \<open>float()\<close>
  and \<open>date.fromisoformat\<close> are parameters (\<open>None\<close> is their \<open>ValueError\<close>).  Each spot is
  inserted at its own flush; its business information waits in the session until the next flush
  and is therefore an argument of \<open>load_rows\<close>.  One commit follows the last row.
\<close>

section \<open>Cells\<close>

definition SPOT_FIELDS :: "string list" where
  "SPOT_FIELDS =
     [''source'', ''external_id'', ''title'', ''address'', ''address_detail'',
      ''region_province'', ''region_city'', ''postal_code'', ''phone'', ''description'',
      ''tagline'', ''latitude'', ''longitude'', ''altitude'', ''unit_count'',
      ''is_fee_required'', ''is_pet_allowed'', ''pet_policy'', ''has_equipment_rental'',
      ''themes'', ''fire_pit_type'', ''amenities'', ''nearby_facilities'',
      ''camp_sight_type'', ''rating_avg'', ''review_count'', ''website_url'',
      ''booking_url'', ''features'', ''category'', ''total_area_m2'',
      ''has_liability_insurance'', ''pipeline_status'', ''trust_tier'']"

definition BIZ_FIELDS :: "string list" where
  "BIZ_FIELDS =
     [''business_reg_no'', ''tourism_business_reg_no'', ''business_type'',
      ''operation_type'', ''operating_agency'', ''operating_status'',
      ''national_park_no'', ''national_park_office_code'', ''national_park_serial_no'',
      ''national_park_category_code'', ''licensed_at'']"

definition ARRAY_FIELDS :: "string list" where
  "ARRAY_FIELDS = [''has_equipment_rental'', ''themes'', ''amenities'', ''nearby_facilities'', ''category'']"

definition BOOL_FIELDS :: "string list" where
  "BOOL_FIELDS = [''is_fee_required'', ''is_pet_allowed'', ''has_liability_insurance'']"

definition FLOAT_FIELDS :: "string list" where
  "FLOAT_FIELDS = [''latitude'', ''longitude'', ''altitude'', ''rating_avg'', ''total_area_m2'']"

definition INT_FIELDS :: "string list" where
  "INT_FIELDS = [''unit_count'', ''review_count'', ''trust_tier'', ''national_park_no'']"

definition DATE_FIELDS :: "string list" where
  "DATE_FIELDS = [''licensed_at'']"

definition parse_array :: "string \<Rightarrow> string list option" where
  "parse_array val =
     (if val \<noteq> ''{}''
      then Some (map (\<lambda>x. strip_chars [CHR 0x22] (str_strip x))
                  (split_on [CHR 0x22, CHR '','', CHR 0x22] (strip_chars ''{}'' val)))
      else None)"

datatype cell =
    Absent | Str_Cell string | List_Cell "string list" | Bool_Cell bool | Float_Cell rat
  | Int_Cell int | Date_Cell int

abbreviation bad_literal :: exn where
  "bad_literal \<equiv> PyError ''ValueError'' ''''"

definition parse :: "(string \<Rightarrow> rat option) \<Rightarrow> (string \<Rightarrow> int option) \<Rightarrow> string \<Rightarrow> string \<Rightarrow> cell res" where
  "parse to_float to_date field raw =
     (let val = str_strip raw in
      if val = [] then Inr Absent
      else if field \<in> set ARRAY_FIELDS then
        Inr (case parse_array val of None \<Rightarrow> Absent | Some xs \<Rightarrow> List_Cell xs)
      else if field \<in> set BOOL_FIELDS then Inr (Bool_Cell (val = ''true''))
      else if field \<in> set FLOAT_FIELDS then
        (case to_float val of None \<Rightarrow> Inl bad_literal | Some x \<Rightarrow> Inr (Float_Cell x))
      else if field \<in> set INT_FIELDS then
        (case int_of_str val of None \<Rightarrow> Inl bad_literal | Some n \<Rightarrow> Inr (Int_Cell n))
      else if field \<in> set DATE_FIELDS then
        (case to_date val of None \<Rightarrow> Inl bad_literal | Some d \<Rightarrow> Inr (Date_Cell d))
      else Inr (Str_Cell val))"

type_synonym csv_row = "(string \<times> string option) list"

definition csv_get :: "csv_row \<Rightarrow> string \<Rightarrow> string option res" where
  "csv_get r f = (case map_of r f of None \<Rightarrow> Inl key_error | Some v \<Rightarrow> Inr v)"

fun parse_cells ::
    "(string \<Rightarrow> rat option) \<Rightarrow> (string \<Rightarrow> int option) \<Rightarrow> csv_row \<Rightarrow> string list \<Rightarrow> (string \<times> cell) list res" where
  "parse_cells to_float to_date r [] = Inr []"
| "parse_cells to_float to_date r (f # fs) =
     bindE (csv_get r f) (\<lambda>v. case v of
         None \<Rightarrow> Inl (PyError ''AttributeError'' '''')
       | Some raw \<Rightarrow> bindE (parse to_float to_date f raw) (\<lambda>c.
           bindE (parse_cells to_float to_date r fs) (\<lambda>cs. Inr ((f, c) # cs))))"

section \<open>Rows\<close>

definition str_cell :: "(string \<times> cell) list \<Rightarrow> string \<Rightarrow> string option" where
  "str_cell cells f = (case map_of cells f of Some (Str_Cell s) \<Rightarrow> Some s | _ \<Rightarrow> None)"

definition list_cell :: "(string \<times> cell) list \<Rightarrow> string \<Rightarrow> string list option" where
  "list_cell cells f = (case map_of cells f of Some (List_Cell xs) \<Rightarrow> Some xs | _ \<Rightarrow> None)"

definition bool_cell :: "(string \<times> cell) list \<Rightarrow> string \<Rightarrow> bool option" where
  "bool_cell cells f = (case map_of cells f of Some (Bool_Cell b) \<Rightarrow> Some b | _ \<Rightarrow> None)"

definition float_cell :: "(string \<times> cell) list \<Rightarrow> string \<Rightarrow> rat option" where
  "float_cell cells f = (case map_of cells f of Some (Float_Cell x) \<Rightarrow> Some x | _ \<Rightarrow> None)"

definition int_cell :: "(string \<times> cell) list \<Rightarrow> string \<Rightarrow> int option" where
  "int_cell cells f = (case map_of cells f of Some (Int_Cell n) \<Rightarrow> Some n | _ \<Rightarrow> None)"

definition date_cell :: "(string \<times> cell) list \<Rightarrow> string \<Rightarrow> int option" where
  "date_cell cells f = (case map_of cells f of Some (Date_Cell d) \<Rightarrow> Some d | _ \<Rightarrow> None)"

text \<open>The values of the CHECK on \<open>pipeline_status\<close>.\<close>

definition status_of_text :: "string \<Rightarrow> pipeline_status option" where
  "status_of_text s =
     map_of [(''RAW'', RAW), (''ENRICHED'', ENRICHED), (''CURATED'', CURATED), (''REVIEWED'', REVIEWED),
             (''PUBLISHED'', PUBLISHED), (''REJECTED'', REJECTED)] s"

text \<open>
  The INSERT of a spot.  A number too large for its column is a \<open>DataError\<close>; a missing title,
  rating or number of reviews, a value a CHECK refuses and a second row of a key are an
  \<open>IntegrityError\<close>.  A column with no value has the default of the table.
\<close>

definition spot_of_cells :: "uid \<Rightarrow> instant \<Rightarrow> (string \<times> cell) list \<Rightarrow> spot" where
  "spot_of_cells uid now cells =
     (blank_spot uid now (str_cell cells ''source'') (str_cell cells ''external_id''))\<lparr>
       s_title := the (str_cell cells ''title''),
       s_address := str_cell cells ''address'',
       s_address_detail := str_cell cells ''address_detail'',
       s_region_province := str_cell cells ''region_province'',
       s_region_city := str_cell cells ''region_city'',
       s_postal_code := str_cell cells ''postal_code'',
       s_phone := str_cell cells ''phone'',
       s_description := str_cell cells ''description'',
       s_tagline := str_cell cells ''tagline'',
       s_latitude := float_cell cells ''latitude'',
       s_longitude := float_cell cells ''longitude'',
       s_altitude := float_cell cells ''altitude'',
       s_unit_count := int_cell cells ''unit_count'',
       s_is_fee_required := bool_cell cells ''is_fee_required'',
       s_is_pet_allowed := bool_cell cells ''is_pet_allowed'',
       s_pet_policy := str_cell cells ''pet_policy'',
       s_has_equipment_rental := list_cell cells ''has_equipment_rental'',
       s_themes := list_cell cells ''themes'',
       s_fire_pit_type := str_cell cells ''fire_pit_type'',
       s_amenities := list_cell cells ''amenities'',
       s_nearby_facilities := list_cell cells ''nearby_facilities'',
       s_camp_sight_type := str_cell cells ''camp_sight_type'',
       s_rating_avg := the (float_cell cells ''rating_avg''),
       s_review_count := the (int_cell cells ''review_count''),
       s_website_url := str_cell cells ''website_url'',
       s_booking_url := str_cell cells ''booking_url'',
       s_features := str_cell cells ''features'',
       s_category := list_cell cells ''category'',
       s_total_area_m2 := float_cell cells ''total_area_m2'',
       s_has_liability_insurance := bool_cell cells ''has_liability_insurance'',
       s_pipeline_status := (case str_cell cells ''pipeline_status'' of
          None \<Rightarrow> RAW | Some t \<Rightarrow> the (status_of_text t)),
       s_trust_tier := int_cell cells ''trust_tier''\<rparr>"

definition int2 :: "int option \<Rightarrow> bool" where
  "int2 v = (case v of None \<Rightarrow> True | Some n \<Rightarrow> - (2 ^ 15) \<le> n \<and> n < 2 ^ 15)"

definition spot_checks :: "(string \<times> cell) list \<Rightarrow> bool" where
  "spot_checks cells \<longleftrightarrow>
     str_cell cells ''title'' \<noteq> None \<and> float_cell cells ''rating_avg'' \<noteq> None
     \<and> int_cell cells ''review_count'' \<noteq> None
     \<and> (case int_cell cells ''trust_tier'' of None \<Rightarrow> True | Some n \<Rightarrow> 1 \<le> n \<and> n \<le> 3)
     \<and> (case str_cell cells ''pipeline_status'' of None \<Rightarrow> True | Some t \<Rightarrow> status_of_text t \<noteq> None)"

abbreviation out_of_range :: exn where
  "out_of_range \<equiv> PyError ''DataError'' ''''"

definition insert_spot ::
    "uid \<Rightarrow> instant \<Rightarrow> (string \<times> cell) list \<Rightarrow> 'r world \<Rightarrow> unit res \<times> 'r world" where
  "insert_spot uid now cells w =
     (if \<not> int4 (int_cell cells ''unit_count'') \<or> \<not> int4 (int_cell cells ''review_count'')
         \<or> \<not> int2 (int_cell cells ''trust_tier'') then raise out_of_range w
      else let s = spot_of_cells uid now cells in
        if \<not> spot_checks cells then raise integrity_error w
        else if spot_key s \<noteq> None \<and> spot_key s \<in> set (map spot_key (spots w)) then raise integrity_error w
        else case insert_row s_uid s (spots w) of
            None \<Rightarrow> raise integrity_error w
          | Some rows \<Rightarrow> ret () (w\<lparr>spots := rows\<rparr>))"

definition info_of_cells :: "uid \<Rightarrow> instant \<Rightarrow> uid \<Rightarrow> (string \<times> cell) list \<Rightarrow> business_info" where
  "info_of_cells uid now spot_uid cells =
     (blank_info uid now spot_uid)\<lparr>
       bi_business_reg_no := str_cell cells ''business_reg_no'',
       bi_tourism_business_reg_no := str_cell cells ''tourism_business_reg_no'',
       bi_business_type := str_cell cells ''business_type'',
       bi_operation_type := str_cell cells ''operation_type'',
       bi_operating_agency := str_cell cells ''operating_agency'',
       bi_operating_status := str_cell cells ''operating_status'',
       bi_national_park_no := int_cell cells ''national_park_no'',
       bi_national_park_office_code := str_cell cells ''national_park_office_code'',
       bi_national_park_serial_no := str_cell cells ''national_park_serial_no'',
       bi_national_park_category_code := str_cell cells ''national_park_category_code'',
       bi_licensed_at := date_cell cells ''licensed_at''\<rparr>"

text \<open>What the session still holds when it is flushed.\<close>

fun flush_infos :: "business_info list \<Rightarrow> 'r world \<Rightarrow> unit res \<times> 'r world" where
  "flush_infos [] w = ret () w"
| "flush_infos (b # bs) w =
     (if \<not> int4 (bi_national_park_no b) then raise out_of_range w
      else if bi_spot_uid b \<in> set (map bi_spot_uid (business_infos w)) then raise integrity_error w
      else case insert_row bi_uid b (business_infos w) of
          None \<Rightarrow> raise integrity_error w
        | Some rows \<Rightarrow> flush_infos bs (w\<lparr>business_infos := rows\<rparr>))"

section \<open>The script\<close>

record load_env =
  le_float :: "string \<Rightarrow> rat option"
  le_date :: "string \<Rightarrow> int option"
  le_spot_uid :: "nat \<Rightarrow> uid"
  le_info_uid :: "nat \<Rightarrow> uid"
  le_now :: instant

fun load_rows ::
    "load_env \<Rightarrow> nat \<Rightarrow> csv_row list \<Rightarrow> business_info list \<Rightarrow> nat \<Rightarrow> 'r world \<Rightarrow> nat res \<times> 'r world" where
  "load_rows env i [] pending biz_count w =
     bindR (flush_infos pending w) (\<lambda>_ w. ret biz_count w)"
| "load_rows env i (r # rs) pending biz_count w =
     check (parse_cells (le_float env) (le_date env) r SPOT_FIELDS) w (\<lambda>spot.
       bindR (insert_spot (le_spot_uid env i) (le_now env) spot w) (\<lambda>_ w.
       bindR (flush_infos pending w) (\<lambda>_ w.
       check (parse_cells (le_float env) (le_date env) r BIZ_FIELDS) w (\<lambda>biz_vals.
         if \<exists>c \<in> set biz_vals. snd c \<noteq> Absent
         then load_rows env (Suc i) rs
                [info_of_cells (le_info_uid env i) (le_now env) (le_spot_uid env i) biz_vals] (Suc biz_count) w
         else load_rows env (Suc i) rs [] biz_count w))))"

fun enriched_rows :: "csv_row list \<Rightarrow> csv_row list res" where
  "enriched_rows [] = Inr []"
| "enriched_rows (r # rs) =
     bindE (csv_get r ''pipeline_status'') (\<lambda>v. bindE (enriched_rows rs) (\<lambda>rows.
       Inr (if v = Some ''ENRICHED'' then r # rows else rows)))"

record load_report =
  lr_rows :: nat
  lr_spots :: nat
  lr_biz_count :: nat
  lr_infos :: nat

definition upload_main ::
    "(string \<Rightarrow> string option) \<Rightarrow> load_env \<Rightarrow> csv_row list \<Rightarrow> 'r world \<Rightarrow> load_report res \<times> 'r world" where
  "upload_main environ env csv w =
     check (enriched_rows csv) w (\<lambda>rows.
       if length rows \<noteq> 191 then raise (PyError ''AssertionError'' '''') w
       else if \<exists>k \<in> set [''DB_USER'', ''DB_PASSWORD'', ''DB_HOST'', ''DB_PORT'', ''DB_NAME'']. environ k = None
       then raise key_error w
       else case load_rows env 0 rows [] 0 w of
           (Inl e, _) \<Rightarrow> raise e w
         | (Inr biz_count, w') \<Rightarrow>
             ret \<lparr>lr_rows = length rows, lr_spots = length (spots w'), lr_biz_count = biz_count,
                  lr_infos = length (business_infos w')\<rparr> w')"

section \<open>Arrays\<close>

text \<open>The literal of an array with every element in double quotes, as the file has it.\<close>

abbreviation dquote :: char where
  "dquote \<equiv> CHR 0x22"

definition array_literal :: "string list \<Rightarrow> string" where
  "array_literal xs = ''{'' @ str_join '','' (map (\<lambda>x. [dquote] @ x @ [dquote]) xs) @ ''}''"

lemma str_join_quoted:
  "xs \<noteq> [] \<Longrightarrow> str_join '','' (map (\<lambda>x. [dquote] @ x @ [dquote]) xs) =
     dquote # str_join [dquote, CHR '','', dquote] xs @ [dquote]"
proof (induction xs)
  case (Cons x xs)
  then show ?case by (cases xs) auto
qed simp

lemma split_on_join:
  "xs \<noteq> [] \<Longrightarrow> \<forall>x \<in> set xs. c \<notin> set x \<Longrightarrow> d \<noteq> [] \<Longrightarrow>
     split_on (c # d) (str_join (c # d) xs @ [c]) = butlast xs @ [last xs @ [c]]"
proof (induction xs)
  case (Cons x xs)
  show ?case
  proof (cases xs)
    case Nil
    with Cons.prems show ?thesis by (simp add: split_on_end)
  next
    case (Cons y ys)
    then have "split_on (c # d) (str_join (c # d) (x # xs) @ [c]) =
        split_on (c # d) (x @ (c # d) @ (str_join (c # d) xs @ [c]))" by simp
    also have "\<dots> = x # split_on (c # d) (str_join (c # d) xs @ [c])"
      using Cons.prems by (intro split_on_piece) simp
    finally show ?thesis using Cons.IH Cons.prems Cons by simp
  qed
qed simp

lemma prefix_first_comma:
  assumes "dquote \<notin> set x"
  shows "prefix [CHR '','', dquote] (x @ dquote # rest) \<longleftrightarrow> x = '',''"
proof (cases x)
  case (Cons a as)
  with assms show ?thesis by (cases as) auto
qed simp

text \<open>Quoting does not hide a space inside the quotes from \<open>strip\<close>, and keeps one outside.\<close>

lemma dropWhile_ends:
  assumes "s = [] \<or> \<not> P (hd s) \<and> \<not> P (last s)"
  shows "dropWhile P s = s" and "dropWhile P (rev s) = rev s"
  using assms by (auto simp: dropWhile_eq_self_iff hd_rev)

lemma str_strip_ends: "s = [] \<or> \<not> is_space (hd s) \<and> \<not> is_space (last s) \<Longrightarrow> str_strip s = s"
  by (simp add: str_strip_def dropWhile_ends)

lemma strip_chars_ends: "s = [] \<or> hd s \<notin> set cs \<and> last s \<notin> set cs \<Longrightarrow> strip_chars cs s = s"
  by (simp add: strip_chars_def dropWhile_ends)

lemma dropWhile_length_eq: "length xs \<le> length (dropWhile P xs) \<Longrightarrow> dropWhile P xs = xs"
  using length_dropWhile_le [of P "tl xs"] by (cases xs) (auto split: if_splits)

lemma str_strip_fixed: "str_strip s = s \<longleftrightarrow> s = [] \<or> \<not> is_space (hd s) \<and> \<not> is_space (last s)"
proof
  let ?t = "dropWhile is_space s"
  assume fixed: "str_strip s = s"
  then have "length s \<le> length ?t"
    by (metis length_dropWhile_le length_rev str_strip_def)
  then have "?t = s" by (rule dropWhile_length_eq)
  with fixed show "s = [] \<or> \<not> is_space (hd s) \<and> \<not> is_space (last s)"
    by (auto simp: str_strip_def dropWhile_eq_self_iff hd_rev rev_swap)
qed (rule str_strip_ends)

lemma strip_quotes:
  assumes "dquote \<notin> set x"
  shows "strip_chars [dquote] x = x" "strip_chars [dquote] (dquote # x) = x"
    "strip_chars [dquote] (x @ [dquote]) = x" "strip_chars [dquote] (dquote # x @ [dquote]) = x"
proof -
  have ends: "x = [] \<or> hd x \<noteq> dquote \<and> last x \<noteq> dquote"
    using assms hd_in_set last_in_set by metis
  note drop = dropWhile_ends [of x "\<lambda>c. c = dquote", OF ends]
  have snoc: "dropWhile (\<lambda>c. c = dquote) (x @ [dquote]) = (if x = [] then [] else x @ [dquote])"
    using ends by (cases x) auto
  show "strip_chars [dquote] x = x" "strip_chars [dquote] (dquote # x) = x"
    by (simp_all add: strip_chars_def drop)
  show "strip_chars [dquote] (x @ [dquote]) = x" "strip_chars [dquote] (dquote # x @ [dquote]) = x"
    by (simp_all add: strip_chars_def snoc drop)
qed

lemma read_quoted:
  assumes "dquote \<notin> set x" and "str_strip x = x"
  shows "strip_chars [dquote] (str_strip x) = x" "strip_chars [dquote] (str_strip (dquote # x)) = x"
    "strip_chars [dquote] (str_strip (x @ [dquote])) = x"
    "strip_chars [dquote] (str_strip (dquote # x @ [dquote])) = x"
proof -
  have "x = [] \<or> \<not> is_space (hd x) \<and> \<not> is_space (last x)" using assms(2) by (simp add: str_strip_fixed)
  moreover have "\<not> is_space dquote" by (simp add: is_space_def)
  ultimately have "str_strip (dquote # x) = dquote # x" "str_strip (x @ [dquote]) = x @ [dquote]"
      "str_strip (dquote # x @ [dquote]) = dquote # x @ [dquote]"
    by (auto intro!: str_strip_ends simp: hd_append split: if_splits)
  with assms show "strip_chars [dquote] (str_strip x) = x" "strip_chars [dquote] (str_strip (dquote # x)) = x"
      "strip_chars [dquote] (str_strip (x @ [dquote])) = x"
      "strip_chars [dquote] (str_strip (dquote # x @ [dquote])) = x"
    by (simp_all add: strip_quotes)
qed

text \<open>
  An array is read back when no element holds a double quote or begins or ends with a space, and
  the first is not a lone comma (whose quotes and comma would be taken for a separator).
\<close>

lemma array_literal_read:
  assumes "\<forall>x \<in> set xs. dquote \<notin> set x \<and> str_strip x = x" and "xs \<noteq> []" and "hd xs \<noteq> '',''"
  shows "parse_array (array_literal xs) = Some xs"
proof -
  let ?sep = "[dquote, CHR '','', dquote]"
  let ?inner = "str_join ?sep xs @ [dquote]"
  obtain y ys where xs: "xs = y # ys" using assms(2) by (cases xs) auto
  have inner: "strip_chars ''{}'' (array_literal xs) = dquote # ?inner"
    using str_join_quoted [OF assms(2)] by (simp add: array_literal_def strip_chars_def)
  have pieces: "split_on ?sep ?inner = butlast xs @ [last xs @ [dquote]]"
    using assms by (intro split_on_join) auto
  obtain rest where "?inner = y @ dquote # rest" by (cases ys) (auto simp: xs)
  then have "\<not> prefix [CHR '','', dquote] ?inner"
    using assms(1,3) prefix_first_comma [of y rest] by (simp add: xs)
  then have split: "split_on ?sep (dquote # ?inner) =
      (case butlast xs @ [last xs @ [dquote]] of [] \<Rightarrow> [[dquote]] | z # zs \<Rightarrow> (dquote # z) # zs)"
    by (simp only: split_on.simps pieces) (simp add: prefix_Cons)
  have "map (\<lambda>x. strip_chars [dquote] (str_strip x)) (split_on ?sep (dquote # ?inner)) = xs"
  proof (cases ys rule: rev_cases)
    case Nil
    with assms(1) show ?thesis by (simp only: split) (simp add: xs read_quoted)
  next
    case (snoc zs z)
    have "strip_chars [dquote] (str_strip x) = x" if "x \<in> set zs" for x
      using assms(1) by (intro read_quoted) (simp_all add: xs snoc \<open>x \<in> set zs\<close>)
    then have "map (\<lambda>x. strip_chars [dquote] (str_strip x)) zs = zs" by (rule map_idI)
    then show ?thesis using assms(1)
      by (simp only: split) (simp add: xs snoc read_quoted(2,3) butlast_append del: map_idI)
  qed
  moreover have "array_literal xs \<noteq> ''{}''"
    by (cases ys) (auto simp: array_literal_def xs)
  ultimately show ?thesis by (simp add: parse_array_def inner)
qed

section \<open>What a load writes\<close>

lemma insert_spot_done:
  assumes "insert_spot uid now cells w = (Inr u, w')"
  shows "w' = w\<lparr>spots := spots w @ [spot_of_cells uid now cells]\<rparr>" and "spot_checks cells"
  using assms by (auto simp: insert_spot_def Let_def insert_row_def split: if_splits)

lemma spot_of_cells_sel [simp]:
  "s_uid (spot_of_cells uid now cells) = uid" "s_deleted_at (spot_of_cells uid now cells) = None"
  "spot_key (spot_of_cells uid now cells) =
     conflict_key (str_cell cells ''source'') (str_cell cells ''external_id'')"
  "s_pipeline_status (spot_of_cells uid now cells) =
     (case str_cell cells ''pipeline_status'' of None \<Rightarrow> RAW | Some t \<Rightarrow> the (status_of_text t))"
  by (simp_all add: spot_of_cells_def spot_key_def) (simp_all add: blank_spot_def)

lemma insert_spot_ok:
  assumes "catalog_ok w" and "insert_spot uid now cells w = (Inr u, w')"
  shows "catalog_ok w'"
proof -
  let ?s = "spot_of_cells uid now cells"
  have w': "w' = w\<lparr>spots := spots w @ [?s]\<rparr>" by (rule insert_spot_done [OF assms(2)])
  have "uid \<notin> s_uid ` set (spots w)" "spot_key ?s = None \<or> spot_key ?s \<notin> spot_key ` set (spots w)"
    using assms(2) by (auto simp: insert_spot_def Let_def insert_row_def split: if_splits)
  with assms(1) show ?thesis
    by (auto simp: catalog_ok_def w' unique_key_snoc keyed_def)
qed

lemma flush_infos_done:
  "flush_infos bs w = (Inr u, w') \<Longrightarrow> w' = w\<lparr>business_infos := business_infos w @ bs\<rparr>"
  by (induction bs w rule: flush_infos.induct)
     (auto simp: insert_row_def split: if_splits option.splits)

lemma flush_infos_ok: "flush_infos bs w = (Inr u, w') \<Longrightarrow> infos_ok w \<Longrightarrow> infos_ok w'"
proof (induction bs w rule: flush_infos.induct)
  case (2 b bs w)
  from 2(2) have fresh: "bi_uid b \<notin> bi_uid ` set (business_infos w)"
      "bi_spot_uid b \<notin> bi_spot_uid ` set (business_infos w)"
    by (auto simp: insert_row_def split: if_splits)
  from 2(2) have rest: "flush_infos bs (w\<lparr>business_infos := business_infos w @ [b]\<rparr>) = (Inr u, w')"
    by (auto simp: insert_row_def split: if_splits)
  with 2 fresh show ?case by (auto simp: infos_ok_def unique_key_snoc insert_row_def split: if_splits)
qed simp

definition loaded_from :: "load_env \<Rightarrow> csv_row \<Rightarrow> spot \<Rightarrow> bool" where
  "loaded_from env r s \<longleftrightarrow> (\<exists>cells uid. parse_cells (le_float env) (le_date env) r SPOT_FIELDS = Inr cells
     \<and> spot_checks cells \<and> s = spot_of_cells uid (le_now env) cells)"

lemma load_rows_done:
  assumes "load_rows env i rs pending n w = (Inr m, w')"
  shows "\<exists>ss bs. w' = w\<lparr>spots := spots w @ ss, business_infos := business_infos w @ pending @ bs\<rparr>
    \<and> list_all2 (loaded_from env) rs ss \<and> m = n + length bs
    \<and> bi_spot_uid ` set bs \<subseteq> s_uid ` set ss"
  using assms
proof (induction env i rs pending n w rule: load_rows.induct)
  case (1 env i pending n w)
  then show ?case
    by (auto elim!: bindR_eq_InrD dest!: flush_infos_done intro!: exI [of _ "[]"])
next
  case (2 env i r rs pending n w)
  from 2(3) obtain cells u1 w1 u2 w2 vals where spot: "parse_cells (le_float env) (le_date env) r SPOT_FIELDS = Inr cells"
      and ins: "insert_spot (le_spot_uid env i) (le_now env) cells w = (Inr u1, w1)"
      and flush: "flush_infos pending w1 = (Inr u2, w2)"
      and vals: "parse_cells (le_float env) (le_date env) r BIZ_FIELDS = Inr vals"
      and next_row: "(if \<exists>c \<in> set vals. snd c \<noteq> Absent
         then load_rows env (Suc i) rs
                [info_of_cells (le_info_uid env i) (le_now env) (le_spot_uid env i) vals] (Suc n) w2
         else load_rows env (Suc i) rs [] n w2) = (Inr m, w')"
    by (auto elim!: check_eq_InrD bindR_eq_InrD)
  let ?s = "spot_of_cells (le_spot_uid env i) (le_now env) cells"
  note w1 = insert_spot_done [OF ins]
  note w2 = flush_infos_done [OF flush]
  have this_row: "loaded_from env r ?s" using spot w1(2) by (auto simp: loaded_from_def)
  show ?case
  proof (cases "\<exists>c \<in> set vals. snd c \<noteq> Absent")
    case True
    let ?b = "info_of_cells (le_info_uid env i) (le_now env) (le_spot_uid env i) vals"
    have b: "bi_spot_uid ?b = s_uid ?s" by (simp add: info_of_cells_def)
    have run: "load_rows env (Suc i) rs [?b] (Suc n) w2 = (Inr m, w')" using next_row True by simp
    from 2(1) [OF True run] obtain ss bs where
        "w' = w2\<lparr>spots := spots w2 @ ss, business_infos := business_infos w2 @ [?b] @ bs\<rparr>"
        "list_all2 (loaded_from env) rs ss" "m = Suc n + length bs" "bi_spot_uid ` set bs \<subseteq> s_uid ` set ss"
      by auto
    with this_row b w1 w2 show ?thesis
      by (intro exI [of _ "?s # ss"] exI [of _ "?b # bs"]) auto
  next
    case False
    have run: "load_rows env (Suc i) rs [] n w2 = (Inr m, w')" using next_row False by simp
    from 2(2) [OF False run] obtain ss bs where
        "w' = w2\<lparr>spots := spots w2 @ ss, business_infos := business_infos w2 @ bs\<rparr>"
        "list_all2 (loaded_from env) rs ss" "m = n + length bs" "bi_spot_uid ` set bs \<subseteq> s_uid ` set ss"
      by auto
    with this_row w1 w2 show ?thesis
      by (intro exI [of _ "?s # ss"] exI [of _ bs]) auto
  qed
qed

lemma load_rows_ok:
  assumes "load_rows env i rs pending n w = (Inr m, w')" and "catalog_ok w" and "infos_ok w"
  shows "catalog_ok w' \<and> infos_ok w'"
  using assms
proof (induction env i rs pending n w rule: load_rows.induct)
  case (1 env i pending n w)
  then show ?case
    by (auto elim!: bindR_eq_InrD dest: flush_infos_ok flush_infos_done simp: catalog_ok_def)
next
  case (2 env i r rs pending n w)
  from 2(3) obtain cells u1 w1 u2 w2 vals where ins: "insert_spot (le_spot_uid env i) (le_now env) cells w = (Inr u1, w1)"
      and flush: "flush_infos pending w1 = (Inr u2, w2)"
      and next_row: "(if \<exists>c \<in> set vals. snd c \<noteq> Absent
         then load_rows env (Suc i) rs
                [info_of_cells (le_info_uid env i) (le_now env) (le_spot_uid env i) vals] (Suc n) w2
         else load_rows env (Suc i) rs [] n w2) = (Inr m, w')"
    by (auto elim!: check_eq_InrD bindR_eq_InrD)
  have "infos_ok w1" using insert_spot_done [OF ins] 2(5) by (simp add: infos_ok_def)
  then have "infos_ok w2" by (rule flush_infos_ok [OF flush])
  moreover have "catalog_ok w2"
    using flush_infos_done [OF flush] insert_spot_ok [OF 2(4) ins] by (simp add: catalog_ok_def)
  ultimately show ?case using 2(1) 2(2) next_row by (auto split: if_splits)
qed

lemma parse_cells_get:
  assumes "parse_cells to_float to_date r fs = Inr cells" and "f \<in> set fs"
  shows "\<exists>raw c. csv_get r f = Inr (Some raw) \<and> parse to_float to_date f raw = Inr c \<and> map_of cells f = Some c"
  using assms
proof (induction fs arbitrary: cells)
  case (Cons g fs)
  from Cons.prems(1) obtain raw c cs where get: "csv_get r g = Inr (Some raw)"
      and c: "parse to_float to_date g raw = Inr c"
      and cs: "parse_cells to_float to_date r fs = Inr cs" "cells = (g, c) # cs"
    by (auto simp: bindE_Inr_iff split: option.splits)
  show ?case
  proof (cases "f = g")
    case False
    with Cons cs show ?thesis by auto
  qed (use get c cs in auto)
qed simp

text \<open>The value of a column that is a text, whatever the parameters.\<close>

definition text_of :: "csv_row \<Rightarrow> string \<Rightarrow> string option" where
  "text_of r f =
     (case map_of r f of Some (Some raw) \<Rightarrow> if str_strip raw = [] then None else Some (str_strip raw) | _ \<Rightarrow> None)"

lemma str_cell_text:
  assumes "parse_cells to_float to_date r SPOT_FIELDS = Inr cells" and "f \<in> set SPOT_FIELDS"
    and "f \<notin> set (ARRAY_FIELDS @ BOOL_FIELDS @ FLOAT_FIELDS @ INT_FIELDS @ DATE_FIELDS)"
  shows "str_cell cells f = text_of r f"
  using parse_cells_get [OF assms(1,2)] assms(3)
  by (auto simp: str_cell_def text_of_def parse_def csv_get_def Let_def split: option.splits if_splits)

lemma text_columns:
  assumes "parse_cells to_float to_date r SPOT_FIELDS = Inr cells"
  shows "str_cell cells ''source'' = text_of r ''source''"
    "str_cell cells ''external_id'' = text_of r ''external_id''"
    "str_cell cells ''title'' = text_of r ''title''"
    "str_cell cells ''pipeline_status'' = text_of r ''pipeline_status''"
  by (rule str_cell_text [OF assms];
      simp add: SPOT_FIELDS_def ARRAY_FIELDS_def BOOL_FIELDS_def FLOAT_FIELDS_def INT_FIELDS_def DATE_FIELDS_def)+

definition csv_key :: "csv_row \<Rightarrow> (string \<times> string) option" where
  "csv_key r = conflict_key (text_of r ''source'') (text_of r ''external_id'')"

lemma loaded_from_sel:
  assumes "loaded_from env r s"
  shows "spot_key s = csv_key r" "Some (s_title s) = text_of r ''title''"
    "map_of r ''pipeline_status'' = Some (Some ''ENRICHED'') \<Longrightarrow> s_pipeline_status s = ENRICHED"
proof -
  from assms obtain cells uid where cells: "parse_cells (le_float env) (le_date env) r SPOT_FIELDS = Inr cells"
      and ok: "spot_checks cells" and s: "s = spot_of_cells uid (le_now env) cells"
    by (auto simp: loaded_from_def)
  note cols = text_columns [OF cells]
  show "spot_key s = csv_key r" by (simp add: s cols csv_key_def)
  show "Some (s_title s) = text_of r ''title''"
    using ok cols by (auto simp: s spot_of_cells_def spot_checks_def)
  show "s_pipeline_status s = ENRICHED" if "map_of r ''pipeline_status'' = Some (Some ''ENRICHED'')"
  proof -
    have "str_strip ''ENRICHED'' = ''ENRICHED''" by code_simp
    with that have "text_of r ''pipeline_status'' = Some ''ENRICHED''" by (simp add: text_of_def)
    then show ?thesis by (simp add: s cols status_of_text_def)
  qed
qed

lemma enriched_rows_eq:
  "enriched_rows csv = Inr rows \<Longrightarrow>
     rows = filter (\<lambda>r. map_of r ''pipeline_status'' = Some (Some ''ENRICHED'')) csv"
  by (induction csv arbitrary: rows)
     (auto simp: bindE_Inr_iff csv_get_def split: option.splits if_splits)

text \<open>
  A load commits all rows or none: when it returns, exactly the 191 enriched rows of the file were
  added, in order, each with its title and status, and every business information belongs to one
  of the new spots; when it raises, the database is as it was.
\<close>

theorem load_all_or_nothing:
  assumes "upload_main environ env csv w = (result, w')"
  shows "case result of
      Inl e \<Rightarrow> w' = w
    | Inr report \<Rightarrow> \<exists>ss bs. w' = w\<lparr>spots := spots w @ ss, business_infos := business_infos w @ bs\<rparr>
        \<and> list_all2 (\<lambda>r s. spot_key s = csv_key r \<and> Some (s_title s) = text_of r ''title''
             \<and> s_pipeline_status s = ENRICHED)
            (filter (\<lambda>r. map_of r ''pipeline_status'' = Some (Some ''ENRICHED'')) csv) ss
        \<and> length ss = 191 \<and> bi_spot_uid ` set bs \<subseteq> s_uid ` set ss
        \<and> report = \<lparr>lr_rows = 191, lr_spots = length (spots w) + 191, lr_biz_count = length bs,
                    lr_infos = length (business_infos w) + length bs\<rparr>"
proof (cases result)
  case (Inl e)
  with assms show ?thesis
    by (auto simp: upload_main_def check_def split: sum.splits if_splits prod.splits)
next
  case (Inr report)
  let ?rows = "filter (\<lambda>r. map_of r ''pipeline_status'' = Some (Some ''ENRICHED'')) csv"
  from assms Inr obtain rows n where rows: "enriched_rows csv = Inr rows" "length rows = 191"
      and run: "load_rows env 0 rows [] 0 w = (Inr n, w')"
      and report: "report = \<lparr>lr_rows = length rows, lr_spots = length (spots w'), lr_biz_count = n,
          lr_infos = length (business_infos w')\<rparr>"
    by (auto simp: upload_main_def check_def split: sum.splits if_splits prod.splits)
  note eq = enriched_rows_eq [OF rows(1)]
  from load_rows_done [OF run] obtain ss bs where
      w': "w' = w\<lparr>spots := spots w @ ss, business_infos := business_infos w @ bs\<rparr>"
      and each: "list_all2 (loaded_from env) rows ss" and n: "n = length bs"
      and owned: "bi_spot_uid ` set bs \<subseteq> s_uid ` set ss" by auto
  have "length ss = 191" using each rows(2) by (simp add: list_all2_lengthD)
  moreover have "list_all2 (\<lambda>r s. spot_key s = csv_key r \<and> Some (s_title s) = text_of r ''title''
      \<and> s_pipeline_status s = ENRICHED) ?rows ss"
    using each unfolding eq
    by (rule list.rel_mono_strong) (auto dest: loaded_from_sel)
  ultimately show ?thesis
    using Inr w' n owned report rows(2) by (auto simp: list_all2_lengthD)
qed

text \<open>Spots keep one row of a source and external id, and one business information of a spot.\<close>

theorem load_keeps_keys:
  assumes "catalog_ok w" and "infos_ok w"
  shows "catalog_ok (snd (upload_main environ env csv w))" "infos_ok (snd (upload_main environ env csv w))"
  using assms load_rows_ok [of env 0 _ "[]" 0 w]
  by (auto simp: upload_main_def check_def split: sum.splits prod.splits)

text \<open>
  The script runs once: when the file has an enriched row with a source and an external id, a
  second run raises, whatever the connection, the clock and the identifiers, and adds nothing.
\<close>

theorem load_runs_once:
  assumes ok: "catalog_ok w" "infos_ok w"
    and first: "upload_main environ env csv w = (Inr report, w')"
    and row: "r \<in> set csv" "map_of r ''pipeline_status'' = Some (Some ''ENRICHED'')" "csv_key r \<noteq> None"
  shows "\<exists>e. upload_main environ' env' csv w' = (Inl e, w')"
proof (cases "upload_main environ' env' csv w'")
  case (Pair result w2)
  show ?thesis
  proof (cases result)
    case (Inl e)
    with load_all_or_nothing [OF Pair] Pair show ?thesis by auto
  next
    case (Inr report')
    from load_all_or_nothing [OF first] obtain ss bs where
        w': "w' = w\<lparr>spots := spots w @ ss, business_infos := business_infos w @ bs\<rparr>"
        and each: "list_all2 (\<lambda>r s. spot_key s = csv_key r \<and> Some (s_title s) = text_of r ''title''
             \<and> s_pipeline_status s = ENRICHED)
            (filter (\<lambda>r. map_of r ''pipeline_status'' = Some (Some ''ENRICHED'')) csv) ss" by auto
    from load_all_or_nothing [OF Pair] Inr obtain ss2 bs2 where
        w2: "w2 = w'\<lparr>spots := spots w' @ ss2, business_infos := business_infos w' @ bs2\<rparr>"
        and each2: "list_all2 (\<lambda>r s. spot_key s = csv_key r \<and> Some (s_title s) = text_of r ''title''
             \<and> s_pipeline_status s = ENRICHED)
            (filter (\<lambda>r. map_of r ''pipeline_status'' = Some (Some ''ENRICHED'')) csv) ss2" by auto
    have found: "csv_key r \<in> spot_key ` set ss" "csv_key r \<in> spot_key ` set ss2"
      using each each2 row by (force simp: in_set_conv_decomp list_all2_append1 list_all2_Cons1)+
    have "catalog_ok w'" "infos_ok w'" using load_keeps_keys [OF ok, of environ env csv] first by simp_all
    then have "catalog_ok w2" using load_keeps_keys [of w' environ' env' csv] Pair by simp
    moreover have "csv_key r \<in> set (keyed ss)" "csv_key r \<in> set (keyed ss2)"
      using found row(3) by (auto simp: set_keyed)
    ultimately show ?thesis
      by (auto simp: catalog_ok_def w2 w' keyed_def)
  qed
qed

end
