(* ===== verification/Integrity.thy ===== *)
theory Integrity
  imports Application Catalog Local_Load
begin

text \<open>
  What the constraints of the database promise about its rows: every foreign key of \<open>models/*.py\<close>
  refers to a row (\<open>references_ok\<close>) and every primary key, unique column and unique index has each
  value once (\<open>keys_ok\<close>).  Each statement of the \<open>crud\<close> modules keeps both when the rows it
  is given exist; \<open>Requests\<close> shows that the endpoints only run it so.
\<close>

section \<open>Foreign keys\<close>

abbreviation user_uids :: "'r world \<Rightarrow> uid set" where
  "user_uids w \<equiv> u_uid ` set (users w)"

abbreviation spot_uids :: "'r world \<Rightarrow> uid set" where
  "spot_uids w \<equiv> s_uid ` set (spots w)"

abbreviation group_uids :: "'r world \<Rightarrow> uid set" where
  "group_uids w \<equiv> g_uid ` set (spot_groups w)"

abbreviation review_uids :: "'r world \<Rightarrow> uid set" where
  "review_uids w \<equiv> rv_uid ` set (spot_reviews w)"

abbreviation conversation_uids :: "'r world \<Rightarrow> uid set" where
  "conversation_uids w \<equiv> c_uid ` set (conversations w)"

definition refers :: "uid option \<Rightarrow> uid set \<Rightarrow> bool" where
  "refers v keys \<longleftrightarrow> (case v of None \<Rightarrow> True | Some k \<Rightarrow> k \<in> keys)"

lemma refers_simps [simp]: "refers None keys" "refers (Some k) keys \<longleftrightarrow> k \<in> keys"
  by (simp_all add: refers_def)

lemma refers_mono: "refers v keys \<Longrightarrow> keys \<subseteq> keys' \<Longrightarrow> refers v keys'"
  by (cases v) auto

definition references_ok :: "uid set \<Rightarrow> 'r world \<Rightarrow> bool" where
  "references_ok A w \<longleftrightarrow> A \<subseteq> user_uids w
   \<and> (\<forall>u \<in> set (users w). refers (u_referred_by_uid u) (user_uids w))
   \<and> (\<forall>s \<in> set (spots w). refers (s_assigned_to_uid s) (user_uids w))
   \<and> (\<forall>i \<in> set (spot_images w). si_spot_uid i \<in> spot_uids w)
   \<and> (\<forall>b \<in> set (business_infos w). bi_spot_uid b \<in> spot_uids w)
   \<and> (\<forall>m \<in> set (group_members w). gm_group_uid m \<in> group_uids w \<and> gm_user_uid m \<in> user_uids w
        \<and> refers (gm_invited_by_uid m) (user_uids w))
   \<and> (\<forall>x \<in> set (group_spots w). gs_group_uid x \<in> group_uids w \<and> gs_spot_uid x \<in> spot_uids w
        \<and> gs_added_by_uid x \<in> user_uids w)
   \<and> (\<forall>i \<in> set (invites w). iv_inviter_uid i \<in> user_uids w \<and> refers (iv_group_uid i) (group_uids w)
        \<and> refers (iv_accepted_by_uid i) (user_uids w))
   \<and> (\<forall>r \<in> set (spot_reviews w). rv_spot_uid r \<in> spot_uids w \<and> rv_user_id r \<in> user_uids w)
   \<and> (\<forall>p \<in> set (review_reports w). rr_review_uid p \<in> review_uids w \<and> rr_reporter_user_uid p \<in> user_uids w)
   \<and> (\<forall>p \<in> set (participants w). cp_conversation_uid p \<in> conversation_uids w \<and> cp_user_uid p \<in> user_uids w)
   \<and> (\<forall>m \<in> set (messages w). m_conversation_uid m \<in> conversation_uids w \<and> m_sender_uid m \<in> user_uids w)
   \<and> (\<forall>b \<in> set (user_blocks w). ub_blocker_uid b \<in> user_uids w \<and> ub_blocked_uid b \<in> user_uids w)"

lemma references_empty: "references_ok {} (empty_world r)"
  by (simp add: references_ok_def empty_world_def)

lemma references_redis [simp]: "references_ok A (w\<lparr>redis := r\<rparr>) = references_ok A w"
  by (simp add: references_ok_def)

lemma references_bump [simp]: "references_ok A (bump_spots client w) = references_ok A w"
  by (simp add: bump_spots_def)

lemma references_invalidate [simp]: "references_ok A (invalidate_detail client uid w) = references_ok A w"
  by (simp add: invalidate_detail_def)

lemma references_invalidates [simp]: "references_ok A (invalidate_details client uids w) = references_ok A w"
  unfolding invalidate_details_def by (induction uids arbitrary: w) simp_all

lemmas references_check = check_state [where P = "references_ok A" for A]

text \<open>Rows that are rewritten keep their keys and refer to what they or others referred to.\<close>

lemma references_spots:
  assumes "references_ok A w" and "map s_uid rows = map s_uid (spots w)"
    and "\<And>s. s \<in> set rows \<Longrightarrow> refers (s_assigned_to_uid s) (user_uids w)"
  shows "references_ok A (w\<lparr>spots := rows\<rparr>)"
proof -
  have "s_uid ` set rows = spot_uids w" using assms(2) by (metis list.set_map)
  with assms(1,3) show ?thesis by (simp add: references_ok_def)
qed

lemma references_users:
  assumes "references_ok A w" and "map u_uid rows = map u_uid (users w)"
    and "\<And>u. u \<in> set rows \<Longrightarrow> refers (u_referred_by_uid u) (user_uids w)"
  shows "references_ok A (w\<lparr>users := rows\<rparr>)"
proof -
  have "u_uid ` set rows = user_uids w" using assms(2) by (metis list.set_map)
  with assms(1,3) show ?thesis by (simp add: references_ok_def)
qed

section \<open>Foreign keys after a statement\<close>

lemma references_add_member:
  assumes "references_ok A w" and "k \<in> group_uids w" "u \<in> user_uids w" "by \<in> user_uids w"
  shows "references_ok A (snd (add_member now k u role by w))"
  using assms unfolding add_member_def
  by (intro references_check) (auto simp: references_ok_def insert_row_def Let_def)

lemma references_add_spot:
  assumes "references_ok A w" and "k \<in> group_uids w" "s \<in> spot_uids w" "by \<in> user_uids w"
  shows "references_ok A (snd (add_spot now k s by w))"
  using assms unfolding add_spot_def
  by (intro references_check) (auto simp: references_ok_def insert_row_def Let_def)

lemma references_update_group: "references_ok A w \<Longrightarrow> references_ok A (snd (update_group now g data w))"
proof (cases "set_group_attrs data g")
  case (Some changed)
  have key: "set_group_attrs as x = Some y \<Longrightarrow> g_uid y = g_uid x" for as x y
  proof (induction as arbitrary: x)
    case (Cons a as)
    then show ?case by (cases a) (auto split: option.splits)
  qed simp
  let ?f = "\<lambda>_ :: spot_group. if changed = g then g else changed\<lparr>g_updated_at := Some now\<rparr>"
  have "map g_uid (update_where (\<lambda>x. g_uid x = g_uid g) ?f (spot_groups w)) = map g_uid (spot_groups w)"
    using key [OF Some] by (intro map_key_update_where) auto
  then have "g_uid ` set (update_where (\<lambda>x. g_uid x = g_uid g) ?f (spot_groups w)) = group_uids w"
    by (metis list.set_map)
  moreover assume "references_ok A w"
  ultimately show ?thesis using Some by (auto simp: update_group_def references_ok_def Let_def)
qed (simp add: update_group_def)

lemma refers_other: "refers v (f ` set xs) \<Longrightarrow> v \<noteq> Some k \<Longrightarrow> refers v (f ` {x \<in> set xs. f x \<noteq> k})"
  by (cases v) auto

lemma references_delete_group: "references_ok A w \<Longrightarrow> references_ok A (delete_group g w)"
  by (auto simp: delete_group_def delete_where_def references_ok_def intro: refers_other)

lemma references_create_group:
  "references_ok A w \<Longrightarrow> u \<in> user_uids w \<Longrightarrow> references_ok A (snd (create_group fresh now u n d v w))"
  by (auto simp: create_group_def insert_row_def Let_def references_ok_def intro: refers_mono split: option.splits)

lemma references_update_role: "references_ok A w \<Longrightarrow> references_ok A (snd (update_member_role m r w))"
  by (auto simp: update_member_role_def update_where_def references_ok_def)

lemma references_remove_member: "references_ok A w \<Longrightarrow> references_ok A (snd (remove_member m w))"
  by (auto simp: remove_member_def delete_where_def references_ok_def)

lemma references_remove_spot: "references_ok A w \<Longrightarrow> references_ok A (snd (remove_spot k s w))"
  unfolding remove_spot_def
  by (intro references_check) (auto simp: delete_where_def references_ok_def)

lemma references_create_invite:
  assumes "references_ok A w" and "u \<in> user_uids w" "refers k (group_uids w)"
  shows "references_ok A (snd (create_invite fresh now u k role w))"
  using assms by (auto simp: create_invite_def insert_row_def Let_def references_ok_def)

lemma references_accepted:
  assumes "references_ok A w" and "i \<in> set (invites w)" "u \<in> user_uids w"
  shows "references_ok A (save_accepted now i u w)"
  using assms by (auto simp: save_accepted_def mark_accepted_def update_where_def references_ok_def)

lemma references_save_user:
  assumes "references_ok A w" and "u \<in> set (users w)" "u_uid new = u_uid u" "refers (u_referred_by_uid new) (user_uids w)"
  shows "references_ok A (snd (save_user now u new w))"
proof (cases "new = u")
  case False
  let ?rows = "update_where (\<lambda>x. u_uid x = u_uid u) (\<lambda>_. new\<lparr>u_updated_at := now\<rparr>) (users w)"
  have "map u_uid ?rows = map u_uid (users w)" using assms(3) by (intro map_key_update_where) simp
  moreover have "refers (u_referred_by_uid x) (user_uids w)" if "x \<in> set ?rows" for x
    using that assms(1,4) by (auto simp: update_where_def references_ok_def split: if_splits)
  ultimately show ?thesis using False assms(1) by (simp add: save_user_def Let_def references_users)
qed (simp add: save_user_def assms(1))

lemma references_create_user:
  assumes "references_ok A w" shows "references_ok A (snd (create_user uid draws now email sub name picture w))"
proof -
  have grown: "references_ok A (w\<lparr>users := users w @ [new_user uid now email sub nickname name picture]\<rparr>)" for nickname
    using assms by (auto simp: references_ok_def new_user_def intro: refers_mono)
  show ?thesis unfolding create_user_def
    by (rule references_check) (auto simp: insert_user_def Let_def assms grown)
qed

lemma references_update_spots:
  assumes "references_ok A w" and "\<And>s. s_uid (f s) = s_uid s"
    and "\<And>s. s \<in> set (spots w) \<Longrightarrow> refers (s_assigned_to_uid (f s)) (user_uids w)"
  shows "references_ok A (update_spots now P f w)"
  unfolding update_spots_def
  using assms by (intro references_spots map_key_update_where) (auto simp: update_where_def references_ok_def)

lemma references_recalculate: "references_ok A w \<Longrightarrow> references_ok A (recalculate_spot_rating now k w)"
  unfolding recalculate_spot_rating_def Let_def
  by (intro references_update_spots) (auto simp: references_ok_def)

lemma references_reviews:
  assumes "references_ok A w" and "map rv_uid rows = map rv_uid (spot_reviews w)"
    and "\<And>r. r \<in> set rows \<Longrightarrow> rv_spot_uid r \<in> spot_uids w \<and> rv_user_id r \<in> user_uids w"
  shows "references_ok A (w\<lparr>spot_reviews := rows\<rparr>)"
proof -
  have "rv_uid ` set rows = review_uids w" using assms(2) by (metis list.set_map)
  with assms(1,3) show ?thesis by (simp add: references_ok_def)
qed

lemma references_insert_review:
  assumes "references_ok A w" and "insert_review r w = Some w'" and "rv_user_id r \<in> user_uids w"
  shows "references_ok A w'"
  using assms(2)
proof (cases "rv_spot_uid r \<in> spot_uids w")
  case True
  have "w' = w\<lparr>spot_reviews := spot_reviews w @ [r]\<rparr>"
    using assms(2) by (simp add: insert_review_def split: if_splits)
  with assms(1,3) True show ?thesis by (simp add: references_ok_def)
qed (simp add: insert_review_def)

lemma references_create_review:
  assumes "references_ok A w" and "u \<in> user_uids w"
  shows "references_ok A (snd (create_review client fresh now s u n c w))"
proof -
  let ?r = "\<lparr>rv_uid = fresh, rv_spot_uid = s, rv_user_id = u, rv_rating = n, rv_content = c, rv_created_at = Some now,
    rv_updated_at = Some now, rv_deleted_at = None\<rparr>"
  have "references_ok A w'" if "insert_review ?r w = Some w'" for w'
    using references_insert_review [OF assms(1) that] assms(2) by simp
  then show ?thesis
    unfolding create_review_def Let_def
    by (intro references_check) (simp_all add: assms(1) references_recalculate split: option.split)
qed

lemma references_update_review:
  assumes "references_ok A w" and "r \<in> set (spot_reviews w)"
  shows "references_ok A (snd (update_review client now r data w))"
proof (cases "set_review_attrs data r")
  case (Some changed)
  have same: "set_review_attrs as x = Some y \<Longrightarrow> rv_uid y = rv_uid x \<and> rv_spot_uid y = rv_spot_uid x \<and> rv_user_id y = rv_user_id x"
    for as x y
  proof (induction as arbitrary: x)
    case (Cons a as)
    then show ?case by (cases a) (fastforce split: option.splits if_splits)+
  qed simp
  let ?saved = "if changed = r then r else changed\<lparr>rv_updated_at := Some now\<rparr>"
  let ?rows = "update_where (\<lambda>x. rv_uid x = rv_uid r) (\<lambda>_. ?saved) (spot_reviews w)"
  have "references_ok A (w\<lparr>spot_reviews := ?rows\<rparr>)"
    using assms same [OF Some]
    by (intro references_reviews map_key_update_where) (auto simp: update_where_def references_ok_def)
  then show ?thesis by (simp add: update_review_def Some Let_def references_recalculate)
qed (simp add: update_review_def assms)

lemma references_delete_review:
  assumes "references_ok A w" shows "references_ok A (soft_delete_review client now r w)"
proof -
  let ?rows = "update_where (\<lambda>x. rv_uid x = rv_uid r) (\<lambda>x. x\<lparr>rv_deleted_at := Some now, rv_updated_at := Some now\<rparr>) (spot_reviews w)"
  have "references_ok A (w\<lparr>spot_reviews := ?rows\<rparr>)"
    using assms by (intro references_reviews map_key_update_where) (auto simp: update_where_def references_ok_def)
  then show ?thesis by (simp add: soft_delete_review_def references_recalculate)
qed

lemma references_create_report:
  assumes "references_ok A w" and "k \<in> review_uids w" "u \<in> user_uids w"
  shows "references_ok A (snd (create_report fresh now k u reason w))"
  unfolding create_report_def using assms
  by (intro references_check) (auto simp: insert_row_def Let_def references_ok_def)

lemma references_mark_read: "references_ok A w \<Longrightarrow> references_ok A (mark_read now p w)"
  by (auto simp: mark_read_def update_where_def references_ok_def)

lemma references_delete_message: "references_ok A w \<Longrightarrow> references_ok A (soft_delete_message now m w)"
  by (auto simp: soft_delete_message_def update_where_def references_ok_def)

lemma references_insert_block:
  assumes "references_ok A w" "insert_block b w = Some w'" shows "references_ok A w'"
proof -
  have "w' = w\<lparr>user_blocks := user_blocks w @ [b]\<rparr>" "ub_blocker_uid b \<in> user_uids w" "ub_blocked_uid b \<in> user_uids w"
    using assms(2) by (simp_all add: insert_block_def split: if_splits)
  with assms(1) show ?thesis by (simp add: references_ok_def)
qed

lemma references_unblock:
  assumes "references_ok A w" shows "references_ok A (w\<lparr>user_blocks := delete_where P (user_blocks w)\<rparr>)"
proof -
  have "\<forall>b \<in> set (delete_where P (user_blocks w)). ub_blocker_uid b \<in> user_uids w \<and> ub_blocked_uid b \<in> user_uids w"
    using assms by (simp add: references_ok_def delete_where_def)
  with assms show ?thesis by (simp add: references_ok_def)
qed

lemma references_insert_conversation:
  assumes "references_ok A w" "insert_conversation c members now w = Some w'" shows "references_ok A w'"
proof -
  have w': "w' = w\<lparr>conversations := conversations w @ [c],
      participants := participants w @ map (new_participant (c_uid c) now) members\<rparr>"
    and members: "set members \<subseteq> user_uids w"
    using assms(2) by (auto simp: insert_conversation_def split: if_splits)
  have seats: "\<forall>p \<in> set (map (new_participant (c_uid c) now) members).
      cp_conversation_uid p \<in> insert (c_uid c) (conversation_uids w) \<and> cp_user_uid p \<in> user_uids w"
    using members by (auto simp: new_participant_def)
  have old: "\<forall>p \<in> set (participants w). cp_conversation_uid p \<in> insert (c_uid c) (conversation_uids w) \<and> cp_user_uid p \<in> user_uids w"
    "\<forall>m \<in> set (messages w). m_conversation_uid m \<in> insert (c_uid c) (conversation_uids w) \<and> m_sender_uid m \<in> user_uids w"
    using assms(1) by (simp_all add: references_ok_def)
  have "\<forall>p \<in> set (participants w').
      cp_conversation_uid p \<in> insert (c_uid c) (conversation_uids w) \<and> cp_user_uid p \<in> user_uids w"
    using seats old(1) by (simp add: w' ball_Un)
  with assms(1) old(2) show ?thesis by (simp add: w' references_ok_def)
qed

lemma references_create_message:
  assumes "references_ok A w" "c \<in> set (conversations w)" "u \<in> user_uids w"
  shows "references_ok A (snd (create_message fresh now c u content w))"
proof -
  let ?rows = "update_where (\<lambda>x. c_uid x = c_uid c) (\<lambda>x. x\<lparr>c_updated_at := now\<rparr>) (conversations w)"
  have "map c_uid ?rows = map c_uid (conversations w)" by (intro map_key_update_where) simp
  then have "c_uid ` set ?rows = conversation_uids w" by (metis list.set_map)
  with assms show ?thesis
    by (auto simp: create_message_def Let_def insert_row_def references_ok_def)
qed

lemma set_spot_attr_assigned:
  "set_spot_attr a s = Some s' \<Longrightarrow> s_uid s' = s_uid s
    \<and> (s_assigned_to_uid s' = s_assigned_to_uid s \<or> a = Set_assigned_to_uid (s_assigned_to_uid s'))"
  by (cases a) (auto split: option.splits if_splits)

lemma set_spot_attrs_assigned:
  "set_spot_attrs data s = Some s' \<Longrightarrow> s_uid s' = s_uid s
    \<and> (s_assigned_to_uid s' = s_assigned_to_uid s \<or> Set_assigned_to_uid (s_assigned_to_uid s') \<in> set data)"
proof (induction data arbitrary: s)
  case (Cons a data)
  then obtain s1 where "set_spot_attr a s = Some s1" "set_spot_attrs data s1 = Some s'"
    by (auto split: option.splits)
  with Cons.IH [of s1] set_spot_attr_assigned [of a s s1] show ?case by auto
qed simp

lemma references_rows_kept:
  assumes "references_ok A w" and "\<And>s. s_uid (f s) = s_uid s" and "\<And>s. s_assigned_to_uid (f s) = s_assigned_to_uid s"
  shows "references_ok A (update_spots now P f w)"
  using assms by (intro references_update_spots) (simp_all add: references_ok_def)

lemma references_save_spot:
  assumes ok: "references_ok A w" and s: "s \<in> set (spots w)" and s': "set_spot_attrs data s = Some s'"
    and data: "\<And>v. Set_assigned_to_uid v \<in> set data \<Longrightarrow> refers v (user_uids w)"
  shows "references_ok A (save_spot now s s' w)"
proof -
  have new: "s_uid s' = s_uid s" "refers (s_assigned_to_uid s') (user_uids w)"
    using set_spot_attrs_assigned [OF s'] data ok s by (auto simp: references_ok_def)
  let ?rows = "update_where (\<lambda>x. s_uid x = s_uid s) (\<lambda>_. s'\<lparr>s_updated_at := Some now\<rparr>) (spots w)"
  have "map s_uid ?rows = map s_uid (spots w)" using new(1) by (intro map_key_update_where) simp
  moreover have "refers (s_assigned_to_uid x) (user_uids w)" if "x \<in> set ?rows" for x
    using that new(2) ok by (auto simp: update_where_def references_ok_def split: if_splits)
  ultimately show ?thesis using ok by (simp add: save_spot_def references_spots)
qed

lemma references_user_admin: "references_ok A w \<Longrightarrow> references_ok A (user_admin_update now uid form w)"
  unfolding user_admin_update_def
  by (intro references_users map_key_update_where)
     (auto simp: update_where_def references_ok_def Let_def split: if_splits)

lemma references_image_rows:
  assumes "references_ok A w" and "\<And>i. i \<in> set rows \<Longrightarrow> si_spot_uid i \<in> spot_uids w"
  shows "references_ok A (w\<lparr>spot_images := rows\<rparr>)"
  using assms by (simp add: references_ok_def)

lemma references_images_update:
  assumes "references_ok A w" and "\<And>i. i \<in> set (spot_images w) \<Longrightarrow> P i \<Longrightarrow> si_spot_uid (f i) \<in> spot_uids w"
  shows "references_ok A (w\<lparr>spot_images := update_where P f (spot_images w)\<rparr>)"
proof (rule references_image_rows [OF assms(1)])
  have "\<forall>i \<in> set (spot_images w). si_spot_uid i \<in> spot_uids w" using assms(1) by (simp add: references_ok_def)
  then show "si_spot_uid i \<in> spot_uids w" if "i \<in> set (update_where P f (spot_images w))" for i
    using that assms(2) by (auto simp: update_where_def split: if_splits)
qed

lemma references_image_spot: "references_ok A w \<Longrightarrow> i \<in> set (spot_images w) \<Longrightarrow> si_spot_uid i \<in> spot_uids w"
  by (simp add: references_ok_def)

lemma references_invalidate_spot [simp]: "references_ok A (invalidate_spot client uid w) = references_ok A w"
  by (simp add: invalidate_spot_def)

lemma references_create_image:
  assumes "references_ok A w"
  shows "references_ok A (snd (create_image client uid now k key role n public ct w))"
proof -
  have "references_ok A (w\<lparr>spot_images := spot_images w @ [i]\<rparr>)" if "si_spot_uid i \<in> spot_uids w" for i
    using assms that by (intro references_image_rows) (auto simp: references_ok_def)
  with assms show ?thesis by (auto simp: create_image_def Let_def insert_row_def)
qed

lemma set_image_attrs_spot: "set_image_attrs data i = Some i' \<Longrightarrow> si_spot_uid i' = si_spot_uid i"
proof (induction data arbitrary: i)
  case (Cons a data)
  then show ?case by (cases a) (auto split: option.splits)
qed simp

lemma references_update_image:
  assumes ok: "references_ok A w" and i: "i \<in> set (spot_images w)"
  shows "references_ok A (snd (update_image client now i data w))"
proof (cases "set_image_attrs data i")
  case (Some changed)
  have "si_spot_uid (save_image now i changed) \<in> spot_uids w"
    using references_image_spot [OF ok i] set_image_attrs_spot [OF Some] by (simp add: save_image_def)
  then show ?thesis using ok by (simp add: update_image_def Some Let_def references_images_update)
qed (simp add: update_image_def ok)

lemma references_delete_image: "references_ok A w \<Longrightarrow> references_ok A (delete_image client now i w)"
  using references_image_spot by (auto simp: delete_image_def intro!: references_images_update)

lemma references_options [simp]: "references_ok A (w\<lparr>field_options := rows\<rparr>) = references_ok A w"
  by (simp add: references_ok_def)

lemma set_option_column_kept [simp]:
  "s_uid (set_option_column field v s) = s_uid s" "s_assigned_to_uid (set_option_column field v s) = s_assigned_to_uid s"
  by (cases field; simp add: set_option_column_def)+

lemma references_field_options:
  assumes "references_ok A w"
  shows references_create_option: "references_ok A (snd (create_field_option now field code label w))"
    and references_delete_option: "references_ok A (snd (delete_field_option now field code w))"
  using assms
  by (auto simp: create_field_option_def delete_field_option_def Let_def intro!: references_rows_kept split: option.split)

lemma references_infos:
  assumes "references_ok A w" and "\<And>b. b \<in> set rows \<Longrightarrow> bi_spot_uid b \<in> spot_uids w"
  shows "references_ok A (w\<lparr>business_infos := rows\<rparr>)"
  using assms by (simp add: references_ok_def)

lemma references_info_spot: "references_ok A w \<Longrightarrow> b \<in> set (business_infos w) \<Longrightarrow> bi_spot_uid b \<in> spot_uids w"
  by (simp add: references_ok_def)

lemma references_infos_update:
  assumes ok: "references_ok A w" and "\<And>b. b \<in> set (business_infos w) \<Longrightarrow> P b \<Longrightarrow> bi_spot_uid (f b) \<in> spot_uids w"
  shows "references_ok A (w\<lparr>business_infos := update_where P f (business_infos w)\<rparr>)"
  using assms(2) references_info_spot [OF ok]
  by (intro references_infos [OF ok]) (auto simp: update_where_def split: if_splits)

lemma references_infos_insert:
  assumes ok: "references_ok A w" and "bi_spot_uid b \<in> spot_uids w" and "insert_row bi_uid b (business_infos w) = Some rows"
  shows "references_ok A (w\<lparr>business_infos := rows\<rparr>)"
  using assms(2,3) references_info_spot [OF ok]
  by (intro references_infos [OF ok]) (auto simp: insert_row_def split: if_splits)

lemma write_columns_kept [simp]:
  "s_uid (write_columns row s) = s_uid s" "s_assigned_to_uid (write_columns row s) = s_assigned_to_uid s"
  by (simp_all add: write_columns_def)

lemma references_insert_spot:
  assumes ok: "references_ok A w" and "s_assigned_to_uid s = None" and "insert_row s_uid s (spots w) = Some rows"
  shows "references_ok A (w\<lparr>spots := rows\<rparr>)"
proof -
  have rows: "rows = spots w @ [s]" using assms(3) by (simp add: insert_row_def split: if_splits)
  show ?thesis using ok assms(2) by (simp add: rows references_ok_def)
qed

lemma references_upsert_spot:
  assumes ok: "references_ok A w" and put: "upsert_spot_row fresh now row w = (Inr x, w')"
  shows "references_ok A w'"
proof -
  have "references_ok A (w\<lparr>spots := update_where P (write_columns row) (spots w)\<rparr>)" for P
    using ok by (intro references_spots map_key_update_where) (auto simp: update_where_def references_ok_def)
  moreover have "references_ok A (w\<lparr>spots := rows\<rparr>)"
    if "insert_row s_uid (write_columns row (blank_spot fresh now s e)) (spots w) = Some rows" for s e rows
    using references_insert_spot [OF ok _ that] by (simp add: blank_spot_def)
  ultimately show ?thesis
    using put by (auto simp: upsert_spot_row_def split: if_splits option.splits)
qed

lemma references_load_spot:
  assumes "references_ok A w" "insert_spot uid now cells w = (Inr x, w')"
  shows "references_ok A w'" "uid \<in> spot_uids w'" "spot_uids w \<subseteq> spot_uids w'"
proof -
  obtain rows where rows: "insert_row s_uid (spot_of_cells uid now cells) (spots w) = Some rows" and w': "w' = w\<lparr>spots := rows\<rparr>"
    using assms(2) by (auto simp: insert_spot_def Let_def split: if_splits option.splits)
  have uid: "s_uid (spot_of_cells uid now cells) = uid" and free: "s_assigned_to_uid (spot_of_cells uid now cells) = None"
    by (simp_all add: spot_of_cells_def blank_spot_def)
  show "references_ok A w'" using references_insert_spot [OF assms(1) free rows] by (simp add: w')
  have "rows = spots w @ [spot_of_cells uid now cells]" using rows by (simp add: insert_row_def split: if_splits)
  then show "uid \<in> spot_uids w'" "spot_uids w \<subseteq> spot_uids w'" using uid by (auto simp: w')
qed

section \<open>Keys\<close>

definition keys_ok :: "'r world \<Rightarrow> bool" where
  "keys_ok w \<longleftrightarrow>
     users_ok (users w)
   \<and> unique_key s_uid (spots w) \<and> distinct (keyed (spots w))
   \<and> unique_key si_uid (spot_images w)
   \<and> unique_key bi_uid (business_infos w) \<and> unique_key bi_spot_uid (business_infos w)
   \<and> unique_key option_key (field_options w)
   \<and> unique_key g_uid (spot_groups w)
   \<and> unique_key member_key (group_members w)
   \<and> unique_key group_spot_key (group_spots w)
   \<and> unique_key iv_uid (invites w)
   \<and> unique_key rv_uid (spot_reviews w) \<and> unique_key review_key (active_rows w)
   \<and> unique_key rr_uid (review_reports w) \<and> unique_key report_key (review_reports w)
   \<and> unique_key c_uid (conversations w)
   \<and> unique_key participant_key (participants w)
   \<and> unique_key m_uid (messages w)
   \<and> unique_key block_key (user_blocks w)"

lemma keys_empty: "keys_ok (empty_world r)"
  by (simp add: keys_ok_def empty_world_def unique_key_def keyed_def active_rows_def)

lemma keys_redis [simp]: "keys_ok (w\<lparr>redis := r\<rparr>) = keys_ok w"
  by (simp add: keys_ok_def active_rows_def)

lemma keys_bump [simp]: "keys_ok (bump_spots client w) = keys_ok w"
  by (simp add: bump_spots_def)

lemma keys_invalidate [simp]: "keys_ok (invalidate_detail client uid w) = keys_ok w"
  by (simp add: invalidate_detail_def)

lemma keys_invalidates [simp]: "keys_ok (invalidate_details client uids w) = keys_ok w"
  unfolding invalidate_details_def by (induction uids arbitrary: w) simp_all

lemmas keys_check = check_state [where P = keys_ok]

text \<open>One table at a time.\<close>

lemma keys_tables:
  assumes "keys_ok w"
  shows keys_users: "map (\<lambda>u. (u_uid u, u_email u, u_google_sub u, u_nickname u)) us =
      map (\<lambda>u. (u_uid u, u_email u, u_google_sub u, u_nickname u)) (users w) \<Longrightarrow> keys_ok (w\<lparr>users := us\<rparr>)"
    and keys_spots: "map s_uid ss = map s_uid (spots w) \<Longrightarrow> map spot_key ss = map spot_key (spots w) \<Longrightarrow> keys_ok (w\<lparr>spots := ss\<rparr>)"
    and keys_images: "unique_key si_uid is \<Longrightarrow> keys_ok (w\<lparr>spot_images := is\<rparr>)"
    and keys_infos: "unique_key bi_uid bs \<Longrightarrow> unique_key bi_spot_uid bs \<Longrightarrow> keys_ok (w\<lparr>business_infos := bs\<rparr>)"
    and keys_options: "unique_key option_key os \<Longrightarrow> keys_ok (w\<lparr>field_options := os\<rparr>)"
    and keys_groups: "unique_key g_uid gs \<Longrightarrow> keys_ok (w\<lparr>spot_groups := gs\<rparr>)"
    and keys_members: "unique_key member_key ms \<Longrightarrow> keys_ok (w\<lparr>group_members := ms\<rparr>)"
    and keys_items: "unique_key group_spot_key xs \<Longrightarrow> keys_ok (w\<lparr>group_spots := xs\<rparr>)"
    and keys_invites: "unique_key iv_uid vs \<Longrightarrow> keys_ok (w\<lparr>invites := vs\<rparr>)"
    and keys_reviews: "unique_key rv_uid rs \<Longrightarrow> unique_key review_key (filter (\<lambda>r. rv_deleted_at r = None) rs) \<Longrightarrow>
      keys_ok (w\<lparr>spot_reviews := rs\<rparr>)"
    and keys_reports: "unique_key rr_uid ps \<Longrightarrow> unique_key report_key ps \<Longrightarrow> keys_ok (w\<lparr>review_reports := ps\<rparr>)"
    and keys_conversations: "unique_key c_uid cs \<Longrightarrow> keys_ok (w\<lparr>conversations := cs\<rparr>)"
    and keys_participants: "unique_key participant_key qs \<Longrightarrow> keys_ok (w\<lparr>participants := qs\<rparr>)"
    and keys_messages: "unique_key m_uid ns \<Longrightarrow> keys_ok (w\<lparr>messages := ns\<rparr>)"
    and keys_blocks: "unique_key block_key ks \<Longrightarrow> keys_ok (w\<lparr>user_blocks := ks\<rparr>)"
proof -
  let ?all = "\<lambda>u. (u_uid u, u_email u, u_google_sub u, u_nickname u)"
  assume same: "map ?all us = map ?all (users w)"
  have "map fst (map ?all us) = map fst (map ?all (users w))"
    "map (\<lambda>x. fst (snd x)) (map ?all us) = map (\<lambda>x. fst (snd x)) (map ?all (users w))"
    "map (\<lambda>x. fst (snd (snd x))) (map ?all us) = map (\<lambda>x. fst (snd (snd x))) (map ?all (users w))"
    "map (\<lambda>x. snd (snd (snd x))) (map ?all us) = map (\<lambda>x. snd (snd (snd x))) (map ?all (users w))"
    by (simp_all only: same)
  then have "map u_uid us = map u_uid (users w)" "map u_email us = map u_email (users w)"
    "map u_google_sub us = map u_google_sub (users w)" "map u_nickname us = map u_nickname (users w)"
    by (simp_all add: comp_def)
  moreover from this(2) have "u_email ` set us = u_email ` set (users w)" by (metis list.set_map)
  then have "(\<forall>u \<in> set us. str_lower (u_email u) = u_email u) \<longleftrightarrow> (\<forall>u \<in> set (users w). str_lower (u_email u) = u_email u)"
    by (metis (mono_tags, lifting) imageE image_eqI)
  ultimately have "users_ok us \<longleftrightarrow> users_ok (users w)" by (simp add: users_ok_def unique_key_def)
  with assms show "keys_ok (w\<lparr>users := us\<rparr>)" by (simp add: keys_ok_def active_rows_def)
next
  assume "map s_uid ss = map s_uid (spots w)" "map spot_key ss = map spot_key (spots w)"
  with assms show "keys_ok (w\<lparr>spots := ss\<rparr>)" by (simp add: keys_ok_def unique_key_def active_rows_def keyed_def)
qed (use assms in \<open>simp_all add: keys_ok_def active_rows_def\<close>)

lemma keys_tableD:
  assumes "keys_ok w"
  shows "unique_key s_uid (spots w)" "distinct (keyed (spots w))" "unique_key si_uid (spot_images w)"
    "unique_key bi_uid (business_infos w)" "unique_key bi_spot_uid (business_infos w)"
    "unique_key option_key (field_options w)" "unique_key g_uid (spot_groups w)" "unique_key member_key (group_members w)"
    "unique_key group_spot_key (group_spots w)" "unique_key iv_uid (invites w)" "unique_key rv_uid (spot_reviews w)"
    "unique_key review_key (active_rows w)" "unique_key rr_uid (review_reports w)" "unique_key report_key (review_reports w)"
    "unique_key c_uid (conversations w)" "unique_key participant_key (participants w)" "unique_key m_uid (messages w)"
    "unique_key block_key (user_blocks w)"
  using assms by (simp_all add: keys_ok_def)

lemma unique_key_update_same:
  assumes "unique_key key rows" and "\<And>r. key (f r) = key r" shows "unique_key key (update_where P f rows)"
  using assms by (intro unique_key_update_where) simp_all

lemma unique_key_save:
  assumes "unique_key key rows" and "key r' = key r" shows "unique_key key (update_where (\<lambda>x. key x = key r) (\<lambda>_. r') rows)"
  using assms by (intro unique_key_update_where) simp_all

section \<open>Keys after a statement\<close>

lemma keys_add_member: "keys_ok w \<Longrightarrow> keys_ok (snd (add_member now k u role by w))"
  unfolding add_member_def Let_def
  by (intro keys_check) (auto intro: keys_members unique_key_insert_row keys_tableD split: option.split)

lemma keys_add_spot: "keys_ok w \<Longrightarrow> keys_ok (snd (add_spot now k s by w))"
  unfolding add_spot_def Let_def
  by (intro keys_check) (auto intro: keys_items unique_key_insert_row keys_tableD split: option.split)

lemma keys_update_group: "keys_ok w \<Longrightarrow> keys_ok (snd (update_group now g data w))"
proof (cases "set_group_attrs data g")
  case (Some changed)
  have key: "set_group_attrs as x = Some y \<Longrightarrow> g_uid y = g_uid x" for as x y
  proof (induction as arbitrary: x)
    case (Cons a as)
    then show ?case by (cases a) (auto split: option.splits)
  qed simp
  assume "keys_ok w"
  then show ?thesis
    using Some key [OF Some] by (simp add: update_group_def Let_def keys_groups unique_key_save keys_tableD)
qed (simp add: update_group_def)

lemma keys_delete_group:
  assumes "keys_ok w" shows "keys_ok (delete_group g w)"
proof -
  have "keys_ok (w\<lparr>spot_groups := delete_where P (spot_groups w), group_members := delete_where Q (group_members w),
      group_spots := delete_where R (group_spots w), invites := delete_where S (invites w)\<rparr>)" for P Q R S
    using assms by (intro keys_groups keys_members keys_items keys_invites unique_key_delete_where)
      (simp_all add: keys_tableD)
  then show ?thesis by (simp add: delete_group_def)
qed

lemma keys_create_group: "keys_ok w \<Longrightarrow> keys_ok (snd (create_group fresh now u n d v w))"
proof -
  assume ok: "keys_ok w"
  have "keys_ok (w\<lparr>spot_groups := gs, group_members := ms\<rparr>)"
    if "insert_row g_uid g (spot_groups w) = Some gs" "insert_row member_key m (group_members w) = Some ms" for g gs m ms
    using that ok by (intro keys_groups keys_members) (auto intro: unique_key_insert_row keys_tableD)
  with ok show ?thesis by (auto simp: create_group_def Let_def split: option.split)
qed

lemma keys_update_role: "keys_ok w \<Longrightarrow> keys_ok (snd (update_member_role m r w))"
  by (simp add: update_member_role_def keys_members unique_key_update_same keys_tableD member_key_def)

lemma keys_remove_member: "keys_ok w \<Longrightarrow> keys_ok (snd (remove_member m w))"
  by (simp add: remove_member_def keys_members unique_key_delete_where keys_tableD)

lemma keys_remove_spot: "keys_ok w \<Longrightarrow> keys_ok (snd (remove_spot k s w))"
  unfolding remove_spot_def
  by (intro keys_check) (auto intro: keys_items unique_key_delete_where keys_tableD split: option.split)

lemma keys_create_invite: "keys_ok w \<Longrightarrow> keys_ok (snd (create_invite fresh now u k role w))"
  by (auto simp: create_invite_def Let_def intro: keys_invites unique_key_insert_row keys_tableD split: option.split)

lemma keys_accepted: "keys_ok w \<Longrightarrow> keys_ok (save_accepted now i u w)"
  by (simp add: save_accepted_def mark_accepted_def keys_invites unique_key_save keys_tableD)

lemma keys_rows_saved:
  assumes "\<And>x. x \<in> set rows \<Longrightarrow> P x \<Longrightarrow> h y = h x"
  shows "map h (update_where P (\<lambda>_. y) rows) = map h rows"
  using assms by (induction rows) (auto simp: update_where_def)

lemma keys_user_saved:
  assumes ok: "keys_ok w" and u: "u \<in> set (users w)"
    and same: "u_uid new = u_uid u" "u_email new = u_email u" "u_google_sub new = u_google_sub u" "u_nickname new = u_nickname u"
  shows "keys_ok (snd (save_user now u new w))"
proof -
  let ?all = "\<lambda>u. (u_uid u, u_email u, u_google_sub u, u_nickname u)"
  have "unique_key u_uid (users w)" using ok by (simp add: keys_ok_def users_ok_def)
  then have "x = u" if "x \<in> set (users w)" "u_uid x = u_uid u" for x
    using unique_key_eq [OF _ that(1) u that(2)] by simp
  then have "map ?all (update_where (\<lambda>x. u_uid x = u_uid u) (\<lambda>_. new\<lparr>u_updated_at := now\<rparr>) (users w)) = map ?all (users w)"
    using same by (intro keys_rows_saved) auto
  from keys_users [OF ok this] ok show ?thesis by (simp add: save_user_def Let_def)
qed

lemma keys_create_user:
  assumes ok: "keys_ok w" shows "keys_ok (snd (create_user uid draws now email sub name picture w))"
proof -
  have kept: "keys_ok w'" if "users_ok (users w')" "\<exists>us. w' = w\<lparr>users := us\<rparr>" for w'
    using ok that by (auto simp: keys_ok_def active_rows_def)
  have "\<exists>us. snd (create_user uid draws now email sub name picture w) = w\<lparr>users := us\<rparr>"
    unfolding create_user_def Let_def
    by (intro check_state [where P = "\<lambda>v. \<exists>us. v = w\<lparr>users := us\<rparr>"])
      (auto simp: insert_user_def intro: exI [of _ "users w"] split: option.split)
  with kept create_user_ok [of w uid draws now email sub name picture] ok show ?thesis
    by (simp add: keys_ok_def)
qed

text \<open>Reviews and reports.\<close>

lemma active_keys_cong:
  assumes "map (\<lambda>r. (rv_uid r, review_key r, rv_deleted_at r)) rs = map (\<lambda>r. (rv_uid r, review_key r, rv_deleted_at r)) (spot_reviews w)"
    and ok: "keys_ok w"
  shows "keys_ok (w\<lparr>spot_reviews := rs\<rparr>)"
proof -
  let ?h = "\<lambda>r. (rv_uid r, review_key r, rv_deleted_at r)"
  have uids: "map rv_uid xs = map fst (map ?h xs)"
    and active: "map review_key (filter (\<lambda>r. rv_deleted_at r = None) xs) = map (\<lambda>x. fst (snd x)) (filter (\<lambda>x. snd (snd x) = None) (map ?h xs))"
    for xs by (simp_all add: filter_map comp_def)
  have "map rv_uid rs = map rv_uid (spot_reviews w)"
    "map review_key (filter (\<lambda>r. rv_deleted_at r = None) rs) = map review_key (active_rows w)"
    unfolding active_rows_def uids active by (simp_all only: assms(1))
  then show ?thesis
    using keys_tableD(11,12) [OF ok] by (intro keys_reviews [OF ok]) (simp_all add: unique_key_def)
qed

lemma keys_insert_review:
  assumes ok: "keys_ok w" and "insert_review r w = Some w'" "rv_deleted_at r = None"
  shows "keys_ok w'"
proof -
  have w': "w' = w\<lparr>spot_reviews := spot_reviews w @ [r]\<rparr>" and fresh: "rv_uid r \<notin> rv_uid ` set (spot_reviews w)"
    and free: "\<forall>x \<in> set (spot_reviews w). \<not> (is_active_review (rv_spot_uid r) x \<and> rv_user_id x = rv_user_id r)"
    using assms(2) by (auto simp: insert_review_def split: if_splits)
  have "review_key r \<notin> review_key ` set (active_rows w)"
    using free by (auto simp: review_key_def active_rows_def is_active_review_def)
  then show ?thesis
    unfolding w' using fresh assms(3) keys_tableD [OF ok]
    by (intro keys_reviews [OF ok]) (simp_all add: unique_key_snoc active_rows_def)
qed

lemma keys_update_spots:
  assumes ok: "keys_ok w" and "\<And>s. s_uid (f s) = s_uid s" "\<And>s. spot_key (f s) = spot_key s"
  shows "keys_ok (update_spots now P f w)"
  unfolding update_spots_def
  using assms by (intro keys_spots map_key_update_where) (simp_all add: spot_key_def)

lemma keys_recalculate: "keys_ok w \<Longrightarrow> keys_ok (recalculate_spot_rating now k w)"
  unfolding recalculate_spot_rating_def Let_def by (intro keys_update_spots) (simp_all add: spot_key_def)

lemma keys_create_review:
  assumes ok: "keys_ok w" shows "keys_ok (snd (create_review client fresh now s u n c w))"
proof -
  let ?r = "\<lparr>rv_uid = fresh, rv_spot_uid = s, rv_user_id = u, rv_rating = n, rv_content = c, rv_created_at = Some now,
    rv_updated_at = Some now, rv_deleted_at = None\<rparr>"
  have "keys_ok w'" if "insert_review ?r w = Some w'" for w' using keys_insert_review [OF ok that] by simp
  then show ?thesis unfolding create_review_def Let_def
    by (intro keys_check) (simp_all add: ok keys_recalculate split: option.split)
qed

lemma set_review_attrs_kept:
  "set_review_attrs data r = Some r' \<Longrightarrow> rv_uid r' = rv_uid r \<and> review_key r' = review_key r \<and> rv_deleted_at r' = rv_deleted_at r"
proof (induction data arbitrary: r)
  case (Cons a as)
  then obtain r1 where r1: "set_review_attr a r = Some r1" "set_review_attrs as r1 = Some r'"
    by (auto split: option.splits)
  have "rv_uid r1 = rv_uid r \<and> review_key r1 = review_key r \<and> rv_deleted_at r1 = rv_deleted_at r"
    using r1(1) by (cases a) (auto simp: review_key_def split: option.splits if_splits)
  with Cons.IH [OF r1(2)] show ?case by simp
qed simp

lemma keys_update_review:
  assumes ok: "keys_ok w" and r: "r \<in> set (spot_reviews w)"
  shows "keys_ok (snd (update_review client now r data w))"
proof (cases "set_review_attrs data r")
  case (Some changed)
  let ?h = "\<lambda>r. (rv_uid r, review_key r, rv_deleted_at r)"
  let ?saved = "if changed = r then r else changed\<lparr>rv_updated_at := Some now\<rparr>"
  have "?h ?saved = ?h r" using set_review_attrs_kept [OF Some] by (simp add: review_key_def)
  moreover have "x = r" if "x \<in> set (spot_reviews w)" "rv_uid x = rv_uid r" for x
    using unique_key_eq [OF keys_tableD(11) [OF ok] that(1) r that(2)] .
  ultimately have "map ?h (update_where (\<lambda>x. rv_uid x = rv_uid r) (\<lambda>_. ?saved) (spot_reviews w)) = map ?h (spot_reviews w)"
    by (intro keys_rows_saved) blast
  from active_keys_cong [OF this ok]
  show ?thesis by (simp add: update_review_def Some Let_def keys_recalculate)
qed (simp add: update_review_def ok)

lemma keys_delete_review:
  assumes ok: "keys_ok w" shows "keys_ok (soft_delete_review client now r w)"
proof -
  let ?f = "\<lambda>x. x\<lparr>rv_deleted_at := Some now, rv_updated_at := Some now\<rparr>"
  have active: "filter (\<lambda>r. rv_deleted_at r = None) (update_where P ?f rows) = filter (\<lambda>x. \<not> P x) (filter (\<lambda>r. rv_deleted_at r = None) rows)"
    for P rows by (induction rows) (auto simp: update_where_def)
  have "keys_ok (w\<lparr>spot_reviews := update_where (\<lambda>x. rv_uid x = rv_uid r) ?f (spot_reviews w)\<rparr>)"
  proof (rule keys_reviews [OF ok])
    show "unique_key rv_uid (update_where (\<lambda>x. rv_uid x = rv_uid r) ?f (spot_reviews w))"
      using keys_tableD(11) [OF ok] by (rule unique_key_update_same) simp
    show "unique_key review_key (filter (\<lambda>r. rv_deleted_at r = None) (update_where (\<lambda>x. rv_uid x = rv_uid r) ?f (spot_reviews w)))"
      unfolding active using unique_key_delete_where [OF keys_tableD(12) [OF ok]]
      by (simp add: active_rows_def delete_where_def)
  qed
  then show ?thesis by (simp add: soft_delete_review_def keys_recalculate)
qed

lemma keys_create_report:
  assumes ok: "keys_ok w" shows "keys_ok (snd (create_report fresh now k u reason w))"
  unfolding create_report_def Let_def
proof (rule keys_check [OF ok])
  fix existing
  let ?x = "\<lparr>rr_uid = fresh, rr_review_uid = k, rr_reporter_user_uid = u, rr_reason = reason, rr_created_at = Some now\<rparr>"
  assume found: "scalar_one_or_none multiple_results (filter (\<lambda>x. report_key x = (k, u)) (review_reports w)) = Inr existing"
  have "keys_ok (w\<lparr>review_reports := rows\<rparr>)" if "existing = None" "insert_row rr_uid ?x (review_reports w) = Some rows" for rows
  proof (rule keys_reports [OF ok])
    show "unique_key rr_uid rows" using that(2) by (rule unique_key_insert_row [OF keys_tableD(13) [OF ok]])
    have "filter (\<lambda>x. report_key x = (k, u)) (review_reports w) = []"
      using found that(1) by (auto simp: scalar_one_or_none_def split: list.splits)
    then have "report_key ?x \<notin> report_key ` set (review_reports w)"
      by (auto simp: filter_empty_conv report_key_def)
    then show "unique_key report_key rows"
      using that(2) keys_tableD(14) [OF ok] by (auto simp: insert_row_def unique_key_snoc split: if_splits)
  qed
  with ok show "keys_ok (snd (if existing \<noteq> None then raise (app_error REVIEW_REPORT_ALREADY_EXISTS) w
      else case insert_row rr_uid ?x (review_reports w) of None \<Rightarrow> raise integrity_error w
        | Some rows \<Rightarrow> ret ?x (w\<lparr>review_reports := rows\<rparr>)))"
    by (auto split: option.split)
qed

text \<open>Conversations.\<close>

lemma keys_mark_read: "keys_ok w \<Longrightarrow> keys_ok (mark_read now p w)"
  by (simp add: mark_read_def keys_participants unique_key_update_same keys_tableD participant_key_def)

lemma keys_delete_message: "keys_ok w \<Longrightarrow> keys_ok (soft_delete_message now m w)"
  by (simp add: soft_delete_message_def keys_messages unique_key_update_same keys_tableD)

lemma keys_insert_block: "keys_ok w \<Longrightarrow> insert_block b w = Some w' \<Longrightarrow> keys_ok w'"
  by (auto simp: insert_block_def unique_key_snoc keys_tableD intro!: keys_blocks split: if_splits)

lemma keys_insert_conversation:
  assumes ok: "keys_ok w" and "insert_conversation c members now w = Some w'" shows "keys_ok w'"
proof -
  have w': "w' = w\<lparr>conversations := conversations w @ [c],
      participants := participants w @ map (new_participant (c_uid c) now) members\<rparr>"
    and fresh: "c_uid c \<notin> c_uid ` set (conversations w)" "distinct members"
      "\<forall>u \<in> set members. (c_uid c, u) \<notin> participant_key ` set (participants w)"
    using assms(2) by (auto simp: insert_conversation_def split: if_splits)
  have seats: "map participant_key (map (new_participant (c_uid c) now) members) = map (Pair (c_uid c)) members"
    by (simp add: new_participant_def participant_key_def comp_def)
  have "distinct (map participant_key (participants w) @ map (Pair (c_uid c)) members)"
    using fresh(2,3) keys_tableD(16) [OF ok]
    by (auto simp: distinct_map inj_on_def unique_key_def)
  then have "unique_key participant_key (participants w @ map (new_participant (c_uid c) now) members)"
    unfolding unique_key_def map_append seats .
  then show ?thesis
    using fresh(1) keys_tableD(15) [OF ok] ok unfolding w'
    by (intro keys_participants keys_conversations) (simp_all add: unique_key_snoc)
qed

lemma keys_create_message: "keys_ok w \<Longrightarrow> keys_ok (snd (create_message fresh now c u content w))"
proof -
  assume ok: "keys_ok w"
  have "keys_ok (w\<lparr>messages := rows, conversations := update_where P (\<lambda>x. x\<lparr>c_updated_at := now\<rparr>) (conversations w)\<rparr>)"
    if "insert_row m_uid m (messages w) = Some rows" for m rows P
    using that ok by (intro keys_messages keys_conversations unique_key_update_same)
      (auto intro: unique_key_insert_row keys_tableD)
  with ok show ?thesis by (auto simp: create_message_def Let_def split: option.split)
qed

text \<open>The catalogue.\<close>

lemma keys_save_spot:
  assumes ok: "keys_ok w" and s: "s \<in> set (spots w)" and "set_spot_attrs data s = Some s'"
  shows "keys_ok (save_spot now s s' w)"
proof -
  have kept: "s_uid s' = s_uid s" "spot_key s' = spot_key s"
    using set_spot_attrs_keeps [OF assms(3)] by (simp_all add: spot_key_def)
  have one: "x = s" if "x \<in> set (spots w)" "s_uid x = s_uid s" for x
    using unique_key_eq [OF keys_tableD(1) [OF ok] that(1) s that(2)] .
  have "map s_uid (update_where (\<lambda>x. s_uid x = s_uid s) (\<lambda>_. s'\<lparr>s_updated_at := Some now\<rparr>) (spots w)) = map s_uid (spots w)"
    "map spot_key (update_where (\<lambda>x. s_uid x = s_uid s) (\<lambda>_. s'\<lparr>s_updated_at := Some now\<rparr>) (spots w)) = map spot_key (spots w)"
    using kept one by (auto intro!: keys_rows_saved simp: spot_key_def) metis
  from keys_spots [OF ok this] ok show ?thesis by (simp add: save_spot_def)
qed

lemma keys_insert_spot:
  assumes ok: "keys_ok w" and rows: "insert_row s_uid s (spots w) = Some rows"
    and free: "spot_key s \<noteq> None \<Longrightarrow> spot_key s \<notin> spot_key ` set (spots w)"
  shows "keys_ok (w\<lparr>spots := rows\<rparr>)"
proof -
  have "rows = spots w @ [s]" "s_uid s \<notin> s_uid ` set (spots w)"
    using rows by (auto simp: insert_row_def split: if_splits)
  with ok free show ?thesis by (auto simp: keys_ok_def unique_key_snoc keyed_def active_rows_def)
qed

lemma keys_upsert_spot:
  assumes ok: "keys_ok w" and put: "upsert_spot_row fresh now row w = (Inr x, w')" shows "keys_ok w'"
proof -
  have kept: "s_uid (write_columns row s) = s_uid s" "spot_key (write_columns row s) = spot_key s" for s
    by (simp_all add: write_columns_def spot_key_def)
  have key: "spot_key (write_columns row (blank_spot fresh now (sb_source row) (sb_external_id row))) = row_key row"
    unfolding kept by (simp add: spot_key_def blank_spot_def row_key_def)
  have "keys_ok (w\<lparr>spots := rows\<rparr>)"
    if "(if row_key row = None then None else find (\<lambda>s. spot_key s = row_key row) (spots w)) = None"
      "insert_row s_uid (write_columns row (blank_spot fresh now (sb_source row) (sb_external_id row))) (spots w) = Some rows" for rows
  proof (rule keys_insert_spot [OF ok that(2)], unfold key)
    show "row_key row \<notin> spot_key ` set (spots w)" if "row_key row \<noteq> None"
      using that \<open>(if row_key row = None then _ else _) = None\<close> by (auto simp: find_None_iff)
  qed
  moreover have "keys_ok (w\<lparr>spots := update_where P (write_columns row) (spots w)\<rparr>)" for P
    using ok by (intro keys_spots map_key_update_where) (simp_all add: kept)
  ultimately show ?thesis
    using put by (auto simp: upsert_spot_row_def split: if_splits option.splits)
qed

lemma keys_load_spot:
  assumes ok: "keys_ok w" and "insert_spot uid now cells w = (Inr x, w')" shows "keys_ok w'"
  using assms(2)
  by (auto simp: insert_spot_def Let_def split: if_splits option.splits intro!: keys_insert_spot [OF ok])

lemma keys_create_image: "keys_ok w \<Longrightarrow> keys_ok (snd (create_image client uid now k key role n public ct w))"
  by (auto simp: create_image_def Let_def invalidate_spot_def intro: keys_images unique_key_insert_row keys_tableD split: option.split)

lemma set_image_attrs_uid: "set_image_attrs data i = Some i' \<Longrightarrow> si_uid i' = si_uid i"
proof (induction data arbitrary: i)
  case (Cons a data)
  then show ?case by (cases a) (auto split: option.splits)
qed simp

lemma keys_update_image: "keys_ok w \<Longrightarrow> keys_ok (snd (update_image client now i data w))"
proof (cases "set_image_attrs data i")
  case (Some changed)
  assume "keys_ok w"
  then show ?thesis using set_image_attrs_uid [OF Some]
    by (simp add: update_image_def Some Let_def invalidate_spot_def save_image_def keys_images unique_key_save keys_tableD)
qed (simp add: update_image_def)

lemma keys_delete_image: "keys_ok w \<Longrightarrow> keys_ok (delete_image client now i w)"
  by (simp add: delete_image_def invalidate_spot_def keys_images unique_key_update_same keys_tableD)

lemma keys_create_option: "keys_ok w \<Longrightarrow> keys_ok (snd (create_field_option now field code label w))"
  by (auto simp: create_field_option_def Let_def intro: keys_options unique_key_insert_row keys_tableD split: option.split)

lemma keys_delete_option: "keys_ok w \<Longrightarrow> keys_ok (snd (delete_field_option now field code w))"
proof -
  assume ok: "keys_ok w"
  have "keys_ok (update_spots now P (\<lambda>s. set_option_column field (h s) s) w)" for P h
    using ok by (intro keys_update_spots) (cases field; simp add: set_option_column_def spot_key_def)+
  then show ?thesis using ok
    by (auto simp: delete_field_option_def Let_def intro!: keys_options unique_key_delete_where keys_tableD)
qed

lemma keys_update_info:
  assumes ok: "keys_ok w" and b: "b \<in> set (business_infos w)" and b': "bi_uid b' = bi_uid b" "bi_spot_uid b' = bi_spot_uid b"
  shows "keys_ok (w\<lparr>business_infos := update_where (\<lambda>x. bi_uid x = bi_uid b) (\<lambda>_. b') (business_infos w)\<rparr>)"
proof -
  have "x = b" if "x \<in> set (business_infos w)" "bi_uid x = bi_uid b" for x
    using unique_key_eq [OF keys_tableD(4) [OF ok] that(1) b that(2)] .
  then have "map bi_spot_uid (update_where (\<lambda>x. bi_uid x = bi_uid b) (\<lambda>_. b') (business_infos w)) = map bi_spot_uid (business_infos w)"
    "map bi_uid (update_where (\<lambda>x. bi_uid x = bi_uid b) (\<lambda>_. b') (business_infos w)) = map bi_uid (business_infos w)"
    using b' by (intro keys_rows_saved; blast)+
  then show ?thesis using keys_tableD(4,5) [OF ok] by (intro keys_infos [OF ok]) (simp_all add: unique_key_def)
qed

lemma keys_insert_info:
  assumes ok: "keys_ok w" and rows: "insert_row bi_uid b (business_infos w) = Some rows"
    and free: "bi_spot_uid b \<notin> bi_spot_uid ` set (business_infos w)"
  shows "keys_ok (w\<lparr>business_infos := rows\<rparr>)"
  using rows free keys_tableD(4,5) [OF ok]
  by (intro keys_infos [OF ok]) (auto simp: insert_row_def unique_key_snoc split: if_splits)

lemma keys_user_admin: "keys_ok w \<Longrightarrow> keys_ok (user_admin_update now uid form w)"
  unfolding user_admin_update_def
  by (intro keys_users map_key_update_where) (simp_all add: Let_def)

section \<open>Both\<close>

definition intact :: "uid set \<Rightarrow> 'r world \<Rightarrow> bool" where
  "intact A w \<longleftrightarrow> references_ok A w \<and> keys_ok w"

lemma intactD: "intact A w \<Longrightarrow> references_ok A w" "intact A w \<Longrightarrow> keys_ok w"
  by (simp_all add: intact_def)

lemma intact_empty: "intact {} (empty_world r)"
  by (simp add: intact_def references_empty keys_empty)

lemma intact_simps [simp]:
  "intact A (w\<lparr>redis := r\<rparr>) = intact A w" "intact A (bump_spots client w) = intact A w"
  "intact A (invalidate_detail client uid w) = intact A w" "intact A (invalidate_details client uids w) = intact A w"
  by (simp_all add: intact_def)

lemmas intact_check = check_state [where P = "intact A" for A]
lemmas intact_bind = bindR_state [where P = "intact A" for A]

lemma intact_groups:
  assumes "intact A w"
  shows intact_add_member: "k \<in> group_uids w \<Longrightarrow> u \<in> user_uids w \<Longrightarrow> by \<in> user_uids w \<Longrightarrow> intact A (snd (add_member now k u role by w))"
    and intact_add_spot: "k \<in> group_uids w \<Longrightarrow> s \<in> spot_uids w \<Longrightarrow> by \<in> user_uids w \<Longrightarrow> intact A (snd (add_spot now k s by w))"
    and intact_update_group: "intact A (snd (update_group now g data w))"
    and intact_delete_group: "intact A (delete_group g w)"
    and intact_create_group: "u \<in> user_uids w \<Longrightarrow> intact A (snd (create_group fresh now u n d v w))"
    and intact_update_role: "intact A (snd (update_member_role m role w))"
    and intact_remove_member: "intact A (snd (remove_member m w))"
    and intact_remove_spot: "intact A (snd (remove_spot k s w))"
  using intactD [OF assms]
  by (simp_all add: intact_def references_add_member keys_add_member references_add_spot keys_add_spot
      references_update_group keys_update_group references_delete_group keys_delete_group references_create_group
      keys_create_group references_update_role keys_update_role references_remove_member keys_remove_member
      references_remove_spot keys_remove_spot)

lemma intact_accounts:
  assumes "intact A w"
  shows intact_create_invite: "u \<in> user_uids w \<Longrightarrow> refers k (group_uids w) \<Longrightarrow> intact A (snd (create_invite fresh now u k r w))"
    and intact_accepted: "i \<in> set (invites w) \<Longrightarrow> u \<in> user_uids w \<Longrightarrow> intact A (save_accepted now i u w)"
    and intact_save_user: "a \<in> set (users w) \<Longrightarrow> u_uid new = u_uid a \<Longrightarrow> u_email new = u_email a \<Longrightarrow>
      u_google_sub new = u_google_sub a \<Longrightarrow> u_nickname new = u_nickname a \<Longrightarrow>
      refers (u_referred_by_uid new) (user_uids w) \<Longrightarrow> intact A (snd (save_user now a new w))"
    and intact_create_user: "intact A (snd (create_user uid draws now email sub name picture w))"
    and intact_user_admin: "intact A (user_admin_update now uid form w)"
  using intactD [OF assms]
  by (simp_all add: intact_def references_create_invite keys_create_invite references_accepted keys_accepted
      references_save_user keys_user_saved references_create_user keys_create_user references_user_admin keys_user_admin)

lemma intact_reviews:
  assumes "intact A w"
  shows intact_create_review: "u \<in> user_uids w \<Longrightarrow> intact A (snd (create_review client fresh now s u n c w))"
    and intact_update_review: "r \<in> set (spot_reviews w) \<Longrightarrow> intact A (snd (update_review client now r data w))"
    and intact_delete_review: "intact A (soft_delete_review client now r w)"
    and intact_create_report: "k \<in> review_uids w \<Longrightarrow> u \<in> user_uids w \<Longrightarrow> intact A (snd (create_report fresh now k u reason w))"
  using intactD [OF assms]
  by (simp_all add: intact_def references_create_review keys_create_review references_update_review keys_update_review
      references_delete_review keys_delete_review references_create_report keys_create_report)

lemma intact_chat:
  assumes "intact A w"
  shows intact_mark_read: "intact A (mark_read now p w)"
    and intact_delete_message: "intact A (soft_delete_message now m w)"
    and intact_unblock: "intact A (w\<lparr>user_blocks := delete_where P (user_blocks w)\<rparr>)"
    and intact_create_message: "c \<in> set (conversations w) \<Longrightarrow> u \<in> user_uids w \<Longrightarrow> intact A (snd (create_message fresh now c u content w))"
  using intactD [OF assms]
  by (simp_all add: intact_def references_mark_read keys_mark_read references_delete_message keys_delete_message
      references_unblock keys_blocks unique_key_delete_where keys_tableD
      references_create_message keys_create_message)

lemma intact_catalogue:
  assumes "intact A w"
  shows intact_update_spots: "(\<And>s. s_uid (f s) = s_uid s) \<Longrightarrow> (\<And>s. spot_key (f s) = spot_key s) \<Longrightarrow>
      (\<And>s. s \<in> set (spots w) \<Longrightarrow> refers (s_assigned_to_uid (f s)) (user_uids w)) \<Longrightarrow> intact A (update_spots now P f w)"
    and intact_create_image: "intact A (snd (create_image client uid now k key role n public ct w))"
    and intact_update_image: "i \<in> set (spot_images w) \<Longrightarrow> intact A (snd (update_image client now i attrs w))"
    and intact_delete_image: "intact A (delete_image client now i w)"
    and intact_create_option: "intact A (snd (create_field_option now field code label w))"
    and intact_delete_option: "intact A (snd (delete_field_option now field code w))"
    and intact_update_info: "b \<in> set (business_infos w) \<Longrightarrow> bi_uid b' = bi_uid b \<Longrightarrow> bi_spot_uid b' = bi_spot_uid b \<Longrightarrow>
      intact A (w\<lparr>business_infos := update_where (\<lambda>x. bi_uid x = bi_uid b) (\<lambda>_. b') (business_infos w)\<rparr>)"
  using intactD [OF assms]
  by (simp_all add: intact_def references_update_spots keys_update_spots
      references_create_image keys_create_image references_update_image keys_update_image references_delete_image
      keys_delete_image references_create_option keys_create_option references_delete_option keys_delete_option
      references_infos_update keys_update_info references_info_spot)

lemma intact_inserts:
  assumes "intact A w"
  shows intact_insert_block: "insert_block b w = Some w' \<Longrightarrow> intact A w'"
    and intact_insert_conversation: "insert_conversation c members now w = Some w' \<Longrightarrow> intact A w'"
    and intact_upsert_spot: "upsert_spot_row fresh now row w = (Inr x, w') \<Longrightarrow> intact A w'"
    and intact_load_spot: "insert_spot uid now cells w = (Inr y, w') \<Longrightarrow> intact A w'"
  using intactD [OF assms] unfolding intact_def
  by (blast intro: references_insert_block keys_insert_block references_insert_conversation keys_insert_conversation
      references_upsert_spot keys_upsert_spot references_load_spot(1) keys_load_spot)+

lemma intact_save_spot:
  assumes "intact A w" and "s \<in> set (spots w)" "set_spot_attrs data s = Some s'"
    and "\<And>v. Set_assigned_to_uid v \<in> set data \<Longrightarrow> refers v (user_uids w)"
  shows "intact A (save_spot now s s' w)"
  unfolding intact_def using references_save_spot [OF _ assms(2-4)] keys_save_spot [OF _ assms(2,3)] intactD [OF assms(1)]
  by blast

lemma intact_insert_info:
  assumes "intact A w" and "insert_row bi_uid b (business_infos w) = Some rows" "bi_spot_uid b \<in> spot_uids w"
    and "bi_spot_uid b \<notin> bi_spot_uid ` set (business_infos w)"
  shows "intact A (w\<lparr>business_infos := rows\<rparr>)"
  unfolding intact_def
  using references_infos_insert [OF _ assms(3,2)] keys_insert_info [OF _ assms(2,4)] intactD [OF assms(1)] by blast

lemma intact_rows_kept:
  assumes "intact A w" and "\<And>s. s_uid (f s) = s_uid s" "\<And>s. spot_key (f s) = spot_key s"
    and "\<And>s. s_assigned_to_uid (f s) = s_assigned_to_uid s"
  shows "intact A (update_spots now P f w)"
  using assms(2-4) intactD(1) [OF assms(1)] by (intro intact_update_spots [OF assms(1)]) (simp_all add: references_ok_def)

end
