(* ===== verification/Requests.thy ===== *)
theory Requests
  imports Integrity
begin

text \<open>
  Every request, script and job handler that writes to the database keeps its constraints
  (\<open>intact\<close> of \<open>Integrity\<close>): whatever it hands to a statement was found in the database or comes
  from the account of the caller (\<open>known\<close>).
\<close>

section \<open>What a lookup finds\<close>

lemma get_user_by_id_found: "get_user_by_id k w = Inr (Some u) \<Longrightarrow> u \<in> set (users w) \<and> u_uid u = k"
  by (auto simp: get_user_by_id_def dest: scalar_one_or_none_filter)

lemma get_spot_by_uid_found: "get_spot_by_uid cfg k only w = Inr (Some s) \<Longrightarrow> s \<in> set (spots w) \<and> s_uid s = k"
  by (auto simp: get_spot_by_uid_def bindE_Inr_iff dest: scalar_one_or_none_filter)

definition known :: "user res \<Rightarrow> 'r world \<Rightarrow> bool" where
  "known caller w \<longleftrightarrow> (\<forall>u. caller = Inr u \<longrightarrow> u \<in> set (users w))"

lemma knownD: "known (Inr u) w \<Longrightarrow> u_uid u \<in> user_uids w"
  by (simp add: known_def)

lemma known_staff: "known caller w \<Longrightarrow> as_staff caller = Inr u \<Longrightarrow> u_uid u \<in> user_uids w"
  by (auto simp: known_def as_staff_Inr)

lemma known_role: "known caller w \<Longrightarrow> as_role r caller = Inr u \<Longrightarrow> u_uid u \<in> user_uids w"
  by (auto simp: known_def as_role_def bindE_Inr_iff require_role_def require_staff_def split: if_splits)

section \<open>Groups\<close>

lemma intact_stored_spot:
  assumes "intact A w" and "k \<in> group_uids w" "s_uid s \<in> spot_uids w" "by \<in> user_uids w"
  shows "intact A (snd (stored_spot_item s3 cfg now k s by w))"
  unfolding stored_spot_item_def
  using intact_add_spot [OF assms] by (intro intact_bind) auto

lemmas intact_group_statements = intact_groups intact_stored_spot

lemma intact_group_request:
  assumes ok: "intact A w" and caller: "known caller w"
  shows "intact A (run_group_request s3 cfg now caller req w)"
proof (cases req)
  case (Create_Group fresh n d v)
  then show ?thesis using assms
    by (auto simp: create_group_endpoint_def known_def intro!: intact_check intact_bind intact_group_statements)
next
  case (Update_Group g data)
  then show ?thesis using ok
    by (auto simp: update_group_endpoint_def intro!: intact_check intact_bind intact_group_statements)
next
  case (Delete_Group g)
  then show ?thesis using ok
    by (auto simp: delete_group_endpoint_def intro!: intact_check intact_bind intact_group_statements)
next
  case (Add_Group_Spot g s)
  then show ?thesis using assms
    by (auto simp: add_group_spot_def known_def intro!: intact_check intact_bind
        intact_group_statements dest!: get_spot_by_uid_found elim!: require_group_role_mem split: option.split)
next
  case (Remove_Group_Spot g s)
  then show ?thesis using ok
    by (auto simp: remove_group_spot_def intro!: intact_check intact_bind intact_group_statements)
next
  case (Invite_Group_Member g u r)
  then show ?thesis using assms
    by (auto simp: invite_group_member_def known_def intro!: intact_check intact_bind
        intact_group_statements dest!: get_user_by_id_found elim!: require_group_role_mem split: option.split)
next
  case (Update_Group_Member_Role g u r)
  then show ?thesis using ok
    by (auto simp: update_group_member_role_def intro!: intact_check intact_bind intact_group_statements)
next
  case (Remove_Group_Member g u)
  then show ?thesis using ok
    by (auto simp: remove_group_member_def intro!: intact_check intact_bind intact_group_statements)
qed

lemma intact_group_request_admin:
  assumes ok: "intact A w" and caller: "known caller w"
  shows "intact A (run_group_request_admin s3 cfg now caller req w)"
proof (cases req)
  case (Create_Group fresh n d v)
  then show ?thesis using assms known_staff [OF caller]
    by (auto simp: create_group_admin_def intro!: intact_check intact_bind intact_group_statements)
next
  case (Update_Group g data)
  then show ?thesis using ok
    by (auto simp: update_group_admin_def intro!: intact_check intact_bind intact_group_statements)
next
  case (Delete_Group g)
  then show ?thesis using ok
    by (auto simp: delete_group_admin_def intro!: intact_check intact_bind intact_group_statements)
next
  case (Add_Group_Spot g s)
  then show ?thesis using assms known_staff [OF caller]
    by (auto simp: add_group_spot_admin_def intro!: intact_check intact_bind intact_group_statements
        dest!: get_spot_by_uid_found get_group_or_404_mem split: option.split)
next
  case (Remove_Group_Spot g s)
  then show ?thesis using ok
    by (auto simp: remove_group_spot_admin_def intro!: intact_check intact_bind intact_group_statements)
next
  case (Invite_Group_Member g u r)
  then show ?thesis using assms known_role [OF caller]
    by (auto simp: add_group_member_def intro!: intact_check intact_bind intact_group_statements
        dest!: get_user_by_id_found get_group_or_404_mem split: option.split)
next
  case (Update_Group_Member_Role g u r)
  then show ?thesis using ok
    by (auto simp: update_group_member_role_admin_def intro!: intact_check intact_bind intact_group_statements
        split: option.split)
next
  case (Remove_Group_Member g u)
  then show ?thesis using ok
    by (auto simp: remove_group_member_admin_def intro!: intact_check intact_bind intact_group_statements)
qed

section \<open>Accounts and invites\<close>

lemma intact_rate_limited: "intact A w \<Longrightarrow> intact A (snd (rate_limited client scope n secs visitor host w))"
  unfolding rate_limited_def by (intro intact_check) (auto split: prod.split)

lemma users_rate_limited [simp]: "users (snd (rate_limited client scope n secs visitor host w)) = users w"
  by (auto simp: rate_limited_def check_def split: sum.split prod.split)

lemma may_invite_group: "may_invite u k w = Inr x \<Longrightarrow> refers k (group_uids w)"
  by (auto simp: may_invite_def bindE_Inr_iff split: option.splits dest: get_group_or_404_mem)

lemma intact_create_invite_endpoint:
  assumes "intact A w" and "known (login_required visitor) w"
  shows "intact A (snd (create_invite_endpoint client fresh now visitor host k role w))"
  unfolding create_invite_endpoint_def using assms
  by (auto simp: known_def intro!: intact_bind intact_check intact_rate_limited intact_create_invite
      dest: may_invite_group)

lemma intact_join:
  assumes "intact A w" and "i \<in> set (invites w)" "iv_group_uid i = Some k" "u \<in> user_uids w"
  shows "intact A (snd (join_group now i k u w))"
  using assms(2,3,4) unfolding join_group_def
  by (auto intro!: intact_bind intact_check intact_add_member assms(1) split: option.split
      simp: assms(1)) (use assms in \<open>auto simp: intact_def references_ok_def\<close>)

lemma join_group_other [simp]:
  "invites (snd (join_group now i k u w)) = invites w" "users (snd (join_group now i k u w)) = users w"
  by (auto simp: join_group_def add_member_def check_def bindR_def raise_def ret_def Let_def
      split: sum.splits option.splits if_splits)

lemma intact_accept:
  assumes ok: "intact A w" and i: "i \<in> set (invites w)" and u: "u \<in> user_uids w"
  shows "intact A (snd (accept_invite now i u w))"
  using assms unfolding accept_invite_def
  by (auto split: option.split intro!: intact_check intact_bind intact_join intact_accepted)

lemma get_invite_found: "get_invite_or_404 uid w = Inr i \<Longrightarrow> i \<in> set (invites w)"
  by (auto simp: get_invite_or_404_def get_invite_by_uid_def bindE_Inr_iff dest: scalar_one_or_none_filter
      split: option.splits)

lemma intact_accept_endpoint:
  assumes "intact A w" and "known caller w"
  shows "intact A (snd (accept_invite_endpoint now caller uid w))"
  using assms unfolding accept_invite_endpoint_def
  by (auto simp: known_def intro!: intact_check intact_bind intact_accept dest: get_invite_found)

lemma save_user_other:
  "invites (snd (save_user now u new w)) = invites w" "u_uid new = u_uid u \<Longrightarrow> user_uids (snd (save_user now u new w)) = user_uids w"
proof -
  show "invites (snd (save_user now u new w)) = invites w" by (simp add: save_user_def Let_def)
  assume "u_uid new = u_uid u"
  then have "map u_uid (users (snd (save_user now u new w))) = map u_uid (users w)"
    by (simp add: save_user_def Let_def map_key_update_where)
  then show "user_uids (snd (save_user now u new w)) = user_uids w" by (metis list.set_map)
qed

lemma intact_update_profile:
  "intact A w \<Longrightarrow> u \<in> set (users w) \<Longrightarrow> intact A (snd (update_user_profile now u name picture w))"
  unfolding update_user_profile_def by (rule intact_save_user) (auto simp: intact_def references_ok_def)

lemma intact_consume:
  assumes ok: "intact A w" and u: "u \<in> set (users w)"
  shows "intact A (snd (consume_invite_for_signup now uid u w))"
proof -
  have joined: "intact A (snd (check (is_group_invite_still_valid now i v) w (\<lambda>valid.
        if \<not> valid then ret () v
        else (case join_group now i k (u_uid u) v of
                (Inl e, _) \<Rightarrow> raise e w
              | (Inr _, w2) \<Rightarrow> ret () (save_accepted now i (u_uid u) w2)))))"
    if "intact A v" "i \<in> set (invites v)" "iv_group_uid i = Some k" "u_uid u \<in> user_uids v"
    for i k and v :: "'a world"
  proof -
    have "intact A (save_accepted now i (u_uid u) w2)" if "join_group now i k (u_uid u) v = (Inr x, w2)" for x w2
    proof -
      have "intact A w2" using intact_join [OF \<open>intact A v\<close> \<open>i \<in> _\<close> \<open>iv_group_uid i = _\<close> \<open>u_uid u \<in> _\<close>, of now] that by simp
      moreover have "invites w2 = invites v" "users w2 = users v"
        using join_group_other [of now i k "u_uid u" v] that by simp_all
      ultimately show ?thesis using \<open>i \<in> _\<close> \<open>u_uid u \<in> _\<close> by (intro intact_accepted) simp_all
    qed
    with ok \<open>intact A v\<close> show ?thesis
      by (auto intro!: intact_check split: prod.split sum.split)
  qed
  have referred: "intact A (snd (save_user now u (u\<lparr>u_referred_by_uid := Some (iv_inviter_uid i)\<rparr>) w))"
    if "i \<in> set (invites w)" for i
    using ok u that by (intro intact_save_user) (auto simp: intact_def references_ok_def)
  show ?thesis unfolding consume_invite_for_signup_def
  proof (rule intact_check [OF ok])
    fix found
    assume found: "get_invite_by_uid uid w = Inr found"
    show "intact A (snd (case found of None \<Rightarrow> ret () w | Some i \<Rightarrow>
        if iv_status i \<noteq> Invite_PENDING then ret () w
        else let w1 = snd (save_user now u (u\<lparr>u_referred_by_uid := Some (iv_inviter_uid i)\<rparr>) w)
             in case iv_group_uid i of None \<Rightarrow> ret () w1
              | Some k \<Rightarrow> check (is_group_invite_still_valid now i w1) w (\<lambda>valid.
                  if \<not> valid then ret () w1
                  else case join_group now i k (u_uid u) w1 of
                      (Inl e, _) \<Rightarrow> raise e w | (Inr _, w2) \<Rightarrow> ret () (save_accepted now i (u_uid u) w2))))"
    proof (cases found)
      case (Some i)
      then have i: "i \<in> set (invites w)" using found by (auto simp: get_invite_by_uid_def dest: scalar_one_or_none_filter)
      show ?thesis
        using joined [OF referred [OF i]] referred [OF i] i u ok Some
        by (cases "iv_group_uid i") (simp_all add: Let_def save_user_other)
    qed (simp add: ok)
  qed
qed

lemma intact_login_account:
  assumes "intact A w" and "intact A (race w)"
  shows "intact A (snd (login_account fresh draws now race info w))"
proof -
  have "intact A (snd (sign_up fresh draws now info sub v))" if "intact A v" for sub and v :: "'a world"
    using intact_create_user [OF that] that
    by (auto simp: sign_up_def split: option.split prod.split sum.split intro!: intact_check)
       (metis snd_conv)+
  with assms show ?thesis
    unfolding login_account_def
    by (auto split: option.split intro!: intact_check intact_bind intact_update_profile
        simp: get_user_by_google_sub_def dest!: scalar_one_or_none_filter)
qed

lemma sign_up_mem: "sign_up fresh draws now info sub w = (Inr u, w') \<Longrightarrow> u \<in> set (users w')"
  by (auto simp: sign_up_def create_user_def insert_user_def Let_def get_user_by_google_sub_def
      split: option.splits prod.splits sum.splits if_splits elim!: check_eq_InrD dest!: scalar_one_or_none_filter)

lemma login_new_mem:
  assumes "login_account fresh draws now race info w = (Inr (u, True), w')"
  shows "u \<in> set (users w')"
  using assms
  by (auto simp: login_account_def split: option.splits elim!: check_eq_InrD bindR_eq_InrD dest!: sign_up_mem)

lemma intact_google_login:
  assumes "intact A w" and "\<And>v. intact A v \<Longrightarrow> intact A (race v)"
  shows "intact A (snd (google_login client google J cfg fresh draws now race visitor host token invite_uid w))"
proof -
  have consumed: "intact A (snd (bindR (if b \<and> truthy invite_uid
        then consume_invite_for_signup now (the invite_uid) u v else ret () v) (\<lambda>_ v. ret t v)))"
    if "intact A v" "b \<Longrightarrow> u \<in> set (users v)" for b u t and v :: "'a world"
    using that by (auto intro!: intact_bind intact_consume)
  have login: "intact A (snd (bindR (login_account fresh draws now race info v) (\<lambda>(u, is_new_user) v.
      if \<not> u_is_active u then raise (app_error FORBIDDEN) v
      else bindR (if is_new_user \<and> truthy invite_uid
                  then consume_invite_for_signup now (the invite_uid) u v else ret () v)
         (\<lambda>_ v. ret (token_response_for J cfg now u) v))))" if v: "intact A v" for v info
  proof (rule intact_bind)
    show run: "intact A (snd (login_account fresh draws now race info v))"
      using v assms(2) by (intro intact_login_account) auto
    fix x
    assume "fst (login_account fresh draws now race info v) = Inr x"
    moreover obtain u b where x: "x = (u, b)" by (cases x)
    ultimately have eq: "login_account fresh draws now race info v = (Inr (u, b), snd (login_account fresh draws now race info v))"
      by (metis prod.collapse)
    have "b \<Longrightarrow> u \<in> set (users (snd (login_account fresh draws now race info v)))"
      using eq login_new_mem by (metis (full_types))
    with run show "intact A (snd ((case x of (u, is_new_user) \<Rightarrow> \<lambda>v.
      if \<not> u_is_active u then raise (app_error FORBIDDEN) v
      else bindR (if is_new_user \<and> truthy invite_uid
                  then consume_invite_for_signup now (the invite_uid) u v else ret () v)
         (\<lambda>_ v. ret (token_response_for J cfg now u) v)) (snd (login_account fresh draws now race info v))))"
      by (simp add: x consumed)
  qed
  show ?thesis unfolding google_login_def
    by (rule intact_bind; (rule intact_check)?; (rule login)?) (simp_all add: intact_rate_limited assms(1))
qed

section \<open>Reviews\<close>

lemma intact_review_request:
  assumes ok: "intact A w" and visitor: "known (login_required visitor) w"
  shows "intact A (run_review_request client cfg now visitor host req w)"
proof (cases req)
  case (Create_Review fresh s n c)
  then show ?thesis using assms
    by (auto simp: create_review_endpoint_def known_def intro!: intact_bind intact_check intact_rate_limited
        intact_create_review)
next
  case (Update_Review s r data)
  then show ?thesis using assms
    by (auto simp: update_review_endpoint_def intro!: intact_bind intact_check intact_update_review
        dest!: get_active_review_or_404_mem)
next
  case (Delete_Review s r)
  then show ?thesis using assms
    by (auto simp: delete_review_def intro!: intact_check intact_delete_review)
next
  case (Report_Review fresh s r reason)
  then show ?thesis using assms
    by (auto simp: report_review_def known_def intro!: intact_bind intact_check intact_rate_limited
        intact_create_report dest!: get_active_review_or_404_mem)
qed

section \<open>Conversations\<close>

lemma intact_block_user: "intact A w \<Longrightarrow> intact A (snd (block_user now a b w))"
  unfolding block_user_def Let_def
  by (intro intact_check) (auto split: option.split dest: intact_insert_block)

lemma intact_unblock_user: "intact A w \<Longrightarrow> intact A (snd (unblock_user a b w))"
  unfolding unblock_user_def
  by (intro intact_check) (simp_all add: intact_unblock split: option.split)

lemma intact_create_with: "intact A w \<Longrightarrow> intact A (snd (create_with fresh now type name members w))"
  by (auto simp: create_with_def Let_def split: option.split dest: intact_insert_conversation)

lemma intact_create_conversation:
  assumes "intact A w" shows "intact A (snd (create_conversation fresh now caller payload w))"
proof -
  have "intact A (snd (open_conversation fresh now u payload w))" for u
    unfolding open_conversation_def get_or_create_direct_conversation_def create_group_conversation_def
    using assms intact_create_with [OF assms]
    by (auto intro!: intact_check split: list.split option.split)
  then show ?thesis unfolding create_conversation_def
    by (auto intro!: intact_check intact_bind assms)
qed

lemma active_participant_mem:
  assumes "get_active_participant_or_404 caller k w = Inr (u, c, p)"
  shows "caller = Inr u" "c \<in> set (conversations w)"
  using assms
  by (auto simp: get_active_participant_or_404_def get_conversation_or_404_def get_conversation_by_uid_def bindE_Inr_iff
      dest!: scalar_one_or_none_filter split: option.splits)

text \<open>The connections and the frames are not rows.\<close>

lemma db_send_each [simp]: "db (send_each alive u out cs s) = db s"
  by (induction alive u out cs s rule: send_each.induct) simp_all

lemma db_sent [simp]: "db (fold (\<lambda>u. send_to_user alive u out) us s) = db s"
  by (induction us arbitrary: s) (simp_all add: send_to_user_def)

lemma db_in_db [simp]: "db (snd (in_db f s)) = snd (f (db s))"
  by (simp add: in_db_def split: prod.split)

lemma fst_in_db [simp]: "fst (in_db f s) = fst (f (db s))"
  by (simp add: in_db_def split: prod.split)

lemmas live_check = check_state [where P = "\<lambda>s. intact A (db s)" for A]

lemmas live_bind = bindR_state [where P = "\<lambda>s. intact A (db s)" for A]

lemma intact_send_message:
  assumes ok: "intact A (db s)" and visitor: "known (login_required visitor) (db s)"
  shows "intact A (db (snd (send_message alive client fresh now visitor host k content s)))"
proof -
  let ?s = "snd (in_db (rate_limited client ''dm_message_send'' 60 60 visitor host) s)"
  have kept: "intact A (db ?s)" "known (login_required visitor) (db ?s)"
    using ok visitor by (simp_all add: intact_rate_limited known_def)
  have posted: "intact A (db (snd (post_message alive fresh now u c content ?s)))"
    if "get_active_participant_or_404 (login_required visitor) k (db ?s) = Inr (u, c, p)" for u c p
  proof -
    have "u_uid u \<in> user_uids (db ?s)" "c \<in> set (conversations (db ?s))"
      using active_participant_mem [OF that] kept(2) by (auto simp: known_def)
    with kept(1) have "intact A (db (snd (in_db (create_message fresh now c (u_uid u) content) ?s)))"
      by (simp only: db_in_db intact_create_message)
    then show ?thesis
      unfolding post_message_def Let_def using kept(1)
      by (auto intro!: live_bind)
  qed
  show ?thesis unfolding send_message_def
  proof (rule live_bind)
    show "intact A (db ?s)" by (rule kept(1))
    show "intact A (db (snd (check (get_active_participant_or_404 (login_required visitor) k (db ?s)) ?s
        (\<lambda>(u, c, p). if str_len content < 1 \<or> 4000 < str_len content then raise RequestValidationError ?s
          else post_message alive fresh now u c content ?s))))" for x
      using kept(1) posted by (intro live_check) (auto split: prod.split)
  qed
qed

lemma intact_chat_request:
  assumes ok: "intact A (db s)" and visitor: "known (login_required visitor) (db s)"
  shows "intact A (db (run_chat_request alive client now visitor host req s))"
proof (cases req)
  case (Mark_Read k)
  then show ?thesis using ok
    by (auto simp: mark_conversation_read_def intro!: intact_check intact_mark_read split: prod.split)
next
  case (Delete_Message k m)
  then show ?thesis using ok
    by (auto simp: delete_message_def intro!: intact_check intact_delete_message split: prod.split option.split)
next
  case (Block_User k)
  then show ?thesis using ok
    by (auto simp: block_user_endpoint_def intro!: intact_check intact_bind intact_block_user)
next
  case (Unblock_User k)
  then show ?thesis using ok
    by (auto simp: unblock_user_endpoint_def intro!: intact_check intact_unblock_user)
qed (use assms in \<open>simp_all add: intact_create_conversation intact_send_message ws_closed_def\<close>)

lemma intact_ws: "db (snd (ws_conversations J cfg now token websocket s)) = db s"
  by (auto simp: ws_conversations_def check_def split: option.split sum.split)

section \<open>The console\<close>

lemma staff_target_mem: "staff_target k w = Inr t \<Longrightarrow> k \<in> user_uids w"
  by (auto simp: staff_target_def bindE_Inr_iff dest!: get_user_by_id_found split: option.splits if_splits)

lemma intact_assign:
  assumes "intact A w" and "k \<in> user_uids w"
  shows "intact A (update_spots now P (\<lambda>s. s\<lparr>s_assigned_to_uid := Some k\<rparr>) w)"
  using assms by (intro intact_update_spots) (simp_all add: spot_key_def)

lemma intact_assign_spots:
  assumes "intact A w" and "k \<in> user_uids w"
  shows "intact A (snd (assign_spots now locked k n w))"
    and "intact A (snd (assign_spots_bulk now uids k w))"
    and "intact A (snd (transfer_spot_assignments now locked j k n w))"
  using assms by (simp_all add: assign_spots_def assign_spots_bulk_def transfer_spot_assignments_def Let_def intact_assign)

lemma intact_update_spot:
  assumes ok: "intact A w"
    and data: "\<And>v. Set_assigned_to_uid v \<in> set data \<Longrightarrow> refers v (user_uids w)"
  shows "intact A (snd (update_spot client cfg now uid data w))"
  unfolding update_spot_def
proof (rule intact_check [OF ok])
  fix found
  assume found: "get_spot_by_uid cfg uid False w = Inr found"
  have "intact A (save_spot now s s' w)" if "found = Some s" "set_spot_attrs data s = Some s'" for s s'
    using found that(1) data by (intro intact_save_spot [OF ok _ that(2)]) (auto dest!: get_spot_by_uid_found)
  then show "intact A (snd (case found of None \<Rightarrow> ret None w
      | Some s \<Rightarrow> (case set_spot_attrs data s of None \<Rightarrow> raise integrity_error w
        | Some s' \<Rightarrow> ret (Some (saved_spot now s s'))
            (invalidate_detail client uid (bump_spots client (save_spot now s s' w))))))"
    using ok by (auto split: option.split)
qed

lemma intact_spot_request:
  assumes ok: "intact A w"
  shows "intact A (run_spot_request client cfg now locked caller req w)"
proof (cases req)
  case (Assign_Spots k n)
  then show ?thesis using ok intact_assign_spots(1) [OF ok]
    by (auto simp: assign_spots_endpoint_def intro!: intact_check dest: staff_target_mem split: prod.split)
       (metis snd_conv staff_target_mem)
next
  case (Bulk_Assign uids k)
  then show ?thesis using ok intact_assign_spots(2) [OF ok]
    by (auto simp: bulk_assign_spots_def intro!: intact_check dest: staff_target_mem split: prod.split)
       (metis snd_conv staff_target_mem)
next
  case (Transfer_Spots j k n)
  then show ?thesis using ok intact_assign_spots(3) [OF ok]
    by (auto simp: transfer_spot_assignments_endpoint_def intro!: intact_check dest: staff_target_mem split: prod.split)
       (metis snd_conv staff_target_mem)
next
  case (Bulk_Status uids p)
  have "intact A (snd (update_pipeline_status_bulk client now uids p w))"
    using ok by (simp add: update_pipeline_status_bulk_def Let_def intact_rows_kept)
  with ok Bulk_Status show ?thesis
    by (auto simp: bulk_update_pipeline_status_def intro!: intact_check split: prod.split)
next
  case (Reassign_Spot uid v)
  have "intact A (snd (update_spot client cfg now uid [Set_assigned_to_uid v] w))"
    if "(case v of None \<Rightarrow> Inr () | Some t \<Rightarrow> bindE (staff_target t w) (\<lambda>_. Inr ())) = Inr x" for x
    using that ok by (intro intact_update_spot) (auto simp: bindE_Inr_iff dest: staff_target_mem split: option.splits)
  with ok Reassign_Spot show ?thesis
    by (auto simp: reassign_spot_def intro!: intact_check)
next
  case (Update_Spot uid body)
  have "intact A (snd (update_spot client cfg now uid (filter editable_attr body) w))"
    using ok by (intro intact_update_spot) auto
  with ok Update_Spot show ?thesis
    by (auto simp: update_spot_endpoint_def Let_def intro!: intact_check)
next
  case (Delete_Spot uid)
  then show ?thesis using ok
    by (auto simp: delete_spot_endpoint_def delete_spot_def intro!: intact_check intact_rows_kept)
next
  case (Restore_Spot uid)
  then show ?thesis using ok
    by (auto simp: restore_spot_endpoint_def restore_spot_def intro!: intact_check intact_rows_kept)
qed

lemma intact_decay: "intact A w \<Longrightarrow> intact A (snd (decay_main client now w))"
proof -
  assume "intact A w"
  then have "intact A (update_spots now P (\<lambda>s. s\<lparr>s_trust_tier := h s, s_last_verified_at := t\<rparr>) w)" for P h t
    by (rule intact_rows_kept) (simp_all add: spot_key_def)
  then have "intact A (update_spots now Q (\<lambda>s. s\<lparr>s_assigned_to_uid := None, s_last_verified_at := t\<rparr>)
      (update_spots now P (\<lambda>s. s\<lparr>s_trust_tier := h s, s_last_verified_at := t\<rparr>) w))" for P Q h t
    by (rule intact_update_spots) (simp_all add: spot_key_def)
  then show ?thesis by (simp add: decay_main_def decay_stale_trust_tiers_def Let_def)
qed

section \<open>Images\<close>

lemma intact_register_image:
  assumes ok: "intact A (fst s)"
  shows "intact A (fst (snd (register_image client s3 cfg fresh now uid p s)))"
proof -
  have "intact A (fst (snd (insert_registered client s3 cfg fresh now uid p key (fst s, b))))" for key b
    using intact_create_image [OF ok]
    by (auto simp: insert_registered_def raise_def split: prod.split sum.split) (metis snd_conv)+
  then show ?thesis
    using ok
    by (auto simp: register_image_def raise_def split: option.split prod.split sum.split
        intro!: check_state [where P = "\<lambda>s. intact A (fst s)"])
qed

lemma get_image_mem: "get_image_or_404 k j w = Inr i \<Longrightarrow> i \<in> set (spot_images w)"
  by (auto simp: get_image_or_404_def get_image_by_uid_def bindE_Inr_iff dest!: scalar_one_or_none_filter split: option.splits)

lemma intact_image_endpoints:
  assumes "intact A w"
  shows intact_update_image_endpoint: "intact A (snd (update_image_endpoint client s3 cfg now k j data w))"
    and intact_delete_image_endpoint: "intact A (snd (delete_image_endpoint client now k j w))"
  using assms
  by (auto simp: update_image_endpoint_def delete_image_endpoint_def dest: get_image_mem
      intro!: intact_check intact_bind intact_update_image intact_delete_image)

section \<open>Options, business information and batches\<close>

lemma intact_option_endpoints:
  assumes "intact A w"
  shows intact_create_spot_option: "intact A (snd (create_spot_option now caller field code label w))"
    and intact_delete_spot_option: "intact A (snd (delete_spot_option now caller field code w))"
  using assms intact_create_option [OF assms] intact_delete_option [OF assms, of now field code]
  by (auto simp: create_spot_option_def delete_spot_option_def intro!: intact_check split: prod.split)

lemma set_info_attrs_keys:
  "set_info_attrs data b = Some b' \<Longrightarrow> bi_uid b' = bi_uid b \<and> bi_spot_uid b' = bi_spot_uid b"
proof (induction data arbitrary: b)
  case (Cons a data)
  then show ?case by (cases a) (auto split: option.splits if_splits)
qed simp

lemma intact_update_info_endpoint:
  assumes ok: "intact A w"
  shows "intact A (snd (update_business_info_endpoint now caller uid data w))"
proof -
  have "intact A (snd (update_business_info now uid data w))"
    unfolding update_business_info_def
  proof (rule intact_check [OF ok])
    fix found
    assume "get_business_info_by_uid uid w = Inr found"
    then have mem: "b \<in> set (business_infos w) \<and> bi_uid b = uid" if "found = Some b" for b
      using that by (auto simp: get_business_info_by_uid_def dest!: scalar_one_or_none_filter)
    have "intact A (w\<lparr>business_infos := update_where (\<lambda>x. bi_uid x = uid)
        (\<lambda>_. if changed = b then b else changed\<lparr>bi_updated_at := Some now\<rparr>) (business_infos w)\<rparr>)"
      if "found = Some b" "set_info_attrs data b = Some changed" for b changed
      using intact_update_info [OF ok, of b "if changed = b then b else changed\<lparr>bi_updated_at := Some now\<rparr>"]
        mem [OF that(1)] set_info_attrs_keys [OF that(2)] by auto
    with ok show "intact A (snd (case found of None \<Rightarrow> ret None w
       | Some b \<Rightarrow> (case set_info_attrs data b of None \<Rightarrow> raise data_error w
          | Some changed \<Rightarrow> let saved = (if changed = b then b else changed\<lparr>bi_updated_at := Some now\<rparr>)
              in ret (Some saved)
                 (w\<lparr>business_infos := update_where (\<lambda>x. bi_uid x = uid) (\<lambda>_. saved) (business_infos w)\<rparr>))))"
      by (auto simp: Let_def split: option.split)
  qed
  with ok show ?thesis
    by (auto simp: update_business_info_endpoint_def intro!: intact_check intact_bind split: option.split)
qed

interpretation intact_spot_rows: row_writer "\<lambda>i. upsert_spot_row (fresh i) now" "intact A" "refresh_caches client"
  for A and fresh :: "nat \<Rightarrow> uid" and now client
proof
  show "intact A s \<Longrightarrow> upsert_spot_row (fresh i) now row s = (Inr x, t) \<Longrightarrow> intact A t"
    for s t :: "'a world" and i row x by (rule intact_upsert_spot)
qed (simp add: refresh_caches_def)

lemma intact_bulk_spots:
  "intact A w \<Longrightarrow> intact A (snd (spots_bulk_upsert_handler client fresh now request w))"
  using intact_spot_rows.batch_inv [of A w fresh now client "bk_dry_run request" "bk_rows request"]
  by (simp add: spots_bulk_upsert_handler_def split: prod.split) (metis snd_conv)

lemma intact_upsert_info:
  assumes ok: "intact A w" and spot: "k \<in> spot_uids w"
    and put: "upsert_business_info_row fresh now k row w = (Inr x, w')"
  shows "intact A w' \<and> spots w' = spots w"
proof -
  obtain existing where found: "scalar_one_or_none multiple_results (filter (\<lambda>b. bi_spot_uid b = k) (business_infos w)) = Inr existing"
    using put by (auto simp: upsert_business_info_row_def elim!: check_eq_InrD)
  show ?thesis
  proof (cases existing)
    case (Some b)
    then have "b \<in> set (business_infos w)" using found by (auto dest!: scalar_one_or_none_filter)
    then have "intact A (w\<lparr>business_infos := update_where (\<lambda>x. bi_uid x = bi_uid b)
        (\<lambda>_. (write_info row b)\<lparr>bi_updated_at := Some now\<rparr>) (business_infos w)\<rparr>)"
      by (rule intact_update_info [OF ok]) simp_all
    with put ok found Some show ?thesis
      by (auto simp: upsert_business_info_row_def Let_def split: if_splits)
  next
    case None
    then obtain rows where rows: "insert_row bi_uid (write_info row (blank_info fresh now k)) (business_infos w) = Some rows"
        and w': "w' = w\<lparr>business_infos := rows\<rparr>"
      using put found by (auto simp: upsert_business_info_row_def split: if_splits option.splits)
    have "filter (\<lambda>b. bi_spot_uid b = k) (business_infos w) = []"
      using found None by (auto simp: scalar_one_or_none_def split: list.splits)
    then have "k \<notin> bi_spot_uid ` set (business_infos w)" by (auto simp: filter_empty_conv)
    with rows spot show ?thesis unfolding w' using intact_insert_info [OF ok rows] by simp
  qed
qed

lemma intact_business_step:
  assumes v: "intact A v \<and> spots v = spots w"
    and put: "business_step (external_id_mapping ids w) fresh now row v = (Inr x, t)"
  shows "intact A t \<and> spots t = spots w"
proof -
  obtain k where k: "external_id_mapping ids w (bb_spot_external_id row) = [k]"
      and row: "upsert_business_info_row fresh now k row v = (Inr x, t)"
    using put by (auto simp: business_step_def split: list.splits)
  have "k \<in> set (external_id_mapping ids w (bb_spot_external_id row))" by (simp add: k)
  then have "k \<in> spot_uids v" using v by (auto simp: external_id_mapping_def)
  with v row show ?thesis using intact_upsert_info by metis
qed

interpretation intact_info_rows: row_writer "\<lambda>i. business_step (external_id_mapping ids w) (fresh i) now"
    "\<lambda>v. intact A v \<and> spots v = spots w" "\<lambda>_ v. v"
  for A ids and w :: "'a world" and fresh :: "nat \<Rightarrow> uid" and now
  by unfold_locales (rule intact_business_step)

lemma intact_bulk_infos:
  "intact A w \<Longrightarrow> intact A (snd (spot_business_info_bulk_upsert_handler fresh now request w))"
  using intact_info_rows.batch_inv [of A w w "map bb_spot_external_id (bk_rows request)" fresh now "bk_dry_run request" "bk_rows request"]
  by (simp add: spot_business_info_bulk_upsert_handler_def Let_def split: prod.split) (metis snd_conv)

section \<open>The local load\<close>

lemma intact_flush:
  "intact A w \<Longrightarrow> \<forall>b \<in> set bs. bi_spot_uid b \<in> spot_uids w \<Longrightarrow> flush_infos bs w = (Inr x, w') \<Longrightarrow>
     intact A w' \<and> spots w' = spots w"
proof (induction bs arbitrary: w)
  case (Cons b bs)
  then obtain rows where rows: "insert_row bi_uid b (business_infos w) = Some rows"
      and free: "bi_spot_uid b \<notin> bi_spot_uid ` set (business_infos w)"
      and rest: "flush_infos bs (w\<lparr>business_infos := rows\<rparr>) = (Inr x, w')"
    by (auto split: if_splits option.splits)
  have "intact A (w\<lparr>business_infos := rows\<rparr>)"
    using intact_insert_info [OF Cons.prems(1) rows] free Cons.prems(2) by simp
  with Cons.IH [OF _ _ rest] Cons.prems(2) show ?case by simp
qed simp

lemma intact_load_rows:
  "intact A w \<Longrightarrow> \<forall>b \<in> set pending. bi_spot_uid b \<in> spot_uids w \<Longrightarrow>
     load_rows env i rows pending n w = (Inr x, w') \<Longrightarrow> intact A w'"
proof (induction env i rows pending n w rule: load_rows.induct)
  case (1 env i pending n w)
  then show ?case using intact_flush [OF "1.prems"(1,2)] by (auto elim!: bindR_eq_InrD)
next
  case (2 env i r rs pending n w)
  obtain spot w1 w2 biz where cells: "parse_cells (le_float env) (le_date env) r SPOT_FIELDS = Inr spot"
      and ins: "insert_spot (le_spot_uid env i) (le_now env) spot w = (Inr (), w1)"
      and fl: "flush_infos pending w1 = (Inr (), w2)"
      and biz: "parse_cells (le_float env) (le_date env) r BIZ_FIELDS = Inr biz"
      and rest: "(if \<exists>c \<in> set biz. snd c \<noteq> Absent
         then load_rows env (Suc i) rs [info_of_cells (le_info_uid env i) (le_now env) (le_spot_uid env i) biz] (Suc n) w2
         else load_rows env (Suc i) rs [] n w2) = (Inr x, w')"
    using "2.prems"(3) by (auto elim!: bindR_eq_InrD check_eq_InrD)
  note w1 = intact_load_spot [OF "2.prems"(1) ins] references_load_spot(2,3) [OF intactD(1) [OF "2.prems"(1)] ins]
  have w2: "intact A w2" "spots w2 = spots w1"
    using intact_flush [OF w1(1) _ fl] "2.prems"(2) w1(3) by auto
  show ?case
  proof (cases "\<exists>c \<in> set biz. snd c \<noteq> Absent")
    case True
    then show ?thesis
      using rest w1(2) w2
      by (intro "2.IH"(1) [OF True, of w2]) (auto simp: info_of_cells_def blank_info_def)
  next
    case False
    then show ?thesis
      using rest w2 by (intro "2.IH"(2) [OF False, of w2]) auto
  qed
qed

lemma intact_upload:
  assumes ok: "intact A w" shows "intact A (snd (upload_main environ env csv w))"
  unfolding upload_main_def using intact_load_rows [OF ok, of "[]"] ok
  by (intro intact_check) (auto split: prod.split sum.split)

end
