(* ===== verification/Frames.thy ===== *)
theory Frames
  imports Requests
begin

text \<open>
  Which tables a request leaves alone.  The tables of groups are written by the requests about
  groups, by accepted invites and by sign-ups, the tables of conversations by the requests about
  conversations, and no other request writes either.
\<close>

definition chat_tables :: "'r world \<Rightarrow> conversation list \<times> participant list \<times> message list" where
  "chat_tables w = (conversations w, participants w, messages w)"

definition social_tables ::
    "'r world \<Rightarrow> (spot_group list \<times> group_member list \<times> group_spot list) \<times> (conversation list \<times> participant list \<times> message list)" where
  "social_tables w = (group_tables w, chat_tables w)"

lemmas social_defs = social_tables_def group_tables_def chat_tables_def

lemma social_update [simp]:
  "social_tables (w\<lparr>users := a\<rparr>) = social_tables w" "social_tables (w\<lparr>spots := b\<rparr>) = social_tables w"
  "social_tables (w\<lparr>spot_images := c\<rparr>) = social_tables w" "social_tables (w\<lparr>business_infos := d\<rparr>) = social_tables w"
  "social_tables (w\<lparr>field_options := e\<rparr>) = social_tables w" "social_tables (w\<lparr>invites := f\<rparr>) = social_tables w"
  "social_tables (w\<lparr>spot_reviews := g\<rparr>) = social_tables w" "social_tables (w\<lparr>review_reports := h\<rparr>) = social_tables w"
  "social_tables (w\<lparr>user_blocks := i\<rparr>) = social_tables w" "social_tables (w\<lparr>redis := r\<rparr>) = social_tables w"
  by (simp_all add: social_defs)

lemma social_cache [simp]:
  "social_tables (bump_spots client w) = social_tables w"
  "social_tables (invalidate_detail client uid w) = social_tables w"
  "social_tables (invalidate_spot client uid w) = social_tables w"
  by (simp_all add: bump_spots_def invalidate_detail_def invalidate_spot_def)

lemma social_details [simp]: "social_tables (invalidate_details client uids w) = social_tables w"
  unfolding invalidate_details_def by (induction uids arbitrary: w) simp_all

lemmas social_check = check_state [where P = "\<lambda>v. social_tables v = S" for S]
lemmas social_bind = bindR_state [where P = "\<lambda>v. social_tables v = S" for S]

lemma social_rate_limited [simp]: "social_tables (snd (rate_limited client scope n secs visitor host w)) = social_tables w"
  unfolding rate_limited_def by (auto intro!: social_check split: prod.split)

section \<open>Accounts and invites\<close>

lemma social_save_user [simp]: "social_tables (snd (save_user now u new w)) = social_tables w"
  by (simp add: save_user_def Let_def)

lemma social_create_user [simp]: "social_tables (snd (create_user fresh draws now email sub name picture w)) = social_tables w"
  unfolding create_user_def Let_def by (auto intro!: social_check simp: insert_user_def split: option.split)

lemma social_sign_up [simp]: "social_tables (snd (sign_up fresh draws now info sub w)) = social_tables w"
proof -
  have "social_tables w' = social_tables w" if "create_user fresh draws now email sub (gc_name info) (gc_picture info) w = (x, w')" for email x w'
    using social_create_user [of fresh draws now email sub "gc_name info" "gc_picture info" w] that by simp
  then show ?thesis unfolding sign_up_def by (auto split: option.split prod.split sum.split intro!: social_check)
qed

lemma social_login_account:
  assumes "social_tables (race w) = social_tables w"
  shows "social_tables (snd (login_account fresh draws now race info w)) = social_tables w"
  unfolding login_account_def using assms
  by (auto simp: update_user_profile_def split: option.split intro!: social_check social_bind)

lemma social_create_invite_endpoint [simp]:
  "social_tables (snd (create_invite_endpoint client fresh now visitor host k role w)) = social_tables w"
  unfolding create_invite_endpoint_def
  by (auto simp: create_invite_def Let_def intro!: social_check social_bind split: option.split)

section \<open>Reviews\<close>

lemma social_update_spots [simp]: "social_tables (update_spots now P f w) = social_tables w"
  by (simp add: update_spots_def)

lemma social_recalculate [simp]: "social_tables (recalculate_spot_rating now k w) = social_tables w"
  by (simp add: recalculate_spot_rating_def Let_def)

lemma social_insert_review: "insert_review r w = Some w' \<Longrightarrow> social_tables w' = social_tables w"
  by (auto simp: insert_review_def split: if_splits)

lemma social_review_statements [simp]:
  "social_tables (snd (create_review client fresh now s u n c w)) = social_tables w"
  "social_tables (snd (update_review client now r data w)) = social_tables w"
  "social_tables (soft_delete_review client now r w) = social_tables w"
  "social_tables (snd (create_report fresh now k u reason w)) = social_tables w"
  by (auto simp: create_review_def update_review_def soft_delete_review_def create_report_def Let_def
      dest: social_insert_review intro!: social_check split: option.split)

lemma social_review_request [simp]: "social_tables (run_review_request client cfg now visitor host req w) = social_tables w"
  by (cases req)
    (auto simp: create_review_endpoint_def update_review_endpoint_def delete_review_def report_review_def
      intro!: social_check social_bind split: option.split)

section \<open>Explore and the console\<close>

lemma social_served [simp]: "social_tables (snd (serve_cached client key ttl answer w)) = social_tables w"
  unfolding serve_cached_def by (auto intro!: social_check split: option.split)

lemma social_explore [simp]:
  "social_tables (snd (list_spots_endpoint env visitor host q category region_province bbox cursor limit w)) = social_tables w"
  "social_tables (snd (list_spots_for_map env visitor host q category region_province bbox limit w)) = social_tables w"
  "social_tables (snd (get_spot env uid w)) = social_tables w"
  unfolding list_spots_endpoint_def list_spots_for_map_def get_spot_def
  by (auto intro!: social_check social_bind)

lemma social_spot_statements [simp]:
  "social_tables (snd (assign_spots now locked k n w)) = social_tables w"
  "social_tables (snd (assign_spots_bulk now uids k w)) = social_tables w"
  "social_tables (snd (transfer_spot_assignments now locked j k n w)) = social_tables w"
  "social_tables (snd (update_pipeline_status_bulk client now uids status w)) = social_tables w"
  "social_tables (save_spot now s s' w) = social_tables w"
  by (simp_all add: assign_spots_def assign_spots_bulk_def transfer_spot_assignments_def update_pipeline_status_bulk_def
      save_spot_def Let_def)

lemma social_update_spot [simp]: "social_tables (snd (update_spot client cfg now uid data w)) = social_tables w"
  unfolding update_spot_def by (auto intro!: social_check split: option.split)

lemma social_spot_request [simp]: "social_tables (run_spot_request client cfg now locked caller req w) = social_tables w"
  by (cases req)
    (auto simp: assign_spots_endpoint_def bulk_assign_spots_def transfer_spot_assignments_endpoint_def
      bulk_update_pipeline_status_def reassign_spot_def update_spot_endpoint_def delete_spot_endpoint_def
      restore_spot_endpoint_def delete_spot_def restore_spot_def Let_def
      intro!: social_check split: prod.split,
     (metis social_spot_statements snd_conv)+)

lemma social_decay [simp]: "social_tables (snd (decay_main client now w)) = social_tables w"
  by (simp add: decay_main_def decay_stale_trust_tiers_def Let_def)

lemma social_user_admin [simp]: "social_tables (user_admin_update now uid form w) = social_tables w"
  by (simp add: user_admin_update_def)

lemma social_image_statements [simp]:
  "social_tables (snd (create_image client uid now k key role n public ct w)) = social_tables w"
  "social_tables (snd (update_image client now i data w)) = social_tables w"
  "social_tables (delete_image client now i w) = social_tables w"
  by (auto simp: create_image_def update_image_def delete_image_def Let_def split: option.split)

lemma social_register_image:
  assumes "register_image client s3 cfg fresh now uid p s = (answer, w, b)"
  shows "social_tables w = social_tables (fst s)"
proof -
  have created: "social_tables v = social_tables u" if "create_image client fresh now uid key role n public ct u = (x, v)"
    for key role n public ct u x v
    using that social_image_statements(1) by (metis snd_conv)
  have "social_tables (fst (snd (insert_registered client s3 cfg fresh now uid p key (fst s, b)))) = social_tables (fst s)" for key b
    by (auto simp: insert_registered_def raise_def split: prod.split sum.split dest: created)
  then have "social_tables (fst (snd (register_image client s3 cfg fresh now uid p s))) = social_tables (fst s)"
    by (auto simp: register_image_def raise_def split: option.split prod.split sum.split
        intro!: check_state [where P = "\<lambda>v. social_tables (fst v) = social_tables (fst s)"])
  with assms show ?thesis by simp
qed

lemma social_endpoints [simp]:
  "social_tables (snd (update_image_endpoint client s3 cfg now k j data w)) = social_tables w"
  "social_tables (snd (delete_image_endpoint client now k j w)) = social_tables w"
  "social_tables (snd (create_spot_option now caller field code label w)) = social_tables w"
  "social_tables (snd (update_business_info_endpoint now caller uid info w)) = social_tables w"
  unfolding update_image_endpoint_def delete_image_endpoint_def create_spot_option_def create_field_option_def
    update_business_info_endpoint_def update_business_info_def Let_def
  by (auto intro!: social_check social_bind split: option.split)

lemma social_delete_option [simp]: "social_tables (snd (delete_spot_option now caller field code w)) = social_tables w"
proof -
  have "social_tables (snd (delete_field_option now field code w)) = social_tables w"
    by (simp add: delete_field_option_def Let_def)
  then show ?thesis unfolding delete_spot_option_def
    by (auto intro!: social_check split: prod.split)
qed

section \<open>Batches and scripts\<close>

interpretation social_spot_rows: row_writer "\<lambda>i. upsert_spot_row (fresh i) now" "\<lambda>v. social_tables v = S" "refresh_caches client"
  for fresh :: "nat \<Rightarrow> uid" and now S client
  by unfold_locales (auto simp: upsert_spot_row_def refresh_caches_def split: if_splits option.splits)

interpretation social_info_rows: row_writer "\<lambda>i. business_step mapping (fresh i) now" "\<lambda>v. social_tables v = S" "\<lambda>_ v. v"
  for mapping and fresh :: "nat \<Rightarrow> uid" and now S
  by unfold_locales (auto simp: business_step_def upsert_business_info_row_def Let_def
      split: if_splits option.splits list.splits elim!: check_eq_InrD)

lemma social_bulk [simp]:
  "social_tables (snd (spots_bulk_upsert_handler client fresh now request w)) = social_tables w"
  "social_tables (snd (spot_business_info_bulk_upsert_handler fresh now infos w)) = social_tables w"
  using social_spot_rows.batch_inv [of w "social_tables w" fresh now client "bk_dry_run request" "bk_rows request"]
    social_info_rows.batch_inv [of w "social_tables w" "external_id_mapping (map bb_spot_external_id (bk_rows infos)) w"
      fresh now "bk_dry_run infos" "bk_rows infos"]
  by (auto simp: spots_bulk_upsert_handler_def spot_business_info_bulk_upsert_handler_def Let_def split: prod.split)

lemma social_flush: "flush_infos bs w = (Inr x, w') \<Longrightarrow> social_tables w' = social_tables w"
  by (induction bs arbitrary: w) (auto split: if_splits option.splits)

lemma social_load_spot: "insert_spot uid now cells w = (Inr x, w') \<Longrightarrow> social_tables w' = social_tables w"
  by (auto simp: insert_spot_def Let_def split: if_splits option.splits)

lemma social_load_rows: "load_rows env i rows pending n w = (Inr x, w') \<Longrightarrow> social_tables w' = social_tables w"
proof (induction env i rows pending n w rule: load_rows.induct)
  case (1 env i pending n w)
  then show ?case by (auto elim!: bindR_eq_InrD dest: social_flush)
next
  case (2 env i r rs pending n w)
  then show ?case
    by (auto elim!: bindR_eq_InrD check_eq_InrD dest!: social_flush social_load_spot split: if_splits)
qed

lemma social_upload [simp]: "social_tables (snd (upload_main environ env csv w)) = social_tables w"
  unfolding upload_main_def by (intro social_check) (auto split: prod.split sum.split dest: social_load_rows)

section \<open>Groups and conversations apart\<close>

lemmas chat_check = check_state [where P = "\<lambda>v. chat_tables v = S" for S]
lemmas chat_bind = bindR_state [where P = "\<lambda>v. chat_tables v = S" for S]

lemma social_chat: "social_tables w' = social_tables w \<Longrightarrow> chat_tables w' = chat_tables w"
  and social_group: "social_tables w' = social_tables w \<Longrightarrow> group_tables w' = group_tables w"
  by (simp_all add: social_tables_def)

lemma chat_update [simp]:
  "chat_tables (w\<lparr>spot_groups := a\<rparr>) = chat_tables w" "chat_tables (w\<lparr>group_members := b\<rparr>) = chat_tables w"
  "chat_tables (w\<lparr>group_spots := c\<rparr>) = chat_tables w" "chat_tables (w\<lparr>invites := d\<rparr>) = chat_tables w"
  "chat_tables (w\<lparr>users := e\<rparr>) = chat_tables w"
  by (simp_all add: chat_tables_def)

lemma chat_group_statements [simp]:
  "chat_tables (snd (add_member now k u role by w)) = chat_tables w"
  "chat_tables (snd (add_spot now k s by w)) = chat_tables w"
  "chat_tables (snd (stored_spot_item s3 cfg now k spot by w)) = chat_tables w"
  "chat_tables (snd (update_group now g data w)) = chat_tables w"
  "chat_tables (delete_group g w) = chat_tables w"
  "chat_tables (snd (create_group fresh now u n d v w)) = chat_tables w"
  "chat_tables (snd (update_member_role m role w)) = chat_tables w"
  "chat_tables (snd (remove_member m w)) = chat_tables w"
  "chat_tables (snd (remove_spot k s w)) = chat_tables w"
  by (auto simp: add_member_def add_spot_def stored_spot_item_def update_group_def delete_group_def create_group_def
      update_member_role_def remove_member_def remove_spot_def Let_def intro!: chat_check chat_bind split: option.split)

lemma chat_group_requests [simp]:
  "chat_tables (run_group_request s3 cfg now caller req w) = chat_tables w"
  "chat_tables (run_group_request_admin s3 cfg now caller req w) = chat_tables w"
  by (cases req;
      auto simp: create_group_endpoint_def update_group_endpoint_def delete_group_endpoint_def add_group_spot_def
        remove_group_spot_def invite_group_member_def update_group_member_role_def remove_group_member_def
        create_group_admin_def update_group_admin_def delete_group_admin_def add_group_spot_admin_def
        remove_group_spot_admin_def add_group_member_def update_group_member_role_admin_def remove_group_member_admin_def
      intro!: chat_check chat_bind split: option.split)+

lemma chat_join [simp]: "chat_tables (snd (join_group now i k u w)) = chat_tables w"
  unfolding join_group_def by (auto intro!: chat_check chat_bind split: option.split)

lemma chat_accepted [simp]: "chat_tables (save_accepted now i u w) = chat_tables w"
  by (simp add: save_accepted_def)

lemma chat_accept [simp]: "chat_tables (snd (accept_invite_endpoint now caller uid w)) = chat_tables w"
  unfolding accept_invite_endpoint_def accept_invite_def
  by (auto intro!: chat_check chat_bind split: option.split)

lemma chat_save_user [simp]: "chat_tables (snd (save_user now u new w)) = chat_tables w"
  by (rule social_chat) simp

lemma chat_consume [simp]: "chat_tables (snd (consume_invite_for_signup now uid u w)) = chat_tables w"
proof -
  have joined: "chat_tables v2 = chat_tables v" if "join_group now i k x v = (y, v2)" for i k x y v v2
    using that chat_join by (metis snd_conv)
  show ?thesis
    unfolding consume_invite_for_signup_def Let_def
    by (auto intro!: chat_check split: option.split prod.split sum.split dest!: joined)
qed

lemma snd_bindR_ret: "snd (bindR m (\<lambda>_. ret x)) = snd m"
  by (cases "fst m") (auto simp: bindR_def)

text \<open>What a login does to the tables of groups, it does by consuming an invite.\<close>

lemma login_tables:
  assumes race: "\<And>v. social_tables (race v) = social_tables v"
  obtains v where "social_tables v = social_tables w"
    and "snd (google_login client google J cfg fresh draws now race visitor host token invite_uid w) = v
      \<or> (\<exists>k u. snd (google_login client google J cfg fresh draws now race visitor host token invite_uid w)
          = snd (consume_invite_for_signup now k u v))"
proof -
  let ?P = "\<lambda>v'. \<exists>v. social_tables v = social_tables w
    \<and> (v' = v \<or> (\<exists>k u. v' = snd (consume_invite_for_signup now k u v)))"
  have plain: "?P v" if "social_tables v = social_tables w" for v using that by blast
  have consumed: "?P (snd (bindR (if b \<and> truthy invite_uid
      then consume_invite_for_signup now (the invite_uid) u v else ret () v) (\<lambda>_ v. ret x v)))"
    if "social_tables v = social_tables w" for b u v x
    using that by (cases "b \<and> truthy invite_uid") (auto simp: snd_bindR_ret)
  have "?P (snd (google_login client google J cfg fresh draws now race visitor host token invite_uid w))"
    unfolding google_login_def
  proof (rule bindR_state [where P = ?P])
    show "?P (snd (rate_limited client ''auth_google'' 30 60 visitor host w))" by (rule plain) simp
    let ?w1 = "snd (rate_limited client ''auth_google'' 30 60 visitor host w)"
    show "?P (snd (check (checked_google_info google cfg token) ?w1 (\<lambda>info.
       bindR (login_account fresh draws now race info ?w1) (\<lambda>(u, is_new_user) v.
         if \<not> u_is_active u then raise (app_error FORBIDDEN) v
         else bindR (if is_new_user \<and> truthy invite_uid
             then consume_invite_for_signup now (the invite_uid) u v else ret () v)
           (\<lambda>_ v. ret (token_response_for J cfg now u) v)))))" for x
    proof (rule check_state [where P = ?P])
      show "?P ?w1" by (rule plain) simp
      fix info
      have login: "social_tables (snd (login_account fresh draws now race info ?w1)) = social_tables w"
        using social_login_account [where race = race and w = ?w1] race by simp
      show "?P (snd (bindR (login_account fresh draws now race info ?w1) (\<lambda>(u, is_new_user) v.
         if \<not> u_is_active u then raise (app_error FORBIDDEN) v
         else bindR (if is_new_user \<and> truthy invite_uid
             then consume_invite_for_signup now (the invite_uid) u v else ret () v)
           (\<lambda>_ v. ret (token_response_for J cfg now u) v))))"
      proof (rule bindR_state [where P = ?P])
        show "?P (snd (login_account fresh draws now race info ?w1))" by (rule plain [OF login])
        fix x :: "user \<times> bool"
        obtain u b where x: "x = (u, b)" by (cases x)
        show "?P (snd ((case x of (u, is_new_user) \<Rightarrow> \<lambda>v.
         if \<not> u_is_active u then raise (app_error FORBIDDEN) v
         else bindR (if is_new_user \<and> truthy invite_uid
             then consume_invite_for_signup now (the invite_uid) u v else ret () v)
           (\<lambda>_ v. ret (token_response_for J cfg now u) v)) (snd (login_account fresh draws now race info ?w1))))"
          unfolding x prod.case
          by (cases "u_is_active u") (simp_all only: not_True_eq_False not_False_eq_True if_True if_False snd_raise consumed [OF login] plain [OF login])
      qed
    qed
  qed
  then show thesis using that by blast
qed

section \<open>Conversations leave groups alone\<close>

lemmas group_check = check_state [where P = "\<lambda>v. group_tables v = S" for S]
lemmas group_bind = bindR_state [where P = "\<lambda>v. group_tables v = S" for S]

lemma group_update [simp]:
  "group_tables (w\<lparr>conversations := a\<rparr>) = group_tables w" "group_tables (w\<lparr>participants := b\<rparr>) = group_tables w"
  "group_tables (w\<lparr>messages := c\<rparr>) = group_tables w" "group_tables (w\<lparr>user_blocks := d\<rparr>) = group_tables w"
  by (simp_all add: group_tables_def)

lemma group_chat_statements [simp]:
  "group_tables (snd (create_with fresh now type name members w)) = group_tables w"
  "group_tables (snd (create_message fresh now c u content w)) = group_tables w"
  "group_tables (snd (block_user now a b w)) = group_tables w"
  "group_tables (snd (unblock_user a b w)) = group_tables w"
  by (auto simp: create_with_def create_message_def block_user_def unblock_user_def insert_conversation_def insert_block_def
      Let_def intro!: group_check split: option.split if_splits)

lemma group_open_conversation [simp]: "group_tables (snd (open_conversation fresh now u payload w)) = group_tables w"
  unfolding open_conversation_def get_or_create_direct_conversation_def create_group_conversation_def
  by (auto intro!: group_check split: list.split option.split)

lemma group_send_message [simp]:
  "group_tables (db (snd (send_message alive client fresh now visitor host k content s))) = group_tables (db s)"
proof -
  have limited: "group_tables (snd (rate_limited client scope n secs visitor host w)) = group_tables w" for scope n secs w
    by (rule social_group) simp
  show ?thesis
    unfolding send_message_def post_message_def Let_def
    by (auto intro!: check_state [where P = "\<lambda>s. group_tables (db s) = S" for S]
        bindR_state [where P = "\<lambda>s. group_tables (db s) = S" for S] simp: limited split: prod.split)
qed

lemma group_chat_request [simp]:
  "group_tables (db (run_chat_request alive client now visitor host req s)) = group_tables (db s)"
  by (cases req)
    (auto simp: create_conversation_def mark_conversation_read_def mark_read_def delete_message_def
      soft_delete_message_def block_user_endpoint_def unblock_user_endpoint_def ws_closed_def
      intro!: group_check group_bind split: prod.split option.split)

end
