(* ===== verification/Ddl.thy ===== *)
theory Ddl
  imports Prelude Strings "HOL-Library.AList"
begin

text \<open>
  The statements \<open>alembic/versions/*.py\<close> run, as functions on a catalog of tables, types, functions
  and triggers.  Rows are not modelled: a statement that changes rows only needs its table and
  columns.
\<close>

section \<open>The catalog\<close>

datatype sql_type =
    Varchar "nat option" | Sql_Text | Float8 | Int4 | Int2 | Int8 | Sql_Boolean | Timestamptz | Sql_Date
  | Varchar_Array | Jsonb | Tsvector | Enum_Type string

record table_column =
  col_name :: string
  col_type :: sql_type
  col_nullable :: bool
  col_default :: "string option"
  col_computed :: "string option"

text \<open>A check is its text and the columns it reads; a foreign key has its \<open>ON DELETE\<close> action.\<close>

datatype table_constraint =
    Primary "string list"
  | Unique "string list"
  | Check string "string list"
  | Foreign "string list" string "string list" "string option"

text \<open>A key of an index is its text and the columns it reads; so is the condition of a partial index.\<close>

record table_index =
  ix_name :: string
  ix_keys :: "(string \<times> string list) list"
  ix_unique :: bool
  ix_where :: "(string \<times> string list) option"
  ix_method :: string

record table_def =
  tb_columns :: "table_column list"
  tb_constraints :: "(string \<times> table_constraint) list"
  tb_indexes :: "table_index list"

record catalog =
  ct_tables :: "(string \<times> table_def) list"
  ct_types :: "(string \<times> string list) list"
  ct_functions :: "string list"
  ct_triggers :: "(string \<times> string \<times> string) list"
  ct_extensions :: "string list"

definition empty_catalog :: catalog where
  "empty_catalog = \<lparr>ct_tables = [], ct_types = [], ct_functions = [], ct_triggers = [], ct_extensions = []\<rparr>"

fun constraint_columns :: "table_constraint \<Rightarrow> string list" where
  "constraint_columns (Primary cs) = cs"
| "constraint_columns (Unique cs) = cs"
| "constraint_columns (Check _ cs) = cs"
| "constraint_columns (Foreign cs _ _ _) = cs"

definition index_columns :: "table_index \<Rightarrow> string list" where
  "index_columns i = concat (map snd (ix_keys i)) @ (case ix_where i of None \<Rightarrow> [] | Some (_, cs) \<Rightarrow> cs)"

fun has_index :: "table_constraint \<Rightarrow> bool" where
  "has_index (Primary _) = True"
| "has_index (Unique _) = True"
| "has_index _ = False"

text \<open>Tables, indexes and the indexes of keys share one name space.\<close>

definition relation_names :: "catalog \<Rightarrow> string list" where
  "relation_names c = concat (map (\<lambda>(t, d). t # map ix_name (tb_indexes d)
     @ map fst (filter (\<lambda>(_, k). has_index k) (tb_constraints d))) (ct_tables c))"

definition has_columns :: "table_def \<Rightarrow> string list \<Rightarrow> bool" where
  "has_columns d cs \<longleftrightarrow> list_all (\<lambda>x. x \<in> set (map col_name (tb_columns d))) cs"

definition type_known :: "catalog \<Rightarrow> sql_type \<Rightarrow> bool" where
  "type_known c t \<longleftrightarrow> (case t of Enum_Type n \<Rightarrow> n \<in> set (map fst (ct_types c)) | _ \<Rightarrow> True)"

definition is_key :: "table_def \<Rightarrow> string list \<Rightarrow> bool" where
  "is_key d cs \<longleftrightarrow> list_ex (\<lambda>(_, k). k = Primary cs \<or> k = Unique cs) (tb_constraints d)"

fun is_primary :: "table_constraint \<Rightarrow> bool" where
  "is_primary (Primary _) = True"
| "is_primary _ = False"

text \<open>The table \<open>d\<close> named \<open>t\<close> may get the constraint.\<close>

definition constraint_ok :: "catalog \<Rightarrow> string \<Rightarrow> table_def \<Rightarrow> table_constraint \<Rightarrow> bool" where
  "constraint_ok c t d k \<longleftrightarrow> has_columns d (constraint_columns k)
     \<and> (case k of
          Primary _ \<Rightarrow> \<not> list_ex (\<lambda>(_, k'). is_primary k') (tb_constraints d)
        | Foreign _ r rs _ \<Rightarrow> (case if r = t then Some d else map_of (ct_tables c) r of
            None \<Rightarrow> False | Some d' \<Rightarrow> is_key d' rs)
        | _ \<Rightarrow> True)"

text \<open>The name the server gives a constraint without one.\<close>

definition constraint_name :: "string \<Rightarrow> string option \<Rightarrow> table_constraint \<Rightarrow> string" where
  "constraint_name t name k = (case name of Some n \<Rightarrow> n | None \<Rightarrow>
     t @ (case k of Primary _ \<Rightarrow> ''_pkey'' | Unique cs \<Rightarrow> ''_'' @ str_join ''_'' cs @ ''_key''
          | Check _ cs \<Rightarrow> ''_check'' | Foreign cs _ _ _ \<Rightarrow> ''_'' @ str_join ''_'' cs @ ''_fkey''))"

definition add_constraint ::
    "catalog \<Rightarrow> string \<Rightarrow> string option \<times> table_constraint \<Rightarrow> table_def \<Rightarrow> table_def option" where
  "add_constraint c t nk d =
     (case nk of (name, k) \<Rightarrow>
       let n = constraint_name t name k
       in if constraint_ok c t d k \<and> n \<notin> set (map fst (tb_constraints d))
             \<and> \<not> (has_index k \<and> n \<in> set (relation_names c))
          then Some (d\<lparr>tb_constraints := tb_constraints d @ [(n, k)],
            tb_columns := (if is_primary k
              then map (\<lambda>x. if col_name x \<in> set (constraint_columns k) then x\<lparr>col_nullable := False\<rparr> else x)
                     (tb_columns d)
              else tb_columns d)\<rparr>)
          else None)"

fun add_constraints ::
    "catalog \<Rightarrow> string \<Rightarrow> (string option \<times> table_constraint) list \<Rightarrow> table_def \<Rightarrow> table_def option" where
  "add_constraints c t [] d = Some d"
| "add_constraints c t (k # ks) d = Option.bind (add_constraint c t k d) (add_constraints c t ks)"

definition with_table :: "string \<Rightarrow> (table_def \<Rightarrow> table_def option) \<Rightarrow> catalog \<Rightarrow> catalog option" where
  "with_table t f c = Option.bind (map_of (ct_tables c) t) (\<lambda>d.
     map_option (\<lambda>d'. c\<lparr>ct_tables := AList.update t d' (ct_tables c)\<rparr>) (f d))"

text \<open>The foreign keys of other tables that refer to a table.\<close>

definition refers_to :: "string \<Rightarrow> table_constraint \<Rightarrow> bool" where
  "refers_to t k \<longleftrightarrow> (case k of Foreign _ r _ _ \<Rightarrow> r = t | _ \<Rightarrow> False)"

definition referenced :: "catalog \<Rightarrow> string \<Rightarrow> bool" where
  "referenced c t \<longleftrightarrow> list_ex (\<lambda>(t', d). t' \<noteq> t \<and> list_ex (\<lambda>(_, k). refers_to t k) (tb_constraints d)) (ct_tables c)"

definition type_used :: "catalog \<Rightarrow> string \<Rightarrow> bool" where
  "type_used c n \<longleftrightarrow> list_ex (\<lambda>(_, d). list_ex (\<lambda>x. col_type x = Enum_Type n) (tb_columns d)) (ct_tables c)"

section \<open>Columns and indexes as the sources write them\<close>

definition column :: "string \<Rightarrow> sql_type \<Rightarrow> bool \<Rightarrow> table_column" where
  "column n t nullable =
     \<lparr>col_name = n, col_type = t, col_nullable = nullable, col_default = None, col_computed = None\<rparr>"

definition column_with :: "string \<Rightarrow> sql_type \<Rightarrow> bool \<Rightarrow> string \<Rightarrow> table_column" where
  "column_with n t nullable value_text = (column n t nullable)\<lparr>col_default := Some value_text\<rparr>"

definition index :: "string \<Rightarrow> string list \<Rightarrow> table_index" where
  "index n cs = \<lparr>ix_name = n, ix_keys = map (\<lambda>x. (x, [x])) cs, ix_unique = False, ix_where = None, ix_method = ''btree''\<rparr>"

definition unique_index :: "string \<Rightarrow> string list \<Rightarrow> table_index" where
  "unique_index n cs = (index n cs)\<lparr>ix_unique := True\<rparr>"

definition partial_index :: "string \<Rightarrow> string list \<Rightarrow> table_index \<Rightarrow> table_index" where
  "partial_index condition cs i = i\<lparr>ix_where := Some (condition, cs)\<rparr>"

definition sql_quote :: "string \<Rightarrow> string" where
  "sql_quote s = CHR 0x27 # s @ [CHR 0x27]"

section \<open>Statements\<close>

text \<open>
  Each statement is a function on the catalog; \<open>None\<close> is an error of the server.  A revision runs
  in one transaction, so an error leaves the catalog as it was.  The flag of a statement is its
  \<open>IF EXISTS\<close> or \<open>IF NOT EXISTS\<close> (\<open>checkfirst\<close> for types): set, an object that is not there, or
  already there, is no error.
\<close>

datatype ddl =
    Create_Table string "table_column list" "(string option \<times> table_constraint) list"
  | Drop_Table bool string
  | Rename_Table string string
  | Add_Column string table_column
  | Drop_Column string string
  | Alter_Type string string sql_type
  | Set_Not_Null string string
  | Create_Constraint string string table_constraint
  | Drop_Constraint string string
  | Rename_Constraint string string string
  | Create_Index string table_index
  | Drop_Index bool string
  | Create_Type bool string "string list"
  | Drop_Type bool string
  | Add_Value bool string string
  | Create_Function string
  | Drop_Function bool string
  | Create_Trigger string string string
  | Drop_Trigger bool string string
  | Create_Extension bool string
  | Drop_Extension bool string
  | Change_Rows string "string list"

definition drop_index_of :: "string \<Rightarrow> table_def \<Rightarrow> table_def" where
  "drop_index_of n d = d\<lparr>tb_indexes := filter (\<lambda>i. ix_name i \<noteq> n) (tb_indexes d)\<rparr>"

definition rename_reference :: "string \<Rightarrow> string \<Rightarrow> table_constraint \<Rightarrow> table_constraint" where
  "rename_reference t t' k = (case k of Foreign cs r rs a \<Rightarrow> Foreign cs (if r = t then t' else r) rs a | _ \<Rightarrow> k)"

definition set_column :: "string \<Rightarrow> (table_column \<Rightarrow> table_column) \<Rightarrow> table_def \<Rightarrow> table_def option" where
  "set_column x f d =
     (if has_columns d [x] then Some (d\<lparr>tb_columns := map (\<lambda>y. if col_name y = x then f y else y) (tb_columns d)\<rparr>)
      else None)"

text \<open>
  Dropping a column drops the constraints and indexes of its table that read it; a foreign key
  of another table onto it is an error.
\<close>

definition drop_column_of :: "catalog \<Rightarrow> string \<Rightarrow> string \<Rightarrow> table_def \<Rightarrow> table_def option" where
  "drop_column_of c t x d =
     (if \<not> has_columns d [x]
         \<or> list_ex (\<lambda>(t', d'). t' \<noteq> t \<and> list_ex (\<lambda>(_, k). case k of Foreign _ r rs _ \<Rightarrow> r = t \<and> x \<in> set rs | _ \<Rightarrow> False)
             (tb_constraints d')) (ct_tables c)
      then None
      else Some (d\<lparr>tb_columns := filter (\<lambda>y. col_name y \<noteq> x) (tb_columns d),
        tb_constraints := filter (\<lambda>(_, k). x \<notin> set (constraint_columns k)) (tb_constraints d),
        tb_indexes := filter (\<lambda>i. x \<notin> set (index_columns i)) (tb_indexes d)\<rparr>))"

definition unless_tolerant :: "bool \<Rightarrow> catalog \<Rightarrow> catalog option" where
  "unless_tolerant tolerant c = (if tolerant then Some c else None)"

text \<open>A key another table refers to cannot be dropped.\<close>

definition key_in_use :: "catalog \<Rightarrow> string \<Rightarrow> table_constraint \<Rightarrow> bool" where
  "key_in_use c t k \<longleftrightarrow> has_index k \<and> list_ex (\<lambda>(t', d). t' \<noteq> t \<and> list_ex (\<lambda>(_, k'). case k' of
     Foreign _ r rs _ \<Rightarrow> r = t \<and> rs = constraint_columns k | _ \<Rightarrow> False) (tb_constraints d)) (ct_tables c)"

fun exec :: "ddl \<Rightarrow> catalog \<Rightarrow> catalog option" where
  "exec (Create_Table t cols ks) c =
     (if t \<in> set (relation_names c) \<or> \<not> distinct (map col_name cols) \<or> \<not> list_all (\<lambda>x. type_known c (col_type x)) cols
      then None
      else map_option (\<lambda>d. c\<lparr>ct_tables := ct_tables c @ [(t, d)]\<rparr>)
        (add_constraints c t ks \<lparr>tb_columns = cols, tb_constraints = [], tb_indexes = []\<rparr>))"
| "exec (Drop_Table tolerant t) c =
     (if map_of (ct_tables c) t = None then unless_tolerant tolerant c
      else if referenced c t then None
      else Some (c\<lparr>ct_tables := filter (\<lambda>(t', _). t' \<noteq> t) (ct_tables c),
        ct_triggers := filter (\<lambda>(_, t', _). t' \<noteq> t) (ct_triggers c)\<rparr>))"
| "exec (Rename_Table t t') c =
     (if map_of (ct_tables c) t = None \<or> t' \<in> set (relation_names c) then None
      else Some (c\<lparr>ct_tables := map (\<lambda>(u, d). (if u = t then t' else u,
          d\<lparr>tb_constraints := map (\<lambda>(n, k). (n, rename_reference t t' k)) (tb_constraints d)\<rparr>)) (ct_tables c),
        ct_triggers := map (\<lambda>(n, u, f). (n, if u = t then t' else u, f)) (ct_triggers c)\<rparr>))"
| "exec (Add_Column t x) c = with_table t (\<lambda>d.
     if has_columns d [col_name x] \<or> \<not> type_known c (col_type x) then None
     else Some (d\<lparr>tb_columns := tb_columns d @ [x]\<rparr>)) c"
| "exec (Drop_Column t x) c = with_table t (drop_column_of c t x) c"
| "exec (Alter_Type t x ty) c = with_table t (set_column x (\<lambda>y. y\<lparr>col_type := ty\<rparr>)) c"
| "exec (Set_Not_Null t x) c = with_table t (set_column x (\<lambda>y. y\<lparr>col_nullable := False\<rparr>)) c"
| "exec (Create_Constraint n t k) c = with_table t (add_constraint c t (Some n, k)) c"
| "exec (Drop_Constraint n t) c = with_table t (\<lambda>d.
     if n \<notin> set (map fst (tb_constraints d)) \<or> list_ex (\<lambda>(m, k). m = n \<and> key_in_use c t k) (tb_constraints d) then None
     else Some (d\<lparr>tb_constraints := filter (\<lambda>(m, _). m \<noteq> n) (tb_constraints d)\<rparr>)) c"
| "exec (Rename_Constraint t n m) c = with_table t (\<lambda>d.
     if n \<notin> set (map fst (tb_constraints d)) \<or> m \<in> set (map fst (tb_constraints d)) \<or> m \<in> set (relation_names c) then None
     else Some (d\<lparr>tb_constraints := map (\<lambda>(l, k). (if l = n then m else l, k)) (tb_constraints d)\<rparr>)) c"
| "exec (Create_Index t i) c = with_table t (\<lambda>d.
     if ix_name i \<in> set (relation_names c) \<or> \<not> has_columns d (index_columns i) then None
     else Some (d\<lparr>tb_indexes := tb_indexes d @ [i]\<rparr>)) c"
| "exec (Drop_Index tolerant n) c =
     (if \<not> list_ex (\<lambda>(_, d). n \<in> set (map ix_name (tb_indexes d))) (ct_tables c) then unless_tolerant tolerant c
      else Some (c\<lparr>ct_tables := map (\<lambda>(t, d). (t, drop_index_of n d)) (ct_tables c)\<rparr>))"
| "exec (Create_Type tolerant n vs) c =
     (if n \<in> set (map fst (ct_types c)) then unless_tolerant tolerant c else Some (c\<lparr>ct_types := ct_types c @ [(n, vs)]\<rparr>))"
| "exec (Drop_Type tolerant n) c =
     (if n \<notin> set (map fst (ct_types c)) then unless_tolerant tolerant c
      else if type_used c n then None
      else Some (c\<lparr>ct_types := filter (\<lambda>(m, _). m \<noteq> n) (ct_types c)\<rparr>))"
| "exec (Add_Value tolerant n v) c = Option.bind (map_of (ct_types c) n) (\<lambda>vs.
     if v \<in> set vs then unless_tolerant tolerant c else Some (c\<lparr>ct_types := AList.update n (vs @ [v]) (ct_types c)\<rparr>))"
| "exec (Create_Function f) c =
     (if f \<in> set (ct_functions c) then None else Some (c\<lparr>ct_functions := ct_functions c @ [f]\<rparr>))"
| "exec (Drop_Function tolerant f) c =
     (if f \<notin> set (ct_functions c) then unless_tolerant tolerant c
      else if list_ex (\<lambda>(_, _, g). g = f) (ct_triggers c) then None
      else Some (c\<lparr>ct_functions := filter (\<lambda>g. g \<noteq> f) (ct_functions c)\<rparr>))"
| "exec (Create_Trigger n t f) c =
     (if map_of (ct_tables c) t = None \<or> f \<notin> set (ct_functions c) \<or> list_ex (\<lambda>(m, u, _). m = n \<and> u = t) (ct_triggers c) then None
      else Some (c\<lparr>ct_triggers := ct_triggers c @ [(n, t, f)]\<rparr>))"
| "exec (Drop_Trigger tolerant n t) c =
     (if \<not> list_ex (\<lambda>(m, u, _). m = n \<and> u = t) (ct_triggers c) then unless_tolerant tolerant c
      else Some (c\<lparr>ct_triggers := filter (\<lambda>(m, u, _). m \<noteq> n \<or> u \<noteq> t) (ct_triggers c)\<rparr>))"
| "exec (Create_Extension tolerant e) c =
     (if e \<in> set (ct_extensions c) then unless_tolerant tolerant c else Some (c\<lparr>ct_extensions := ct_extensions c @ [e]\<rparr>))"
| "exec (Drop_Extension tolerant e) c =
     (if e \<notin> set (ct_extensions c) then unless_tolerant tolerant c else Some (c\<lparr>ct_extensions := filter (\<lambda>f. f \<noteq> e) (ct_extensions c)\<rparr>))"
| "exec (Change_Rows t xs) c = with_table t (\<lambda>d. if has_columns d xs then Some d else None) c"

fun run :: "ddl list \<Rightarrow> catalog \<Rightarrow> catalog option" where
  "run [] c = Some c"
| "run (s # ss) c = Option.bind (exec s c) (run ss)"

lemma run_append: "run (ss @ ts) c = Option.bind (run ss c) (run ts)"
  by (induction ss arbitrary: c) (simp_all split: Option.bind_split)


end
