(* ===== verification/Migrations.thy ===== *)
theory Migrations
  imports Ddl
begin

text \<open>
  The revisions of \<open>alembic/versions/*.py\<close>, one definition per file, in the order in which they
  follow each other, and the two ways Alembic runs them.  An \<open>sa.Enum\<close> in \<open>op.create_table\<close> creates
  its type first; one in \<open>op.add_column\<close> does not.
\<close>

record revision =
  rev_id :: string
  rev_down :: "string option"
  rev_upgrade :: "ddl list"
  rev_downgrade :: "ddl list"

definition uid_format :: table_constraint where
  "uid_format = Check (''uid ~ '' @ sql_quote ''^[0-9A-Za-z]{22}$'') [''uid'']"

definition weighted :: "string \<Rightarrow> string \<Rightarrow> string" where
  "weighted column_name weight = ''setweight(to_tsvector('' @ sql_quote ''simple'' @ '', coalesce('' @ column_name @ '', ''
     @ sql_quote [] @ '')), '' @ sql_quote weight @ '')''"

definition search_vector_expression :: string where
  "search_vector_expression = str_join '' || ''
     [weighted ''title'' ''A'', weighted ''tagline'' ''B'', weighted ''description'' ''C'', weighted ''address'' ''D'']"

definition AUDITED_TABLES :: "string list" where
  "AUDITED_TABLES = [''spots'', ''spot_business_info'']"

definition UID_TABLES :: "string list" where
  "UID_TABLES = [''spot_images'', ''spot_reviews'', ''spot_business_info'', ''spots'', ''jobs'', ''users'']"

section \<open>Revisions\<close>

definition revision_0dd988c6b130 :: revision where
  "revision_0dd988c6b130 = \<lparr>
     rev_id = ''0dd988c6b130'',
     rev_down = None,
     rev_upgrade =
     [Create_Table ''spots''
        [column ''uid'' (Varchar (Some 22)) False,
         column ''source'' (Varchar None) True,
         column ''external_id'' (Varchar None) True,
         column ''title'' (Varchar None) False,
         column ''address'' (Varchar None) True,
         column ''address_detail'' (Varchar None) True,
         column ''region_province'' (Varchar None) True,
         column ''region_city'' (Varchar None) True,
         column ''postal_code'' (Varchar None) True,
         column ''phone'' (Varchar None) True,
         column ''description'' (Varchar None) True,
         column ''tagline'' (Varchar None) True,
         column ''latitude'' Float8 True,
         column ''longitude'' Float8 True,
         column ''altitude'' Float8 True,
         column ''unit_count'' Int4 True,
         column ''is_fee_required'' Sql_Boolean True,
         column ''is_pet_allowed'' Sql_Boolean True,
         column ''pet_policy'' (Varchar None) True,
         column ''has_equipment_rental'' Varchar_Array True,
         column ''themes'' Varchar_Array True,
         column ''fire_pit_type'' (Varchar None) True,
         column ''amenities'' Varchar_Array True,
         column ''nearby_facilities'' Varchar_Array True,
         column ''camp_sight_type'' (Varchar None) True,
         column ''rating_avg'' Float8 False,
         column ''review_count'' Int4 False,
         column ''website_url'' (Varchar None) True,
         column ''booking_url'' (Varchar None) True,
         column ''features'' (Varchar None) True,
         column ''category'' Varchar_Array True,
         column ''total_area_m2'' Float8 True,
         column ''has_liability_insurance'' Sql_Boolean True,
         column_with ''created_at'' Timestamptz True ''now()'',
         column_with ''updated_at'' Timestamptz True ''now()'']
        [(None, Primary [''uid'']),
         (Some ''uq_spots_source_external_id'', Unique [''source'', ''external_id''])],
      Create_Index ''spots'' (index ''ix_spots_rating_avg'' [''rating_avg'']),
      Create_Index ''spots'' (index ''ix_spots_region_city'' [''region_city'']),
      Create_Index ''spots'' (index ''ix_spots_region_province'' [''region_province'']),
      Create_Index ''spots'' (index ''ix_spots_source'' [''source'']),
      Create_Index ''spots'' (index ''ix_spots_title'' [''title'']),
      Create_Type False ''membership_tier'' [''free'', ''member''],
      Create_Table ''users''
        [column ''uid'' (Varchar (Some 22)) False,
         column ''email'' (Varchar (Some 320)) False,
         column ''google_sub'' (Varchar (Some 255)) False,
         column ''nickname'' (Varchar (Some 50)) False,
         column ''name'' (Varchar (Some 100)) True,
         column ''picture'' (Varchar (Some 2048)) True,
         column ''is_active'' Sql_Boolean False,
         column_with ''is_staff'' Sql_Boolean False ''false'',
         column_with ''membership_tier'' (Enum_Type ''membership_tier'') False ''free'',
         column ''identity_verified_at'' Timestamptz True,
         column ''onboarding_survey_completed_at'' Timestamptz True,
         column_with ''created_at'' Timestamptz False ''now()'',
         column_with ''updated_at'' Timestamptz False ''now()'']
        [(None, Primary [''uid''])],
      Create_Index ''users'' (unique_index ''ix_users_email'' [''email'']),
      Create_Index ''users'' (unique_index ''ix_users_google_sub'' [''google_sub'']),
      Create_Index ''users'' (unique_index ''ix_users_nickname'' [''nickname'']),
      Create_Type False ''job_type'' [''spots_bulk_upsert'', ''spot_business_info_bulk_upsert''],
      Create_Type False ''job_status'' [''pending'', ''running'', ''succeeded'', ''failed''],
      Create_Table ''jobs''
        [column ''uid'' (Varchar (Some 22)) False,
         column ''type'' (Enum_Type ''job_type'') False,
         column_with ''status'' (Enum_Type ''job_status'') False ''pending'',
         column ''payload'' Jsonb False,
         column ''result'' Jsonb True,
         column ''error'' Sql_Text True,
         column ''created_by'' (Varchar (Some 22)) False,
         column_with ''created_at'' Timestamptz False ''now()'',
         column ''started_at'' Timestamptz True,
         column ''finished_at'' Timestamptz True]
        [(None, Foreign [''created_by''] ''users'' [''uid''] None),
         (None, Primary [''uid''])],
      Create_Index ''jobs'' (index ''ix_jobs_created_at'' [''created_at'']),
      Create_Index ''jobs'' (index ''ix_jobs_status'' [''status'']),
      Create_Table ''spot_business_info''
        [column ''uid'' (Varchar (Some 22)) False,
         column ''spot_uid'' (Varchar (Some 22)) False,
         column ''business_reg_no'' (Varchar None) True,
         column ''tourism_business_reg_no'' (Varchar None) True,
         column ''business_type'' (Varchar None) True,
         column ''operation_type'' (Varchar None) True,
         column ''operating_agency'' (Varchar None) True,
         column ''operating_status'' (Varchar None) True,
         column ''national_park_no'' Int4 True,
         column ''national_park_office_code'' (Varchar None) True,
         column ''national_park_serial_no'' (Varchar None) True,
         column ''national_park_category_code'' (Varchar None) True,
         column ''licensed_at'' Sql_Date True,
         column_with ''created_at'' Timestamptz True ''now()'',
         column_with ''updated_at'' Timestamptz True ''now()'']
        [(None, Foreign [''spot_uid''] ''spots'' [''uid''] None),
         (None, Primary [''uid''])],
      Create_Index ''spot_business_info'' (index ''ix_spot_business_info_operating_status'' [''operating_status'']),
      Create_Index ''spot_business_info'' (index ''ix_spot_business_info_spot_uid'' [''spot_uid'']),
      Create_Table ''spot_reviews''
        [column ''uid'' (Varchar (Some 22)) False,
         column ''spot_uid'' (Varchar (Some 22)) False,
         column ''user_id'' (Varchar (Some 22)) False,
         column ''rating'' Float8 False,
         column ''content'' (Varchar None) True,
         column_with ''created_at'' Timestamptz True ''now()'',
         column_with ''updated_at'' Timestamptz True ''now()'']
        [(Some ''check_review_rating_range'', Check ''rating >= 0 AND rating <= 5'' [''rating'']),
         (None, Foreign [''spot_uid''] ''spots'' [''uid''] None),
         (None, Foreign [''user_id''] ''users'' [''uid''] None),
         (None, Primary [''uid'']),
         (Some ''uq_spot_user_review'', Unique [''spot_uid'', ''user_id''])],
      Create_Index ''spot_reviews'' (index ''ix_spot_reviews_spot_uid'' [''spot_uid'']),
      Create_Index ''spot_reviews'' (index ''ix_spot_reviews_user_id'' [''user_id''])],
     rev_downgrade =
     [Drop_Index False ''ix_spot_reviews_user_id'',
      Drop_Index False ''ix_spot_reviews_spot_uid'',
      Drop_Table False ''spot_reviews'',
      Drop_Index False ''ix_spot_business_info_spot_uid'',
      Drop_Index False ''ix_spot_business_info_operating_status'',
      Drop_Table False ''spot_business_info'',
      Drop_Index False ''ix_jobs_status'',
      Drop_Index False ''ix_jobs_created_at'',
      Drop_Table False ''jobs'',
      Drop_Index False ''ix_users_nickname'',
      Drop_Index False ''ix_users_google_sub'',
      Drop_Index False ''ix_users_email'',
      Drop_Table False ''users'',
      Drop_Index False ''ix_spots_title'',
      Drop_Index False ''ix_spots_source'',
      Drop_Index False ''ix_spots_region_province'',
      Drop_Index False ''ix_spots_region_city'',
      Drop_Index False ''ix_spots_rating_avg'',
      Drop_Table False ''spots'']\<rparr>"

definition revision_b7f3a1c9d2e4 :: revision where
  "revision_b7f3a1c9d2e4 = \<lparr>
     rev_id = ''b7f3a1c9d2e4'',
     rev_down = Some ''0dd988c6b130'',
     rev_upgrade =
     [Create_Table ''audit_log''
        [column_with ''id'' Int8 False ''nextval(audit_log_id_seq)'',
         column ''table_name'' Sql_Text False,
         column ''row_uid'' Sql_Text False,
         column ''action'' Sql_Text False,
         column ''old_data'' Jsonb True,
         column ''new_data'' Jsonb True,
         column ''changed_by'' Sql_Text True,
         column_with ''changed_at'' Timestamptz False ''now()'']
        [(None, Primary [''id''])],
      Create_Index ''audit_log'' (index ''ix_audit_log_row'' [''table_name'', ''row_uid'', ''changed_at'']),
      Create_Function ''log_audit''] @ map (\<lambda>t. Create_Trigger (''audit_'' @ t) t ''log_audit'') AUDITED_TABLES,
     rev_downgrade =
     map (\<lambda>t. Drop_Trigger True (''audit_'' @ t) t) AUDITED_TABLES @
     [Drop_Function True ''log_audit'', Drop_Table True ''audit_log'']\<rparr>"

definition revision_a1b2c3d4e5f6 :: revision where
  "revision_a1b2c3d4e5f6 = \<lparr>
     rev_id = ''a1b2c3d4e5f6'',
     rev_down = Some ''b7f3a1c9d2e4'',
     rev_upgrade =
     [Create_Type False ''spot_image_role'' [''thumbnail'', ''detail''],
      Create_Table ''spot_images''
        [column ''uid'' (Varchar (Some 22)) False,
         column ''spot_uid'' (Varchar (Some 22)) False,
         column ''s3_key'' (Varchar None) False,
         column ''role'' (Enum_Type ''spot_image_role'') False,
         column_with ''sort_order'' Int4 False ''0'',
         column_with ''is_public'' Sql_Boolean False ''true'',
         column ''content_type'' (Varchar None) True,
         column_with ''created_at'' Timestamptz True ''now()'',
         column_with ''updated_at'' Timestamptz True ''now()'']
        [(None, Foreign [''spot_uid''] ''spots'' [''uid''] None),
         (None, Primary [''uid''])],
      Create_Index ''spot_images'' (index ''ix_spot_images_spot_uid'' [''spot_uid''])],
     rev_downgrade =
     [Drop_Index False ''ix_spot_images_spot_uid'',
      Drop_Table False ''spot_images'',
      Drop_Type False ''spot_image_role'']\<rparr>"

definition revision_c8e2d4f6a1b3 :: revision where
  "revision_c8e2d4f6a1b3 = \<lparr>
     rev_id = ''c8e2d4f6a1b3'',
     rev_down = Some ''a1b2c3d4e5f6'',
     rev_upgrade =
     [Add_Column ''spots'' (column_with ''pipeline_status'' (Varchar None) False ''RAW''),
      Add_Column ''spots'' (column ''trust_tier'' Int2 True),
      Change_Rows ''spots'' [''pipeline_status''],
      Create_Constraint ''ck_spots_pipeline_status'' ''spots''
         (Check (''pipeline_status IN ('' @ str_join '', '' (map sql_quote [''RAW'', ''ENRICHED'', ''CURATED'', ''REVIEWED'', ''PUBLISHED'', ''REJECTED'']) @ '')'') [''pipeline_status'']),
      Create_Constraint ''ck_spots_trust_tier'' ''spots'' (Check ''trust_tier BETWEEN 1 AND 3'' [''trust_tier'']),
      Create_Index ''spots'' (partial_index (''pipeline_status = '' @ sql_quote ''PUBLISHED'') [''pipeline_status'']
          (index ''ix_spots_published_uid'' [''uid'']))],
     rev_downgrade =
     [Drop_Index False ''ix_spots_published_uid'',
      Drop_Constraint ''ck_spots_trust_tier'' ''spots'',
      Drop_Constraint ''ck_spots_pipeline_status'' ''spots'',
      Drop_Column ''spots'' ''trust_tier'',
      Drop_Column ''spots'' ''pipeline_status'']\<rparr>"

definition revision_d9f1e3a5b7c2 :: revision where
  "revision_d9f1e3a5b7c2 = \<lparr>
     rev_id = ''d9f1e3a5b7c2'',
     rev_down = Some ''c8e2d4f6a1b3'',
     rev_upgrade =
     map (\<lambda>child. Change_Rows child [''spot_uid'']) [''spot_images'', ''spot_reviews'', ''spot_business_info'']
     @ map (\<lambda>t. Change_Rows t [''uid'']) [''spot_images'', ''spot_reviews'', ''spot_business_info'', ''spots'', ''jobs'']
     @ map (\<lambda>t. Create_Constraint (''ck_'' @ t @ ''_uid_format'') t uid_format) UID_TABLES,
     rev_downgrade =
     map (\<lambda>t. Drop_Constraint (''ck_'' @ t @ ''_uid_format'') t) UID_TABLES\<rparr>"

definition revision_0efcde5399a3 :: revision where
  "revision_0efcde5399a3 = \<lparr>
     rev_id = ''0efcde5399a3'',
     rev_down = Some ''d9f1e3a5b7c2'',
     rev_upgrade =
     [Drop_Index False ''ix_spot_business_info_spot_uid'',
      Create_Constraint ''uq_spot_business_info_spot_uid'' ''spot_business_info'' (Unique [''spot_uid'']),
      Drop_Constraint ''spot_business_info_spot_uid_fkey'' ''spot_business_info'',
      Create_Constraint ''spot_business_info_spot_uid_fkey'' ''spot_business_info'' (Foreign [''spot_uid''] ''spots'' [''uid''] (Some ''CASCADE''))],
     rev_downgrade =
     [Drop_Constraint ''spot_business_info_spot_uid_fkey'' ''spot_business_info'',
      Create_Constraint ''spot_business_info_spot_uid_fkey'' ''spot_business_info'' (Foreign [''spot_uid''] ''spots'' [''uid''] None),
      Drop_Constraint ''uq_spot_business_info_spot_uid'' ''spot_business_info'',
      Create_Index ''spot_business_info'' (index ''ix_spot_business_info_spot_uid'' [''spot_uid''])]\<rparr>"

definition revision_f1a2b3c4d5e6 :: revision where
  "revision_f1a2b3c4d5e6 = \<lparr>
     rev_id = ''f1a2b3c4d5e6'',
     rev_down = Some ''0efcde5399a3'',
     rev_upgrade =
     [Add_Column ''spots'' (column ''assigned_to_uid'' (Varchar (Some 22)) True),
      Create_Index ''spots'' (index ''ix_spots_assigned_to_uid'' [''assigned_to_uid'']),
      Create_Constraint ''spots_assigned_to_uid_fkey'' ''spots'' (Foreign [''assigned_to_uid''] ''users'' [''uid''] (Some ''SET NULL''))],
     rev_downgrade =
     [Drop_Constraint ''spots_assigned_to_uid_fkey'' ''spots'',
      Drop_Index False ''ix_spots_assigned_to_uid'',
      Drop_Column ''spots'' ''assigned_to_uid'']\<rparr>"

definition revision_e5c7d9a1b3f4 :: revision where
  "revision_e5c7d9a1b3f4 = \<lparr>
     rev_id = ''e5c7d9a1b3f4'',
     rev_down = Some ''f1a2b3c4d5e6'',
     rev_upgrade =
     [Change_Rows ''users'' [''email''],
      Create_Index ''users'' ((unique_index ''ix_users_email_lower'' [])\<lparr>ix_keys := [(''lower(email)'', [''email''])]\<rparr>)],
     rev_downgrade =
     [Drop_Index True ''ix_users_email_lower'']\<rparr>"

definition revision_b3d8f2a4c6e1 :: revision where
  "revision_b3d8f2a4c6e1 = \<lparr>
     rev_id = ''b3d8f2a4c6e1'',
     rev_down = Some ''e5c7d9a1b3f4'',
     rev_upgrade =
     [Create_Type True ''staff_role'' [''staff'', ''manager'', ''superuser''],
      Add_Column ''users'' (column_with ''staff_role'' (Enum_Type ''staff_role'') False ''staff'')],
     rev_downgrade =
     [Drop_Column ''users'' ''staff_role'',
      Drop_Type True ''staff_role'']\<rparr>"

definition revision_2cd14aeebc1d :: revision where
  "revision_2cd14aeebc1d = \<lparr>
     rev_id = ''2cd14aeebc1d'',
     rev_down = Some ''b3d8f2a4c6e1'',
     rev_upgrade =
     [Create_Table ''spot_category_options''
        [column ''code'' (Varchar (Some 50)) False,
         column ''label_ko'' (Varchar (Some 100)) False,
         column_with ''created_at'' Timestamptz True ''now()'']
        [(Some ''ck_spot_category_options_code_format'', Check (''code ~ '' @ sql_quote ''^[A-Z][A-Z0-9_]*$'') [''code'']),
         (None, Primary [''code''])],
      Change_Rows ''spots'' [''category'']],
     rev_downgrade =
     [Drop_Table False ''spot_category_options'']\<rparr>"

definition revision_610d81c68705 :: revision where
  "revision_610d81c68705 = \<lparr>
     rev_id = ''610d81c68705'',
     rev_down = Some ''2cd14aeebc1d'',
     rev_upgrade =
     [Rename_Table ''spot_category_options'' ''spot_field_options'',
      Rename_Constraint ''spot_field_options'' ''spot_category_options_pkey'' ''spot_field_options_pkey_old'',
      Rename_Constraint ''spot_field_options'' ''ck_spot_category_options_code_format'' ''ck_spot_field_options_code_format'',
      Add_Column ''spot_field_options'' (column ''field'' (Varchar (Some 30)) True),
      Change_Rows ''spot_field_options'' [''field''],
      Set_Not_Null ''spot_field_options'' ''field'',
      Drop_Constraint ''spot_field_options_pkey_old'' ''spot_field_options'',
      Create_Constraint ''spot_field_options_pkey'' ''spot_field_options'' (Primary [''field'', ''code'']),
      Change_Rows ''spots'' [''amenities'', ''nearby_facilities'', ''has_equipment_rental'']],
     rev_downgrade =
     [Drop_Constraint ''spot_field_options_pkey'' ''spot_field_options'',
      Change_Rows ''spot_field_options'' [''field''],
      Drop_Column ''spot_field_options'' ''field'',
      Create_Constraint ''spot_category_options_pkey'' ''spot_field_options'' (Primary [''code'']),
      Rename_Constraint ''spot_field_options'' ''ck_spot_field_options_code_format'' ''ck_spot_category_options_code_format'',
      Rename_Table ''spot_field_options'' ''spot_category_options'']\<rparr>"

definition revision_d90640348f6b :: revision where
  "revision_d90640348f6b = \<lparr>
     rev_id = ''d90640348f6b'',
     rev_down = Some ''610d81c68705'',
     rev_upgrade =
     [Create_Extension True ''pg_trgm'',
      Add_Column ''spots'' ((column ''search_vector'' Tsvector True)\<lparr>col_computed := Some search_vector_expression\<rparr>),
      Create_Index ''spots'' ((index ''ix_spots_search_vector'' [''search_vector''])\<lparr>ix_method := ''gin''\<rparr>),
      Create_Index ''spots'' ((index ''ix_spots_title_trgm'' [''title''])\<lparr>ix_method := ''gin gin_trgm_ops''\<rparr>)],
     rev_downgrade =
     [Drop_Index True ''ix_spots_title_trgm'',
      Drop_Index True ''ix_spots_search_vector'',
      Drop_Column ''spots'' ''search_vector'',
      Drop_Extension True ''pg_trgm'']\<rparr>"

definition revision_73dcae10bc10 :: revision where
  "revision_73dcae10bc10 = \<lparr>
     rev_id = ''73dcae10bc10'',
     rev_down = Some ''d90640348f6b'',
     rev_upgrade =
     [Create_Type False ''group_visibility'' [''private'', ''invite_only'', ''public''],
      Create_Table ''spot_groups''
        [column ''uid'' (Varchar (Some 22)) False,
         column ''name'' (Varchar (Some 100)) False,
         column ''description'' (Varchar None) True,
         column_with ''visibility'' (Enum_Type ''group_visibility'') False ''private'',
         column_with ''created_at'' Timestamptz True ''now()'',
         column_with ''updated_at'' Timestamptz True ''now()'']
        [(Some ''ck_spot_groups_uid_format'', uid_format),
         (None, Primary [''uid''])],
      Create_Type False ''group_role'' [''viewer'', ''contributor'', ''editor'', ''owner''],
      Create_Table ''spot_group_members''
        [column ''group_uid'' (Varchar (Some 22)) False,
         column ''user_uid'' (Varchar (Some 22)) False,
         column ''role'' (Enum_Type ''group_role'') False,
         column ''invited_by_uid'' (Varchar (Some 22)) True,
         column_with ''created_at'' Timestamptz True ''now()'']
        [(None, Foreign [''group_uid''] ''spot_groups'' [''uid''] (Some ''CASCADE'')),
         (None, Foreign [''invited_by_uid''] ''users'' [''uid''] None),
         (None, Foreign [''user_uid''] ''users'' [''uid''] None),
         (None, Primary [''group_uid'', ''user_uid''])],
      Create_Index ''spot_group_members'' (index ''ix_spot_group_members_user_uid'' [''user_uid'']),
      Create_Table ''spot_group_spots''
        [column ''group_uid'' (Varchar (Some 22)) False,
         column ''spot_uid'' (Varchar (Some 22)) False,
         column ''added_by_uid'' (Varchar (Some 22)) False,
         column_with ''created_at'' Timestamptz True ''now()'']
        [(None, Foreign [''added_by_uid''] ''users'' [''uid''] None),
         (None, Foreign [''group_uid''] ''spot_groups'' [''uid''] (Some ''CASCADE'')),
         (None, Foreign [''spot_uid''] ''spots'' [''uid''] None),
         (None, Primary [''group_uid'', ''spot_uid''])]],
     rev_downgrade =
     [Drop_Table False ''spot_group_spots'',
      Drop_Index False ''ix_spot_group_members_user_uid'',
      Drop_Table False ''spot_group_members'',
      Drop_Table False ''spot_groups'',
      Drop_Type False ''group_role'',
      Drop_Type False ''group_visibility'']\<rparr>"

definition revision_3eb2b585b548 :: revision where
  "revision_3eb2b585b548 = \<lparr>
     rev_id = ''3eb2b585b548'',
     rev_down = Some ''73dcae10bc10'',
     rev_upgrade =
     [Create_Type False ''invite_status'' [''pending'', ''accepted'', ''revoked''],
      Create_Table ''invites''
        [column ''uid'' (Varchar (Some 22)) False,
         column ''inviter_uid'' (Varchar (Some 22)) False,
         column ''group_uid'' (Varchar (Some 22)) True,
         column ''group_role'' (Enum_Type ''group_role'') True,
         column_with ''status'' (Enum_Type ''invite_status'') False ''pending'',
         column ''accepted_by_uid'' (Varchar (Some 22)) True,
         column ''accepted_at'' Timestamptz True,
         column_with ''created_at'' Timestamptz True ''now()'']
        [(Some ''ck_invites_uid_format'', uid_format),
         (None, Foreign [''accepted_by_uid''] ''users'' [''uid''] None),
         (None, Foreign [''group_uid''] ''spot_groups'' [''uid''] (Some ''CASCADE'')),
         (None, Foreign [''inviter_uid''] ''users'' [''uid''] None),
         (None, Primary [''uid''])],
      Create_Index ''invites'' (index ''ix_invites_inviter_uid'' [''inviter_uid'']),
      Create_Index ''invites'' (index ''ix_invites_group_uid'' [''group_uid'']),
      Add_Column ''users'' (column ''referred_by_uid'' (Varchar (Some 22)) True),
      Create_Constraint ''fk_users_referred_by_uid_users'' ''users'' (Foreign [''referred_by_uid''] ''users'' [''uid''] None)],
     rev_downgrade =
     [Drop_Constraint ''fk_users_referred_by_uid_users'' ''users'',
      Drop_Column ''users'' ''referred_by_uid'',
      Drop_Index False ''ix_invites_group_uid'',
      Drop_Index False ''ix_invites_inviter_uid'',
      Drop_Table False ''invites'',
      Drop_Type False ''invite_status'']\<rparr>"

definition revision_fb8be0e57798 :: revision where
  "revision_fb8be0e57798 = \<lparr>
     rev_id = ''fb8be0e57798'',
     rev_down = Some ''3eb2b585b548'',
     rev_upgrade =
     [Create_Table ''spot_review_reports''
        [column ''uid'' (Varchar (Some 22)) False,
         column ''review_uid'' (Varchar (Some 22)) False,
         column ''reporter_user_uid'' (Varchar (Some 22)) False,
         column ''reason'' (Varchar None) False,
         column_with ''created_at'' Timestamptz True ''now()'']
        [(Some ''ck_spot_review_reports_uid_format'', uid_format),
         (None, Foreign [''reporter_user_uid''] ''users'' [''uid''] None),
         (None, Foreign [''review_uid''] ''spot_reviews'' [''uid''] (Some ''CASCADE'')),
         (None, Primary [''uid'']),
         (Some ''uq_review_reporter'', Unique [''review_uid'', ''reporter_user_uid''])],
      Create_Index ''spot_review_reports''
          (index ''ix_spot_review_reports_reporter_user_uid'' [''reporter_user_uid'']),
      Create_Index ''spot_review_reports'' (index ''ix_spot_review_reports_review_uid'' [''review_uid'']),
      Add_Column ''spot_reviews'' (column ''deleted_at'' Timestamptz True),
      Alter_Type ''spot_reviews'' ''rating'' Int2,
      Drop_Constraint ''check_review_rating_range'' ''spot_reviews'',
      Create_Constraint ''check_review_rating_range'' ''spot_reviews'' (Check ''rating >= 0 AND rating <= 10'' [''rating'']),
      Drop_Constraint ''uq_spot_user_review'' ''spot_reviews'',
      Create_Index ''spot_reviews'' (partial_index ''deleted_at IS NULL'' [''deleted_at'']
          (unique_index ''uq_spot_user_review_active'' [''spot_uid'', ''user_id''])),
      Add_Column ''spots'' (column ''deleted_at'' Timestamptz True),
      Drop_Index False ''ix_spots_published_uid'',
      Create_Index ''spots'' (partial_index (''pipeline_status = '' @ sql_quote ''PUBLISHED'' @ '' AND deleted_at IS NULL'') [''pipeline_status'', ''deleted_at'']
          (index ''ix_spots_published_uid'' [''uid'']))],
     rev_downgrade =
     [Drop_Index False ''ix_spots_published_uid'',
      Create_Index ''spots'' (partial_index (''pipeline_status = '' @ sql_quote ''PUBLISHED'') [''pipeline_status'']
          (index ''ix_spots_published_uid'' [''uid''])),
      Drop_Column ''spots'' ''deleted_at'',
      Drop_Index False ''uq_spot_user_review_active'',
      Create_Constraint ''uq_spot_user_review'' ''spot_reviews'' (Unique [''spot_uid'', ''user_id'']),
      Drop_Constraint ''check_review_rating_range'' ''spot_reviews'',
      Create_Constraint ''check_review_rating_range'' ''spot_reviews'' (Check ''rating >= 0 AND rating <= 5'' [''rating'']),
      Alter_Type ''spot_reviews'' ''rating'' Float8,
      Drop_Column ''spot_reviews'' ''deleted_at'',
      Drop_Index False ''ix_spot_review_reports_review_uid'',
      Drop_Index False ''ix_spot_review_reports_reporter_user_uid'',
      Drop_Table False ''spot_review_reports'']\<rparr>"

definition revision_3faa9de7cf2a :: revision where
  "revision_3faa9de7cf2a = \<lparr>
     rev_id = ''3faa9de7cf2a'',
     rev_down = Some ''fb8be0e57798'',
     rev_upgrade =
     [Add_Column ''spots'' (column ''last_verified_at'' Timestamptz True)],
     rev_downgrade =
     [Drop_Column ''spots'' ''last_verified_at'']\<rparr>"

definition revision_4f801d8a7469 :: revision where
  "revision_4f801d8a7469 = \<lparr>
     rev_id = ''4f801d8a7469'',
     rev_down = Some ''3faa9de7cf2a'',
     rev_upgrade =
     [Add_Value True ''job_type'' ''db_dump''],
     rev_downgrade =
     []\<rparr>"

definition revision_a7c3e1f9b204 :: revision where
  "revision_a7c3e1f9b204 = \<lparr>
     rev_id = ''a7c3e1f9b204'',
     rev_down = Some ''4f801d8a7469'',
     rev_upgrade =
     [Create_Index ''spots'' (partial_index ''latitude IS NOT NULL AND longitude IS NOT NULL AND deleted_at IS NULL'' [''latitude'', ''longitude'', ''deleted_at'']
          (index ''ix_spots_coordinates'' [''latitude'', ''longitude'']))],
     rev_downgrade =
     [Drop_Index False ''ix_spots_coordinates'']\<rparr>"

definition revision_58f418a45d9a :: revision where
  "revision_58f418a45d9a = \<lparr>
     rev_id = ''58f418a45d9a'',
     rev_down = Some ''a7c3e1f9b204'',
     rev_upgrade =
     [Create_Type False ''conversation_type'' [''direct'', ''group''],
      Create_Table ''conversations''
        [column ''uid'' (Varchar (Some 22)) False,
         column ''type'' (Enum_Type ''conversation_type'') False,
         column ''name'' (Varchar (Some 100)) True,
         column_with ''created_at'' Timestamptz False ''now()'',
         column_with ''updated_at'' Timestamptz False ''now()'']
        [(Some ''ck_conversations_uid_format'', uid_format),
         (None, Primary [''uid''])],
      Create_Table ''conversation_participants''
        [column ''conversation_uid'' (Varchar (Some 22)) False,
         column ''user_uid'' (Varchar (Some 22)) False,
         column_with ''joined_at'' Timestamptz False ''now()'',
         column ''last_read_at'' Timestamptz True,
         column ''left_at'' Timestamptz True]
        [(None, Foreign [''conversation_uid''] ''conversations'' [''uid''] (Some ''CASCADE'')),
         (None, Foreign [''user_uid''] ''users'' [''uid''] None),
         (None, Primary [''conversation_uid'', ''user_uid''])],
      Create_Index ''conversation_participants'' (index ''ix_conversation_participants_user_uid'' [''user_uid'']),
      Create_Table ''messages''
        [column ''uid'' (Varchar (Some 22)) False,
         column ''conversation_uid'' (Varchar (Some 22)) False,
         column ''sender_uid'' (Varchar (Some 22)) False,
         column ''content'' (Varchar None) False,
         column ''deleted_at'' Timestamptz True,
         column_with ''created_at'' Timestamptz False ''now()'']
        [(Some ''ck_messages_uid_format'', uid_format),
         (None, Foreign [''conversation_uid''] ''conversations'' [''uid''] (Some ''CASCADE'')),
         (None, Foreign [''sender_uid''] ''users'' [''uid''] None),
         (None, Primary [''uid''])],
      Create_Index ''messages'' (index ''ix_messages_conversation_uid'' [''conversation_uid'']),
      Create_Index ''messages'' (index ''ix_messages_created_at'' [''created_at'']),
      Create_Table ''user_blocks''
        [column ''blocker_uid'' (Varchar (Some 22)) False,
         column ''blocked_uid'' (Varchar (Some 22)) False,
         column_with ''created_at'' Timestamptz False ''now()'']
        [(Some ''ck_user_blocks_no_self_block'', Check ''blocker_uid <> blocked_uid'' [''blocker_uid'', ''blocked_uid'']),
         (None, Foreign [''blocked_uid''] ''users'' [''uid''] None),
         (None, Foreign [''blocker_uid''] ''users'' [''uid''] None),
         (None, Primary [''blocker_uid'', ''blocked_uid''])],
      Create_Index ''user_blocks'' (index ''ix_user_blocks_blocked_uid'' [''blocked_uid''])],
     rev_downgrade =
     [Drop_Index False ''ix_user_blocks_blocked_uid'',
      Drop_Table False ''user_blocks'',
      Drop_Index False ''ix_messages_created_at'',
      Drop_Index False ''ix_messages_conversation_uid'',
      Drop_Table False ''messages'',
      Drop_Index False ''ix_conversation_participants_user_uid'',
      Drop_Table False ''conversation_participants'',
      Drop_Table False ''conversations'',
      Drop_Type False ''conversation_type'']\<rparr>"

definition revision_0d6e7b5bc2a7 :: revision where
  "revision_0d6e7b5bc2a7 = \<lparr>
     rev_id = ''0d6e7b5bc2a7'',
     rev_down = Some ''58f418a45d9a'',
     rev_upgrade =
     [Add_Column ''spot_images'' (column ''deleted_at'' Timestamptz True)],
     rev_downgrade =
     [Drop_Column ''spot_images'' ''deleted_at'']\<rparr>"

section \<open>The order of the revisions\<close>

definition versions :: "revision list" where
  "versions = [revision_0d6e7b5bc2a7, revision_0dd988c6b130, revision_0efcde5399a3, revision_2cd14aeebc1d,
     revision_3eb2b585b548, revision_3faa9de7cf2a, revision_4f801d8a7469, revision_58f418a45d9a,
     revision_610d81c68705, revision_73dcae10bc10, revision_a1b2c3d4e5f6, revision_a7c3e1f9b204,
     revision_b3d8f2a4c6e1, revision_b7f3a1c9d2e4, revision_c8e2d4f6a1b3, revision_d90640348f6b,
     revision_d9f1e3a5b7c2, revision_e5c7d9a1b3f4, revision_f1a2b3c4d5e6, revision_fb8be0e57798]"

text \<open>Each revision names the one it follows.  There is one base and no branch.\<close>

fun history_from :: "nat \<Rightarrow> string option \<Rightarrow> revision list \<Rightarrow> revision list" where
  "history_from 0 cur rs = []"
| "history_from (Suc n) cur rs =
     (case filter (\<lambda>r. rev_down r = cur) rs of
        [r] \<Rightarrow> r # history_from n (Some (rev_id r)) rs
      | _ \<Rightarrow> [])"

definition history :: "revision list" where
  "history = history_from (length versions) None versions"

fun upgrade :: "revision list \<Rightarrow> catalog \<Rightarrow> catalog option" where
  "upgrade [] c = Some c"
| "upgrade (r # rs) c = Option.bind (run (rev_upgrade r) c) (upgrade rs)"

fun downgrade :: "revision list \<Rightarrow> catalog \<Rightarrow> catalog option" where
  "downgrade [] c = Some c"
| "downgrade (r # rs) c = Option.bind (downgrade rs c) (run (rev_downgrade r))"

end
