(* ===== verification/Schema.thy ===== *)
theory Schema
  imports Migrations
begin

text \<open>
  The tables the classes of \<open>vivacapi/models/*.py\<close> declare, and what the migrations make of them:
  the schema after all upgrades is the declared one, and which downgrades undo their upgrade.
\<close>

section \<open>Declared tables\<close>

text \<open>
  A \<open>mapped_column\<close> with what its flags ask for.  Its column may be null when the annotation has
  \<open>None\<close> or \<open>nullable\<close> says so.
\<close>

record mapped_column =
  mc_column :: table_column
  mc_primary :: bool
  mc_unique :: bool
  mc_index :: bool
  mc_foreign :: "(string \<times> string \<times> string option) option"

record declared_table =
  dt_name :: string
  dt_columns :: "mapped_column list"
  dt_constraints :: "(string option \<times> table_constraint) list"
  dt_indexes :: "table_index list"

definition mapped :: "table_column \<Rightarrow> mapped_column" where
  "mapped x = \<lparr>mc_column = x, mc_primary = False, mc_unique = False, mc_index = False, mc_foreign = None\<rparr>"

text \<open>
  The constraints and indexes of a table: the primary key of the columns marked so, the foreign
  keys, a unique constraint for a column that is \<open>unique\<close> without \<open>index\<close>, an index (unique if the
  column is) for one with \<open>index\<close>, and the table arguments.
\<close>

definition all_constraints :: "declared_table \<Rightarrow> (string option \<times> table_constraint) list" where
  "all_constraints t =
     (None, Primary (map (\<lambda>m. col_name (mc_column m)) (filter mc_primary (dt_columns t))))
     # concat (map (\<lambda>m. case mc_foreign m of None \<Rightarrow> []
         | Some (r, x, a) \<Rightarrow> [(None, Foreign [col_name (mc_column m)] r [x] a)]) (dt_columns t))
     @ map (\<lambda>m. (None, Unique [col_name (mc_column m)])) (filter (\<lambda>m. mc_unique m \<and> \<not> mc_index m) (dt_columns t))
     @ dt_constraints t"

definition all_indexes :: "declared_table \<Rightarrow> table_index list" where
  "all_indexes t =
     map (\<lambda>m. (if mc_unique m then unique_index else index) (''ix_'' @ dt_name t @ ''_'' @ col_name (mc_column m))
         [col_name (mc_column m)]) (filter mc_index (dt_columns t))
     @ dt_indexes t"

section \<open>The classes\<close>

definition declared_users :: declared_table where
  "declared_users = \<lparr>
     dt_name = ''users'',
     dt_columns =
     [(mapped (column ''uid'' (Varchar (Some 22)) False))\<lparr>mc_primary := True\<rparr>,
      (mapped (column ''email'' (Varchar (Some 320)) False))\<lparr>mc_unique := True, mc_index := True\<rparr>,
      (mapped (column ''google_sub'' (Varchar (Some 255)) False))\<lparr>mc_unique := True, mc_index := True\<rparr>,
      (mapped (column ''nickname'' (Varchar (Some 50)) False))\<lparr>mc_unique := True, mc_index := True\<rparr>,
      mapped (column ''name'' (Varchar (Some 100)) True),
      mapped (column ''picture'' (Varchar (Some 2048)) True),
      mapped (column ''is_active'' Sql_Boolean False),
      mapped (column_with ''is_staff'' Sql_Boolean False ''false''),
      mapped (column_with ''staff_role'' (Enum_Type ''staff_role'') False ''staff''),
      mapped (column_with ''membership_tier'' (Enum_Type ''membership_tier'') False ''free''),
      mapped (column ''identity_verified_at'' Timestamptz True),
      mapped (column ''onboarding_survey_completed_at'' Timestamptz True),
      (mapped (column ''referred_by_uid'' (Varchar (Some 22)) True))\<lparr>mc_foreign := Some (''users'', ''uid'', None)\<rparr>,
      mapped (column_with ''created_at'' Timestamptz False ''now()''),
      mapped (column_with ''updated_at'' Timestamptz False ''now()'')],
     dt_constraints = [(Some ''ck_users_uid_format'', uid_format)],
     dt_indexes = []\<rparr>"

definition declared_spots :: declared_table where
  "declared_spots = \<lparr>
     dt_name = ''spots'',
     dt_columns =
     [(mapped (column ''uid'' (Varchar (Some 22)) False))\<lparr>mc_primary := True\<rparr>,
      (mapped (column ''source'' (Varchar None) True))\<lparr>mc_index := True\<rparr>,
      mapped (column ''external_id'' (Varchar None) True),
      (mapped (column ''title'' (Varchar None) False))\<lparr>mc_index := True\<rparr>,
      mapped (column ''address'' (Varchar None) True),
      mapped (column ''address_detail'' (Varchar None) True),
      (mapped (column ''region_province'' (Varchar None) True))\<lparr>mc_index := True\<rparr>,
      (mapped (column ''region_city'' (Varchar None) True))\<lparr>mc_index := True\<rparr>,
      mapped (column ''postal_code'' (Varchar None) True),
      mapped (column ''phone'' (Varchar None) True),
      mapped (column ''description'' (Varchar None) True),
      mapped (column ''tagline'' (Varchar None) True),
      mapped ((column ''search_vector'' Tsvector True)\<lparr>col_computed := Some search_vector_expression\<rparr>),
      mapped (column ''latitude'' Float8 True),
      mapped (column ''longitude'' Float8 True),
      mapped (column ''altitude'' Float8 True),
      mapped (column ''unit_count'' Int4 True),
      mapped (column ''is_fee_required'' Sql_Boolean True),
      mapped (column ''is_pet_allowed'' Sql_Boolean True),
      mapped (column ''pet_policy'' (Varchar None) True),
      mapped (column ''has_equipment_rental'' Varchar_Array True),
      mapped (column ''themes'' Varchar_Array True),
      mapped (column ''fire_pit_type'' (Varchar None) True),
      mapped (column ''amenities'' Varchar_Array True),
      mapped (column ''nearby_facilities'' Varchar_Array True),
      mapped (column ''camp_sight_type'' (Varchar None) True),
      (mapped (column ''rating_avg'' Float8 False))\<lparr>mc_index := True\<rparr>,
      mapped (column ''review_count'' Int4 False),
      mapped (column_with ''pipeline_status'' (Varchar None) False ''RAW''),
      mapped (column ''trust_tier'' Int2 True),
      mapped (column ''last_verified_at'' Timestamptz True),
      mapped (column ''website_url'' (Varchar None) True),
      mapped (column ''booking_url'' (Varchar None) True),
      mapped (column ''features'' (Varchar None) True),
      mapped (column ''category'' Varchar_Array True),
      mapped (column ''total_area_m2'' Float8 True),
      mapped (column ''has_liability_insurance'' Sql_Boolean True),
      mapped (column_with ''created_at'' Timestamptz True ''now()''),
      mapped (column_with ''updated_at'' Timestamptz True ''now()''),
      mapped (column ''deleted_at'' Timestamptz True),
      (mapped (column ''assigned_to_uid'' (Varchar (Some 22)) True))
         \<lparr>mc_index := True, mc_foreign := Some (''users'', ''uid'', Some ''SET NULL'')\<rparr>],
     dt_constraints = [(Some ''ck_spots_uid_format'', uid_format),
       (Some ''uq_spots_source_external_id'', Unique [''source'', ''external_id'']),
       (Some ''ck_spots_pipeline_status'', Check (''pipeline_status IN ('' @ str_join '', '' (map sql_quote [''RAW'', ''ENRICHED'', ''CURATED'', ''REVIEWED'', ''PUBLISHED'', ''REJECTED'']) @ '')'') [''pipeline_status'']),
       (Some ''ck_spots_trust_tier'', Check ''trust_tier BETWEEN 1 AND 3'' [''trust_tier''])],
     dt_indexes = [(partial_index (''pipeline_status = '' @ sql_quote ''PUBLISHED'' @ '' AND deleted_at IS NULL'') [''pipeline_status'', ''deleted_at'']
          (index ''ix_spots_published_uid'' [''uid''])),
       (partial_index ''latitude IS NOT NULL AND longitude IS NOT NULL AND deleted_at IS NULL'' [''latitude'', ''longitude'', ''deleted_at'']
          (index ''ix_spots_coordinates'' [''latitude'', ''longitude'']))]\<rparr>"

definition declared_spot_images :: declared_table where
  "declared_spot_images = \<lparr>
     dt_name = ''spot_images'',
     dt_columns =
     [(mapped (column ''uid'' (Varchar (Some 22)) False))\<lparr>mc_primary := True\<rparr>,
      (mapped (column ''spot_uid'' (Varchar (Some 22)) False))
         \<lparr>mc_index := True, mc_foreign := Some (''spots'', ''uid'', None)\<rparr>,
      mapped (column ''s3_key'' (Varchar None) False),
      mapped (column ''role'' (Enum_Type ''spot_image_role'') False),
      mapped (column_with ''sort_order'' Int4 False ''0''),
      mapped (column_with ''is_public'' Sql_Boolean False ''true''),
      mapped (column ''content_type'' (Varchar None) True),
      mapped (column ''deleted_at'' Timestamptz True),
      mapped (column_with ''created_at'' Timestamptz True ''now()''),
      mapped (column_with ''updated_at'' Timestamptz True ''now()'')],
     dt_constraints = [(Some ''ck_spot_images_uid_format'', uid_format)],
     dt_indexes = []\<rparr>"

definition declared_spot_business_info :: declared_table where
  "declared_spot_business_info = \<lparr>
     dt_name = ''spot_business_info'',
     dt_columns =
     [(mapped (column ''uid'' (Varchar (Some 22)) False))\<lparr>mc_primary := True\<rparr>,
      (mapped (column ''spot_uid'' (Varchar (Some 22)) False))
         \<lparr>mc_unique := True, mc_foreign := Some (''spots'', ''uid'', Some ''CASCADE'')\<rparr>,
      mapped (column ''business_reg_no'' (Varchar None) True),
      mapped (column ''tourism_business_reg_no'' (Varchar None) True),
      mapped (column ''business_type'' (Varchar None) True),
      mapped (column ''operation_type'' (Varchar None) True),
      mapped (column ''operating_agency'' (Varchar None) True),
      (mapped (column ''operating_status'' (Varchar None) True))\<lparr>mc_index := True\<rparr>,
      mapped (column ''national_park_no'' Int4 True),
      mapped (column ''national_park_office_code'' (Varchar None) True),
      mapped (column ''national_park_serial_no'' (Varchar None) True),
      mapped (column ''national_park_category_code'' (Varchar None) True),
      mapped (column ''licensed_at'' Sql_Date True),
      mapped (column_with ''created_at'' Timestamptz True ''now()''),
      mapped (column_with ''updated_at'' Timestamptz True ''now()'')],
     dt_constraints = [(Some ''ck_spot_business_info_uid_format'', uid_format)],
     dt_indexes = []\<rparr>"

definition declared_spot_field_options :: declared_table where
  "declared_spot_field_options = \<lparr>
     dt_name = ''spot_field_options'',
     dt_columns =
     [(mapped (column ''field'' (Varchar (Some 30)) False))\<lparr>mc_primary := True\<rparr>,
      (mapped (column ''code'' (Varchar (Some 50)) False))\<lparr>mc_primary := True\<rparr>,
      mapped (column ''label_ko'' (Varchar (Some 100)) False),
      mapped (column_with ''created_at'' Timestamptz True ''now()'')],
     dt_constraints = [(Some ''ck_spot_field_options_code_format'', Check (''code ~ '' @ sql_quote ''^[A-Z][A-Z0-9_]*$'') [''code''])],
     dt_indexes = []\<rparr>"

definition declared_spot_groups :: declared_table where
  "declared_spot_groups = \<lparr>
     dt_name = ''spot_groups'',
     dt_columns =
     [(mapped (column ''uid'' (Varchar (Some 22)) False))\<lparr>mc_primary := True\<rparr>,
      mapped (column ''name'' (Varchar (Some 100)) False),
      mapped (column ''description'' (Varchar None) True),
      mapped (column_with ''visibility'' (Enum_Type ''group_visibility'') False ''private''),
      mapped (column_with ''created_at'' Timestamptz True ''now()''),
      mapped (column_with ''updated_at'' Timestamptz True ''now()'')],
     dt_constraints = [(Some ''ck_spot_groups_uid_format'', uid_format)],
     dt_indexes = []\<rparr>"

definition declared_spot_group_members :: declared_table where
  "declared_spot_group_members = \<lparr>
     dt_name = ''spot_group_members'',
     dt_columns =
     [(mapped (column ''group_uid'' (Varchar (Some 22)) False))
         \<lparr>mc_primary := True, mc_foreign := Some (''spot_groups'', ''uid'', Some ''CASCADE'')\<rparr>,
      (mapped (column ''user_uid'' (Varchar (Some 22)) False))
         \<lparr>mc_primary := True, mc_index := True, mc_foreign := Some (''users'', ''uid'', None)\<rparr>,
      mapped (column ''role'' (Enum_Type ''group_role'') False),
      (mapped (column ''invited_by_uid'' (Varchar (Some 22)) True))\<lparr>mc_foreign := Some (''users'', ''uid'', None)\<rparr>,
      mapped (column_with ''created_at'' Timestamptz True ''now()'')],
     dt_constraints = [],
     dt_indexes = []\<rparr>"

definition declared_spot_group_spots :: declared_table where
  "declared_spot_group_spots = \<lparr>
     dt_name = ''spot_group_spots'',
     dt_columns =
     [(mapped (column ''group_uid'' (Varchar (Some 22)) False))
         \<lparr>mc_primary := True, mc_foreign := Some (''spot_groups'', ''uid'', Some ''CASCADE'')\<rparr>,
      (mapped (column ''spot_uid'' (Varchar (Some 22)) False))
         \<lparr>mc_primary := True, mc_foreign := Some (''spots'', ''uid'', None)\<rparr>,
      (mapped (column ''added_by_uid'' (Varchar (Some 22)) False))\<lparr>mc_foreign := Some (''users'', ''uid'', None)\<rparr>,
      mapped (column_with ''created_at'' Timestamptz True ''now()'')],
     dt_constraints = [],
     dt_indexes = []\<rparr>"

definition declared_invites :: declared_table where
  "declared_invites = \<lparr>
     dt_name = ''invites'',
     dt_columns =
     [(mapped (column ''uid'' (Varchar (Some 22)) False))\<lparr>mc_primary := True\<rparr>,
      (mapped (column ''inviter_uid'' (Varchar (Some 22)) False))
         \<lparr>mc_index := True, mc_foreign := Some (''users'', ''uid'', None)\<rparr>,
      (mapped (column ''group_uid'' (Varchar (Some 22)) True))
         \<lparr>mc_index := True, mc_foreign := Some (''spot_groups'', ''uid'', Some ''CASCADE'')\<rparr>,
      mapped (column ''group_role'' (Enum_Type ''group_role'') True),
      mapped (column_with ''status'' (Enum_Type ''invite_status'') False ''pending''),
      (mapped (column ''accepted_by_uid'' (Varchar (Some 22)) True))\<lparr>mc_foreign := Some (''users'', ''uid'', None)\<rparr>,
      mapped (column ''accepted_at'' Timestamptz True),
      mapped (column_with ''created_at'' Timestamptz True ''now()'')],
     dt_constraints = [(Some ''ck_invites_uid_format'', uid_format)],
     dt_indexes = []\<rparr>"

definition declared_spot_reviews :: declared_table where
  "declared_spot_reviews = \<lparr>
     dt_name = ''spot_reviews'',
     dt_columns =
     [(mapped (column ''uid'' (Varchar (Some 22)) False))\<lparr>mc_primary := True\<rparr>,
      (mapped (column ''spot_uid'' (Varchar (Some 22)) False))
         \<lparr>mc_index := True, mc_foreign := Some (''spots'', ''uid'', None)\<rparr>,
      (mapped (column ''user_id'' (Varchar (Some 22)) False))
         \<lparr>mc_index := True, mc_foreign := Some (''users'', ''uid'', None)\<rparr>,
      mapped (column ''rating'' Int2 False),
      mapped (column ''content'' (Varchar None) True),
      mapped (column_with ''created_at'' Timestamptz True ''now()''),
      mapped (column_with ''updated_at'' Timestamptz True ''now()''),
      mapped (column ''deleted_at'' Timestamptz True)],
     dt_constraints = [(Some ''ck_spot_reviews_uid_format'', uid_format),
       (Some ''check_review_rating_range'', Check ''rating >= 0 AND rating <= 10'' [''rating''])],
     dt_indexes = [(partial_index ''deleted_at IS NULL'' [''deleted_at'']
          (unique_index ''uq_spot_user_review_active'' [''spot_uid'', ''user_id'']))]\<rparr>"

definition declared_spot_review_reports :: declared_table where
  "declared_spot_review_reports = \<lparr>
     dt_name = ''spot_review_reports'',
     dt_columns =
     [(mapped (column ''uid'' (Varchar (Some 22)) False))\<lparr>mc_primary := True\<rparr>,
      (mapped (column ''review_uid'' (Varchar (Some 22)) False))
         \<lparr>mc_index := True, mc_foreign := Some (''spot_reviews'', ''uid'', Some ''CASCADE'')\<rparr>,
      (mapped (column ''reporter_user_uid'' (Varchar (Some 22)) False))
         \<lparr>mc_index := True, mc_foreign := Some (''users'', ''uid'', None)\<rparr>,
      mapped (column ''reason'' (Varchar None) False),
      mapped (column_with ''created_at'' Timestamptz True ''now()'')],
     dt_constraints = [(Some ''ck_spot_review_reports_uid_format'', uid_format),
       (Some ''uq_review_reporter'', Unique [''review_uid'', ''reporter_user_uid''])],
     dt_indexes = []\<rparr>"

definition declared_conversations :: declared_table where
  "declared_conversations = \<lparr>
     dt_name = ''conversations'',
     dt_columns =
     [(mapped (column ''uid'' (Varchar (Some 22)) False))\<lparr>mc_primary := True\<rparr>,
      mapped (column ''type'' (Enum_Type ''conversation_type'') False),
      mapped (column ''name'' (Varchar (Some 100)) True),
      mapped (column_with ''created_at'' Timestamptz False ''now()''),
      mapped (column_with ''updated_at'' Timestamptz False ''now()'')],
     dt_constraints = [(Some ''ck_conversations_uid_format'', uid_format)],
     dt_indexes = []\<rparr>"

definition declared_conversation_participants :: declared_table where
  "declared_conversation_participants = \<lparr>
     dt_name = ''conversation_participants'',
     dt_columns =
     [(mapped (column ''conversation_uid'' (Varchar (Some 22)) False))
         \<lparr>mc_primary := True, mc_foreign := Some (''conversations'', ''uid'', Some ''CASCADE'')\<rparr>,
      (mapped (column ''user_uid'' (Varchar (Some 22)) False))
         \<lparr>mc_primary := True, mc_index := True, mc_foreign := Some (''users'', ''uid'', None)\<rparr>,
      mapped (column_with ''joined_at'' Timestamptz False ''now()''),
      mapped (column ''last_read_at'' Timestamptz True),
      mapped (column ''left_at'' Timestamptz True)],
     dt_constraints = [],
     dt_indexes = []\<rparr>"

definition declared_messages :: declared_table where
  "declared_messages = \<lparr>
     dt_name = ''messages'',
     dt_columns =
     [(mapped (column ''uid'' (Varchar (Some 22)) False))\<lparr>mc_primary := True\<rparr>,
      (mapped (column ''conversation_uid'' (Varchar (Some 22)) False))
         \<lparr>mc_index := True, mc_foreign := Some (''conversations'', ''uid'', Some ''CASCADE'')\<rparr>,
      (mapped (column ''sender_uid'' (Varchar (Some 22)) False))\<lparr>mc_foreign := Some (''users'', ''uid'', None)\<rparr>,
      mapped (column ''content'' (Varchar None) False),
      mapped (column ''deleted_at'' Timestamptz True),
      (mapped (column_with ''created_at'' Timestamptz False ''now()''))\<lparr>mc_index := True\<rparr>],
     dt_constraints = [(Some ''ck_messages_uid_format'', uid_format)],
     dt_indexes = []\<rparr>"

definition declared_user_blocks :: declared_table where
  "declared_user_blocks = \<lparr>
     dt_name = ''user_blocks'',
     dt_columns =
     [(mapped (column ''blocker_uid'' (Varchar (Some 22)) False))
         \<lparr>mc_primary := True, mc_foreign := Some (''users'', ''uid'', None)\<rparr>,
      (mapped (column ''blocked_uid'' (Varchar (Some 22)) False))
         \<lparr>mc_primary := True, mc_index := True, mc_foreign := Some (''users'', ''uid'', None)\<rparr>,
      mapped (column_with ''created_at'' Timestamptz False ''now()'')],
     dt_constraints = [(Some ''ck_user_blocks_no_self_block'', Check ''blocker_uid <> blocked_uid'' [''blocker_uid'', ''blocked_uid''])],
     dt_indexes = []\<rparr>"

definition declared_jobs :: declared_table where
  "declared_jobs = \<lparr>
     dt_name = ''jobs'',
     dt_columns =
     [(mapped (column ''uid'' (Varchar (Some 22)) False))\<lparr>mc_primary := True\<rparr>,
      mapped (column ''type'' (Enum_Type ''job_type'') False),
      (mapped (column_with ''status'' (Enum_Type ''job_status'') False ''pending''))\<lparr>mc_index := True\<rparr>,
      mapped (column ''payload'' Jsonb False),
      mapped (column ''result'' Jsonb True),
      mapped (column ''error'' Sql_Text True),
      (mapped (column ''created_by'' (Varchar (Some 22)) False))\<lparr>mc_foreign := Some (''users'', ''uid'', None)\<rparr>,
      (mapped (column_with ''created_at'' Timestamptz False ''now()''))\<lparr>mc_index := True\<rparr>,
      mapped (column ''started_at'' Timestamptz True),
      mapped (column ''finished_at'' Timestamptz True)],
     dt_constraints = [(Some ''ck_jobs_uid_format'', uid_format)],
     dt_indexes = []\<rparr>"

definition declared_audit_log :: declared_table where
  "declared_audit_log = \<lparr>
     dt_name = ''audit_log'',
     dt_columns =
     [(mapped (column ''id'' Int8 False))\<lparr>mc_primary := True\<rparr>,
      mapped (column ''table_name'' (Varchar None) False),
      mapped (column ''row_uid'' (Varchar None) False),
      mapped (column ''action'' (Varchar None) False),
      mapped (column ''old_data'' Jsonb True),
      mapped (column ''new_data'' Jsonb True),
      mapped (column ''changed_by'' (Varchar None) True),
      mapped (column ''changed_at'' Timestamptz False)],
     dt_constraints = [],
     dt_indexes = []\<rparr>"

definition metadata :: "declared_table list" where
  "metadata =
     [declared_users,
      declared_spots,
      declared_spot_images,
      declared_spot_business_info,
      declared_spot_field_options,
      declared_spot_groups,
      declared_spot_group_members,
      declared_spot_group_spots,
      declared_invites,
      declared_spot_reviews,
      declared_spot_review_reports,
      declared_conversations,
      declared_conversation_participants,
      declared_messages,
      declared_user_blocks,
      declared_jobs,
      declared_audit_log]"

definition declared_types :: "(string \<times> string list) list" where
  "declared_types =
     [(''staff_role'', [''staff'', ''manager'', ''superuser'']),
      (''membership_tier'', [''free'', ''member'']),
      (''spot_image_role'', [''thumbnail'', ''detail'']),
      (''group_visibility'', [''private'', ''invite_only'', ''public'']),
      (''group_role'', [''viewer'', ''contributor'', ''editor'', ''owner'']),
      (''invite_status'', [''pending'', ''accepted'', ''revoked'']),
      (''conversation_type'', [''direct'', ''group'']),
      (''job_type'', [''spots_bulk_upsert'', ''spot_business_info_bulk_upsert'', ''db_dump'']),
      (''job_status'', [''pending'', ''running'', ''succeeded'', ''failed''])]"
section \<open>Comparing schemas\<close>

text \<open>Lists with the same elements, compared by a key that is unique in each.\<close>

definition same_by :: "('a \<Rightarrow> string) \<Rightarrow> 'a list \<Rightarrow> 'a list \<Rightarrow> bool" where
  "same_by key xs ys \<longleftrightarrow>
     (if xs = ys then True
      else length xs = length ys \<and> list_all (\<lambda>x. find (\<lambda>y. key y = key x) ys = Some x) xs)"

definition same_table :: "table_def \<Rightarrow> table_def \<Rightarrow> bool" where
  "same_table d d' \<longleftrightarrow> same_by col_name (tb_columns d) (tb_columns d')
     \<and> same_by fst (tb_constraints d) (tb_constraints d') \<and> same_by ix_name (tb_indexes d) (tb_indexes d')"

definition same_catalog :: "catalog \<Rightarrow> catalog \<Rightarrow> bool" where
  "same_catalog c c' \<longleftrightarrow> c = c' \<or>
     length (ct_tables c) = length (ct_tables c')
     \<and> list_all (\<lambda>(t, d). case map_of (ct_tables c') t of None \<Rightarrow> False | Some d' \<Rightarrow> same_table d d') (ct_tables c)
     \<and> same_by fst (ct_types c) (ct_types c') \<and> same_by id (ct_functions c) (ct_functions c')
     \<and> same_by fst (ct_triggers c) (ct_triggers c') \<and> same_by id (ct_extensions c) (ct_extensions c')"

text \<open>A declared constraint without a name has whatever name the server gave it.\<close>

definition has_constraint :: "table_def \<Rightarrow> string option \<times> table_constraint \<Rightarrow> bool" where
  "has_constraint d nk \<longleftrightarrow> list_ex (\<lambda>(n, k). k = snd nk \<and> (case fst nk of None \<Rightarrow> True | Some m \<Rightarrow> n = m)) (tb_constraints d)"

definition built_as_declared :: "catalog \<Rightarrow> declared_table \<Rightarrow> bool" where
  "built_as_declared c t \<longleftrightarrow>
     (case map_of (ct_tables c) (dt_name t) of None \<Rightarrow> False | Some d \<Rightarrow>
        same_by col_name (map mc_column (dt_columns t)) (tb_columns d)
      \<and> length (all_constraints t) = length (tb_constraints d) \<and> list_all (has_constraint d) (all_constraints t)
      \<and> list_all (\<lambda>i. find (\<lambda>j. ix_name j = ix_name i) (tb_indexes d) = Some i) (all_indexes t))"

text \<open>The indexes of a table that no class declares.\<close>

definition undeclared_indexes :: "catalog \<Rightarrow> declared_table \<Rightarrow> string list" where
  "undeclared_indexes c t =
     (case map_of (ct_tables c) (dt_name t) of None \<Rightarrow> [] | Some d \<Rightarrow>
        filter (\<lambda>n. n \<notin> set (map ix_name (all_indexes t))) (map ix_name (tb_indexes d)))"

section \<open>Upgrades and downgrades\<close>

text \<open>Whether the downgrade of a revision, run right after its upgrade from \<open>c\<close> to \<open>d\<close>, restores \<open>c\<close>.\<close>

definition restores :: "revision \<Rightarrow> catalog \<Rightarrow> catalog \<Rightarrow> bool" where
  "restores r c d = (case run (rev_downgrade r) d of None \<Rightarrow> False | Some c' \<Rightarrow> same_catalog c' c)"

fun irreversible :: "revision list \<Rightarrow> catalog \<Rightarrow> string list option" where
  "irreversible [] c = Some []"
| "irreversible (r # rs) c = Option.bind (run (rev_upgrade r) c) (\<lambda>d.
     map_option (\<lambda>ids. if restores r c d then ids else rev_id r # ids) (irreversible rs d))"

section \<open>Running the history\<close>

text \<open>
  \<open>Q\<close> holds of the catalog the revisions lead to, and each of them is undone by its downgrade, up
  to \<open>same\<close>, exactly when its flag says so.
\<close>

fun survey ::
    "(catalog \<Rightarrow> catalog \<Rightarrow> bool) \<Rightarrow> (revision \<times> bool) list \<Rightarrow> (catalog \<Rightarrow> bool) \<Rightarrow> catalog \<Rightarrow> bool" where
  "survey same [] Q c = Q c"
| "survey same ((r, b) # rs) Q c =
     (case run (rev_upgrade r) c of None \<Rightarrow> False | Some d \<Rightarrow>
        (case run (rev_downgrade r) d of None \<Rightarrow> \<not> b | Some c' \<Rightarrow> same c' c = b) \<and> survey same rs Q d)"

lemma survey_append: "survey same (rs @ ss) Q = survey same rs (survey same ss Q)"
proof
  show "survey same (rs @ ss) Q c = survey same rs (survey same ss Q) c" for c
  proof (induction rs arbitrary: c)
    case (Cons x rs)
    then show ?case by (cases x; cases "run (rev_upgrade (fst x)) c") simp_all
  qed simp
qed

lemma survey_run:
  "survey same_catalog rs Q c \<Longrightarrow> (\<exists>d. upgrade (map fst rs) c = Some d \<and> Q d)
     \<and> irreversible (map fst rs) c = Some (map (\<lambda>(r, b). rev_id r) (filter (\<lambda>(r, b). \<not> b) rs))"
proof (induction same_catalog rs Q c rule: survey.induct)
  case (2 r b rs Q c)
  then show ?case by (auto simp: restores_def split: option.splits)
qed simp

lemma rev_links:
  "rev_id revision_0dd988c6b130 = ''0dd988c6b130''" "rev_down revision_0dd988c6b130 = None"
  "rev_id revision_b7f3a1c9d2e4 = ''b7f3a1c9d2e4''" "rev_down revision_b7f3a1c9d2e4 = Some ''0dd988c6b130''"
  "rev_id revision_a1b2c3d4e5f6 = ''a1b2c3d4e5f6''" "rev_down revision_a1b2c3d4e5f6 = Some ''b7f3a1c9d2e4''"
  "rev_id revision_c8e2d4f6a1b3 = ''c8e2d4f6a1b3''" "rev_down revision_c8e2d4f6a1b3 = Some ''a1b2c3d4e5f6''"
  "rev_id revision_d9f1e3a5b7c2 = ''d9f1e3a5b7c2''" "rev_down revision_d9f1e3a5b7c2 = Some ''c8e2d4f6a1b3''"
  "rev_id revision_0efcde5399a3 = ''0efcde5399a3''" "rev_down revision_0efcde5399a3 = Some ''d9f1e3a5b7c2''"
  "rev_id revision_f1a2b3c4d5e6 = ''f1a2b3c4d5e6''" "rev_down revision_f1a2b3c4d5e6 = Some ''0efcde5399a3''"
  "rev_id revision_e5c7d9a1b3f4 = ''e5c7d9a1b3f4''" "rev_down revision_e5c7d9a1b3f4 = Some ''f1a2b3c4d5e6''"
  "rev_id revision_b3d8f2a4c6e1 = ''b3d8f2a4c6e1''" "rev_down revision_b3d8f2a4c6e1 = Some ''e5c7d9a1b3f4''"
  "rev_id revision_2cd14aeebc1d = ''2cd14aeebc1d''" "rev_down revision_2cd14aeebc1d = Some ''b3d8f2a4c6e1''"
  "rev_id revision_610d81c68705 = ''610d81c68705''" "rev_down revision_610d81c68705 = Some ''2cd14aeebc1d''"
  "rev_id revision_d90640348f6b = ''d90640348f6b''" "rev_down revision_d90640348f6b = Some ''610d81c68705''"
  "rev_id revision_73dcae10bc10 = ''73dcae10bc10''" "rev_down revision_73dcae10bc10 = Some ''d90640348f6b''"
  "rev_id revision_3eb2b585b548 = ''3eb2b585b548''" "rev_down revision_3eb2b585b548 = Some ''73dcae10bc10''"
  "rev_id revision_fb8be0e57798 = ''fb8be0e57798''" "rev_down revision_fb8be0e57798 = Some ''3eb2b585b548''"
  "rev_id revision_3faa9de7cf2a = ''3faa9de7cf2a''" "rev_down revision_3faa9de7cf2a = Some ''fb8be0e57798''"
  "rev_id revision_4f801d8a7469 = ''4f801d8a7469''" "rev_down revision_4f801d8a7469 = Some ''3faa9de7cf2a''"
  "rev_id revision_a7c3e1f9b204 = ''a7c3e1f9b204''" "rev_down revision_a7c3e1f9b204 = Some ''4f801d8a7469''"
  "rev_id revision_58f418a45d9a = ''58f418a45d9a''" "rev_down revision_58f418a45d9a = Some ''a7c3e1f9b204''"
  "rev_id revision_0d6e7b5bc2a7 = ''0d6e7b5bc2a7''" "rev_down revision_0d6e7b5bc2a7 = Some ''58f418a45d9a''"
  by (simp_all only: revision_0dd988c6b130_def revision_b7f3a1c9d2e4_def revision_a1b2c3d4e5f6_def revision_c8e2d4f6a1b3_def
      revision_d9f1e3a5b7c2_def revision_0efcde5399a3_def revision_f1a2b3c4d5e6_def revision_e5c7d9a1b3f4_def
      revision_b3d8f2a4c6e1_def revision_2cd14aeebc1d_def revision_610d81c68705_def revision_d90640348f6b_def
      revision_73dcae10bc10_def revision_3eb2b585b548_def revision_fb8be0e57798_def revision_3faa9de7cf2a_def
      revision_4f801d8a7469_def revision_a7c3e1f9b204_def revision_58f418a45d9a_def revision_0d6e7b5bc2a7_def revision.simps)

text \<open>The files form one line from the base, without a branch, and every file is in it.\<close>

lemma history_eq:
  "history = [revision_0dd988c6b130, revision_b7f3a1c9d2e4, revision_a1b2c3d4e5f6, revision_c8e2d4f6a1b3,
     revision_d9f1e3a5b7c2, revision_0efcde5399a3, revision_f1a2b3c4d5e6, revision_e5c7d9a1b3f4,
     revision_b3d8f2a4c6e1, revision_2cd14aeebc1d, revision_610d81c68705, revision_d90640348f6b,
     revision_73dcae10bc10, revision_3eb2b585b548, revision_fb8be0e57798, revision_3faa9de7cf2a,
     revision_4f801d8a7469, revision_a7c3e1f9b204, revision_58f418a45d9a, revision_0d6e7b5bc2a7]"
  by (simp add: history_def versions_def rev_links eval_nat_numeral)

definition surveyed_1 :: "(revision \<times> bool) list" where
  "surveyed_1 = [(revision_0dd988c6b130, False)]"

definition surveyed_2 :: "(revision \<times> bool) list" where
  "surveyed_2 = [(revision_b7f3a1c9d2e4, True), (revision_a1b2c3d4e5f6, True),
     (revision_c8e2d4f6a1b3, True)]"

definition surveyed_3 :: "(revision \<times> bool) list" where
  "surveyed_3 = [(revision_d9f1e3a5b7c2, True), (revision_0efcde5399a3, True)]"

definition surveyed_4 :: "(revision \<times> bool) list" where
  "surveyed_4 = [(revision_f1a2b3c4d5e6, True), (revision_e5c7d9a1b3f4, True),
     (revision_b3d8f2a4c6e1, True), (revision_2cd14aeebc1d, True)]"

definition surveyed_5 :: "(revision \<times> bool) list" where
  "surveyed_5 = [(revision_610d81c68705, True), (revision_d90640348f6b, True)]"

definition surveyed_6 :: "(revision \<times> bool) list" where
  "surveyed_6 = [(revision_73dcae10bc10, True)]"

definition surveyed_7 :: "(revision \<times> bool) list" where
  "surveyed_7 = [(revision_3eb2b585b548, True)]"

definition surveyed_8 :: "(revision \<times> bool) list" where
  "surveyed_8 = [(revision_fb8be0e57798, True)]"

definition surveyed_9 :: "(revision \<times> bool) list" where
  "surveyed_9 = [(revision_3faa9de7cf2a, True), (revision_4f801d8a7469, False),
     (revision_a7c3e1f9b204, True)]"

definition surveyed_10 :: "(revision \<times> bool) list" where
  "surveyed_10 = [(revision_58f418a45d9a, True)]"

definition surveyed_11 :: "(revision \<times> bool) list" where
  "surveyed_11 = [(revision_0d6e7b5bc2a7, True)]"

lemmas surveyed_defs =
  surveyed_1_def surveyed_2_def surveyed_3_def surveyed_4_def surveyed_5_def surveyed_6_def
  surveyed_7_def surveyed_8_def surveyed_9_def surveyed_10_def surveyed_11_def

definition built :: "catalog \<Rightarrow> bool" where
  "built c \<longleftrightarrow>
     map dt_name (filter (\<lambda>t. \<not> built_as_declared c t) metadata) = [''audit_log'']
   \<and> length (ct_tables c) = length metadata
   \<and> concat (map (undeclared_indexes c) metadata)
       = [''ix_users_email_lower'', ''ix_spots_search_vector'', ''ix_spots_title_trgm'', ''ix_audit_log_row'']
   \<and> same_by fst (ct_types c) declared_types
   \<and> map_option (\<lambda>d. map (\<lambda>x. (col_name x, col_nullable x)) (tb_columns d)) (map_of (ct_tables c) ''audit_log'')
       = Some (map (\<lambda>m. (col_name (mc_column m), col_nullable (mc_column m))) (dt_columns declared_audit_log))"

text \<open>
  The revisions run one group after the other, the rest of the history being a variable.  The
  catalogs to compare are mostly the same.
\<close>

lemma same_catalog_refl: "same_catalog c c"
  by (simp add: same_catalog_def)

lemma same_catalogI:
  assumes "length (ct_tables c) = length (ct_tables c')
     \<and> list_all (\<lambda>(t, d). case map_of (ct_tables c') t of None \<Rightarrow> False | Some d' \<Rightarrow> same_table d d') (ct_tables c)
     \<and> same_by fst (ct_types c) (ct_types c') \<and> same_by id (ct_functions c) (ct_functions c')
     \<and> same_by fst (ct_triggers c) (ct_triggers c') \<and> same_by id (ct_extensions c) (ct_extensions c')"
  shows "same_catalog c c'"
  using assms unfolding same_catalog_def by (rule disjI2)

lemma survey_history:
  "survey same_catalog
    (surveyed_1 @ surveyed_2 @ surveyed_3 @ surveyed_4 @ surveyed_5 @ surveyed_6
     @ surveyed_7 @ surveyed_8 @ surveyed_9 @ surveyed_10 @ surveyed_11)
     built empty_catalog"
proof -
  define same where "same = same_catalog"
  define Q11 where "Q11 = built"
  define Q10 where "Q10 = survey same surveyed_11 Q11"
  define Q9 where "Q9 = survey same surveyed_10 Q10"
  define Q8 where "Q8 = survey same surveyed_9 Q9"
  define Q7 where "Q7 = survey same surveyed_8 Q8"
  define Q6 where "Q6 = survey same surveyed_7 Q7"
  define Q5 where "Q5 = survey same surveyed_6 Q6"
  define Q4 where "Q4 = survey same surveyed_5 Q5"
  define Q3 where "Q3 = survey same surveyed_4 Q4"
  define Q2 where "Q2 = survey same surveyed_3 Q3"
  define Q1 where "Q1 = survey same surveyed_2 Q2"
  have "survey same surveyed_1 Q1 empty_catalog"
    apply (code_simp, intro conjI; (unfold same_def, (rule same_catalog_refl | (rule same_catalogI, code_simp) | code_simp))?)
    unfolding Q1_def apply (code_simp, intro conjI; (unfold same_def, (rule same_catalog_refl | (rule same_catalogI, code_simp) | code_simp))?)
    unfolding Q2_def apply (code_simp, intro conjI; (unfold same_def, (rule same_catalog_refl | (rule same_catalogI, code_simp) | code_simp))?)
    unfolding Q3_def apply (code_simp, intro conjI; (unfold same_def, (rule same_catalog_refl | (rule same_catalogI, code_simp) | code_simp))?)
    unfolding Q4_def apply (code_simp, intro conjI; (unfold same_def, (rule same_catalog_refl | (rule same_catalogI, code_simp) | code_simp))?)
    unfolding Q5_def apply (code_simp, intro conjI; (unfold same_def, (rule same_catalog_refl | (rule same_catalogI, code_simp) | code_simp))?)
    unfolding Q6_def apply (code_simp, intro conjI; (unfold same_def, (rule same_catalog_refl | (rule same_catalogI, code_simp) | code_simp))?)
    unfolding Q7_def apply (code_simp, intro conjI; (unfold same_def, (rule same_catalog_refl | (rule same_catalogI, code_simp) | code_simp))?)
    unfolding Q8_def apply (code_simp, intro conjI; (unfold same_def, (rule same_catalog_refl | (rule same_catalogI, code_simp) | code_simp))?)
    unfolding Q9_def apply (code_simp, intro conjI; (unfold same_def, (rule same_catalog_refl | (rule same_catalogI, code_simp) | code_simp))?)
    unfolding Q10_def apply (code_simp, intro conjI; (unfold same_def, (rule same_catalog_refl | (rule same_catalogI, code_simp) | code_simp))?)
    unfolding Q11_def apply code_simp
    done
  then show ?thesis
    unfolding survey_append Q1_def Q2_def Q3_def Q4_def Q5_def Q6_def Q7_def Q8_def Q9_def Q10_def Q11_def same_def .
qed

lemma history_surveyed:
  "history = map fst
    (surveyed_1 @ surveyed_2 @ surveyed_3 @ surveyed_4 @ surveyed_5 @ surveyed_6
     @ surveyed_7 @ surveyed_8 @ surveyed_9 @ surveyed_10 @ surveyed_11)"
  by (simp add: history_eq surveyed_defs)

lemmas history_run = survey_run [OF survey_history, folded history_surveyed]

text \<open>
  C30: The migrations build the tables the code declares.  Run from an empty database, in the one
  order their links allow, all upgrades succeed; every table but \<open>audit_log\<close> then has exactly the
  columns, constraints and at least the indexes its class declares, \<open>audit_log\<close> has columns of the
  declared names and nullability, there is no further table, and the enum types are those of the
  classes.  The indexes no class declares are the four named.
\<close>

theorem migrations_build_the_models:
  "\<exists>c. upgrade history empty_catalog = Some c
     \<and> map dt_name (filter (\<lambda>t. \<not> built_as_declared c t) metadata) = [''audit_log'']
     \<and> length (ct_tables c) = length metadata
     \<and> concat (map (undeclared_indexes c) metadata)
         = [''ix_users_email_lower'', ''ix_spots_search_vector'', ''ix_spots_title_trgm'', ''ix_audit_log_row'']
     \<and> same_by fst (ct_types c) declared_types
     \<and> map_option (\<lambda>d. map (\<lambda>x. (col_name x, col_nullable x)) (tb_columns d)) (map_of (ct_tables c) ''audit_log'')
         = Some (map (\<lambda>m. (col_name (mc_column m), col_nullable (mc_column m))) (dt_columns declared_audit_log))"
  using history_run unfolding built_def by blast

text \<open>
  Every migration can be undone but two.  Run right after its upgrade, the downgrade of each
  revision succeeds and restores the schema, except for the first one, which leaves its enum types
  behind, and for the one that adds a value to \<open>job_type\<close>, whose downgrade does nothing.
\<close>

theorem downgrades_restore:
  "irreversible history empty_catalog = Some [''0dd988c6b130'', ''4f801d8a7469'']"
  using history_run by (simp add: surveyed_defs rev_links)

text \<open>
  The keys of the tables, which the statements of the other theories enforce on an insert: the
  primary keys, the unique columns and the unique indexes.
\<close>

definition unique_keys :: "declared_table \<Rightarrow> string list list" where
  "unique_keys t =
     concat (map (\<lambda>(_, k). if has_index k then [constraint_columns k] else []) (all_constraints t))
     @ map (\<lambda>i. map fst (ix_keys i)) (filter ix_unique (all_indexes t))"

lemma keys_of_tables:
  "map (\<lambda>t. (dt_name t, unique_keys t)) metadata =
     [(''users'', [[''uid''], [''email''], [''google_sub''], [''nickname'']]),
      (''spots'', [[''uid''], [''source'', ''external_id'']]),
      (''spot_images'', [[''uid'']]),
      (''spot_business_info'', [[''uid''], [''spot_uid'']]),
      (''spot_field_options'', [[''field'', ''code'']]),
      (''spot_groups'', [[''uid'']]),
      (''spot_group_members'', [[''group_uid'', ''user_uid'']]),
      (''spot_group_spots'', [[''group_uid'', ''spot_uid'']]),
      (''invites'', [[''uid'']]),
      (''spot_reviews'', [[''uid''], [''spot_uid'', ''user_id'']]),
      (''spot_review_reports'', [[''uid''], [''review_uid'', ''reporter_user_uid'']]),
      (''conversations'', [[''uid'']]),
      (''conversation_participants'', [[''conversation_uid'', ''user_uid'']]),
      (''messages'', [[''uid'']]),
      (''user_blocks'', [[''blocker_uid'', ''blocked_uid'']]),
      (''jobs'', [[''uid'']]),
      (''audit_log'', [[''id'']])]"
  by code_simp

text \<open>So the first revision cannot be upgraded again after its own downgrade.\<close>

lemma base_not_repeatable:
  "(case run (rev_upgrade revision_0dd988c6b130) empty_catalog of None \<Rightarrow> False | Some c \<Rightarrow>
     (case run (rev_downgrade revision_0dd988c6b130) c of None \<Rightarrow> False | Some c' \<Rightarrow>
        run (rev_upgrade revision_0dd988c6b130) c' = None))"
  by code_simp

end
