(* ===== verification/Service.thy ===== *)
theory Service
  imports Frames Schema
begin

text \<open>
  The whole program as one machine: every request, the worker, the start of the process and the
  scripts, in any order, from the empty database.  The constraints the classes of \<open>models/*.py\<close>
  declare hold in every state it reaches.
\<close>

section \<open>State\<close>

record ('r, 'b) service =
  sv_plant :: "('r, 'b) plant"
  sv_hub :: "uid \<rightharpoonup> connection list"
  sv_wire :: "(connection \<times> message_out) list"
  sv_busy :: "uid list"

abbreviation world_of :: "('r, 'b) service \<Rightarrow> 'r world" where
  "world_of s \<equiv> pt_world (sv_plant s)"

definition with_world :: "'r world \<Rightarrow> ('r, 'b) service \<Rightarrow> ('r, 'b) service" where
  "with_world w s = s\<lparr>sv_plant := (sv_plant s)\<lparr>pt_world := w\<rparr>\<rparr>"

definition live_of :: "('r, 'b) service \<Rightarrow> 'r live" where
  "live_of s = \<lparr>db = world_of s, hub = sv_hub s, wire = sv_wire s\<rparr>"

definition with_live :: "'r live \<Rightarrow> ('r, 'b) service \<Rightarrow> ('r, 'b) service" where
  "with_live l s = (with_world (db l) s)\<lparr>sv_hub := hub l, sv_wire := wire l\<rparr>"

definition service_start :: "'r \<Rightarrow> 'b \<Rightarrow> ('r, 'b) service" where
  "service_start r b =
     \<lparr>sv_plant = \<lparr>pt_world = empty_world r, pt_bucket = b, pt_jobs = []\<rparr>, sv_hub = Map.empty, sv_wire = [], sv_busy = []\<rparr>"

section \<open>Steps\<close>

text \<open>
  \<open>env\<close> is what the process was started with: its settings, the Redis and S3 clients and the codecs.
  Each request loads its caller from the token it came with; \<open>signed_in\<close> and \<open>visiting\<close> are the two
  dependencies.  Between the lookup of an account and the insert of a new one another login may
  commit its own (\<open>rival\<close>).  The worker claims a job in one transaction and carries it out in
  another, with requests in between (\<open>sv_busy\<close>: the jobs it has claimed); the process may stop and start again at any time, and entries
  of Redis may vanish.
\<close>

abbreviation signed_in :: "'t jwt_lib \<Rightarrow> ('r, 'b) explore_env \<Rightarrow> instant \<Rightarrow> 't option \<Rightarrow> ('r, 'b) service \<Rightarrow> user res" where
  "signed_in J env now token s \<equiv> get_current_user J (ee_settings env) now token (world_of s)"

abbreviation visiting :: "'t jwt_lib \<Rightarrow> ('r, 'b) explore_env \<Rightarrow> instant \<Rightarrow> 't option \<Rightarrow> ('r, 'b) service \<Rightarrow> user option res" where
  "visiting J env now token s \<equiv> get_current_user_optional J (ee_settings env) now token (world_of s)"

inductive service_step :: "'t jwt_lib \<Rightarrow> ('r, 'b) explore_env \<Rightarrow> ('r, 'b) service \<Rightarrow> ('r, 'b) service \<Rightarrow> bool"
  for J env
where
  login: "race = (\<lambda>w. w) \<or> race = (\<lambda>w. snd (create_user rival draws' now' email sub name picture w)) \<Longrightarrow>
     service_step J env s (with_world (snd (google_login (ee_client env) google J (ee_settings env) fresh draws now race
       (visiting J env t token s) host id_token invite_uid (world_of s))) s)"
| groups: "service_step J env s
     (with_world (run_group_request (ee_s3 env) (ee_settings env) now (signed_in J env t token s) group_request (world_of s)) s)"
| console_groups: "service_step J env s
     (with_world (run_group_request_admin (ee_s3 env) (ee_settings env) now (signed_in J env t token s) group_request (world_of s)) s)"
| invite: "service_step J env s
     (with_world (snd (create_invite_endpoint (ee_client env) fresh now (visiting J env t token s) host k role (world_of s))) s)"
| accept: "service_step J env s
     (with_world (snd (accept_invite_endpoint now (signed_in J env t token s) uid (world_of s))) s)"
| reviews: "service_step J env s
     (with_world (run_review_request (ee_client env) (ee_settings env) now (visiting J env t token s) host review_request (world_of s)) s)"
| chat: "service_step J env s
     (with_live (run_chat_request alive (ee_client env) now (visiting J env t token s) host chat_request (live_of s)) s)"
| socket: "service_step J env s
     (with_live (snd (ws_conversations J (ee_settings env) now token' websocket (live_of s))) s)"
| list_spots: "service_step J env s (with_world
     (snd (list_spots_endpoint env (visiting J env t token s) host q category region_province bbox cursor limit (world_of s))) s)"
| map_spots: "service_step J env s (with_world
     (snd (list_spots_for_map env (visiting J env t token s) host q category region_province bbox limit (world_of s))) s)"
| one_spot: "service_step J env s (with_world (snd (get_spot env uid (world_of s))) s)"
| limited: "service_step J env s
     (with_world (snd (rate_limited (ee_client env) scope n secs (visiting J env t token s) host (world_of s))) s)"
| console_spots: "service_step J env s
     (with_world (run_spot_request (ee_client env) (ee_settings env) now locked (signed_in J env t token s) spot_request (world_of s)) s)"
| image_added: "as_staff (signed_in J env t token s) = Inr staff \<Longrightarrow>
     register_image (ee_client env) (ee_s3 env) (ee_settings env) fresh now uid p (world_of s, pt_bucket (sv_plant s)) = (answer, w, b) \<Longrightarrow>
     service_step J env s (s\<lparr>sv_plant := (sv_plant s)\<lparr>pt_world := w, pt_bucket := b\<rparr>\<rparr>)"
| image_changed: "as_staff (signed_in J env t token s) = Inr staff \<Longrightarrow> service_step J env s
     (with_world (snd (update_image_endpoint (ee_client env) (ee_s3 env) (ee_settings env) now uid image_uid image_data (world_of s))) s)"
| image_deleted: "as_staff (signed_in J env t token s) = Inr staff \<Longrightarrow> service_step J env s
     (with_world (snd (delete_image_endpoint (ee_client env) now uid image_uid (world_of s))) s)"
| option_added: "service_step J env s
     (with_world (snd (create_spot_option now (signed_in J env t token s) field code label_ko (world_of s))) s)"
| option_deleted: "service_step J env s
     (with_world (snd (delete_spot_option now (signed_in J env t token s) field code (world_of s))) s)"
| info_changed: "service_step J env s
     (with_world (snd (update_business_info_endpoint now (signed_in J env t token s) uid info_data (world_of s))) s)"
| user_page: "admin_authenticate (world_of s) session = (Inr True, session') \<Longrightarrow>
     service_step J env s (with_world (user_admin_update now uid form (world_of s)) s)"
| queue_dump: "service_step J env s
     (s\<lparr>sv_plant := snd (enqueue_db_dump fresh now (signed_in J env t token s) (sv_plant s))\<rparr>)"
| queue_spots: "service_step J env s (s\<lparr>sv_plant :=
     snd (enqueue_spots_bulk_upsert parse_spots fresh now content_length stream (signed_in J env t token s) (sv_plant s))\<rparr>)"
| queue_infos: "service_step J env s (s\<lparr>sv_plant :=
     snd (enqueue_spot_business_info_bulk_upsert parse_infos fresh now content_length stream (signed_in J env t token s) (sv_plant s))\<rparr>)"
| claim: "claim_next_job now locked (pt_jobs (sv_plant s)) = (Some claimed, jobs) \<Longrightarrow>
     service_step J env s (s\<lparr>sv_plant := (sv_plant s)\<lparr>pt_jobs := jobs\<rparr>, sv_busy := j_uid claimed # sv_busy s\<rparr>)"
| work: "we_settings worker = ee_settings env \<Longrightarrow> we_client worker = ee_client env \<Longrightarrow> we_s3 worker = ee_s3 env \<Longrightarrow> uid \<in> set (sv_busy s) \<Longrightarrow>
     scalar_one (filter (\<lambda>j. j_uid j = uid) (pt_jobs (sv_plant s))) = Inr job \<Longrightarrow>
     service_step J env s (s\<lparr>sv_plant := process_job worker job (sv_plant s), sv_busy := removeAll uid (sv_busy s)\<rparr>)"
| restart: "service_step J env s (s\<lparr>sv_plant := snd (lifespan_start now (sv_plant s)), sv_hub := Map.empty, sv_busy := []\<rparr>)"
| decay: "service_step J env s (with_world (snd (decay_main (ee_client env) now (world_of s))) s)"
| local_load: "service_step J env s (with_world (snd (upload_main environ load_env csv (world_of s))) s)"
| expiry: "service_step J env s (with_world ((world_of s)\<lparr>redis := r\<rparr>) s)"

inductive_cases service_stepE: "service_step J env s s'"

section \<open>Constraints\<close>

record ('r, 'b) foreign_key =
  fk_table :: string
  fk_column :: string
  fk_target :: string
  fk_values :: "('r, 'b) plant \<Rightarrow> uid list"
  fk_keys :: "('r, 'b) plant \<Rightarrow> uid list"

definition row_refers ::
    "string \<Rightarrow> string \<Rightarrow> ('r world \<Rightarrow> 'x list) \<Rightarrow> ('x \<Rightarrow> uid option) \<Rightarrow> string \<Rightarrow> ('r world \<Rightarrow> 'y list) \<Rightarrow> ('y \<Rightarrow> uid)
       \<Rightarrow> ('r, 'b) foreign_key" where
  "row_refers table column_name rows pointer target target_rows key =
     \<lparr>fk_table = table, fk_column = column_name, fk_target = target,
      fk_values = (\<lambda>p. List.map_filter pointer (rows (pt_world p))),
      fk_keys = (\<lambda>p. map key (target_rows (pt_world p)))\<rparr>"

definition foreign_keys :: "('r, 'b) foreign_key list" where
  "foreign_keys =
     [row_refers ''users'' ''referred_by_uid'' users u_referred_by_uid ''users'' users u_uid,
      row_refers ''spots'' ''assigned_to_uid'' spots s_assigned_to_uid ''users'' users u_uid,
      row_refers ''spot_images'' ''spot_uid'' spot_images (Some \<circ> si_spot_uid) ''spots'' spots s_uid,
      row_refers ''spot_business_info'' ''spot_uid'' business_infos (Some \<circ> bi_spot_uid) ''spots'' spots s_uid,
      row_refers ''spot_group_members'' ''group_uid'' group_members (Some \<circ> gm_group_uid) ''spot_groups'' spot_groups g_uid,
      row_refers ''spot_group_members'' ''user_uid'' group_members (Some \<circ> gm_user_uid) ''users'' users u_uid,
      row_refers ''spot_group_members'' ''invited_by_uid'' group_members gm_invited_by_uid ''users'' users u_uid,
      row_refers ''spot_group_spots'' ''group_uid'' group_spots (Some \<circ> gs_group_uid) ''spot_groups'' spot_groups g_uid,
      row_refers ''spot_group_spots'' ''spot_uid'' group_spots (Some \<circ> gs_spot_uid) ''spots'' spots s_uid,
      row_refers ''spot_group_spots'' ''added_by_uid'' group_spots (Some \<circ> gs_added_by_uid) ''users'' users u_uid,
      row_refers ''invites'' ''inviter_uid'' invites (Some \<circ> iv_inviter_uid) ''users'' users u_uid,
      row_refers ''invites'' ''group_uid'' invites iv_group_uid ''spot_groups'' spot_groups g_uid,
      row_refers ''invites'' ''accepted_by_uid'' invites iv_accepted_by_uid ''users'' users u_uid,
      row_refers ''spot_reviews'' ''spot_uid'' spot_reviews (Some \<circ> rv_spot_uid) ''spots'' spots s_uid,
      row_refers ''spot_reviews'' ''user_id'' spot_reviews (Some \<circ> rv_user_id) ''users'' users u_uid,
      row_refers ''spot_review_reports'' ''review_uid'' review_reports (Some \<circ> rr_review_uid) ''spot_reviews'' spot_reviews rv_uid,
      row_refers ''spot_review_reports'' ''reporter_user_uid'' review_reports (Some \<circ> rr_reporter_user_uid) ''users'' users u_uid,
      row_refers ''conversation_participants'' ''conversation_uid'' participants (Some \<circ> cp_conversation_uid)
        ''conversations'' conversations c_uid,
      row_refers ''conversation_participants'' ''user_uid'' participants (Some \<circ> cp_user_uid) ''users'' users u_uid,
      row_refers ''messages'' ''conversation_uid'' messages (Some \<circ> m_conversation_uid) ''conversations'' conversations c_uid,
      row_refers ''messages'' ''sender_uid'' messages (Some \<circ> m_sender_uid) ''users'' users u_uid,
      row_refers ''user_blocks'' ''blocker_uid'' user_blocks (Some \<circ> ub_blocker_uid) ''users'' users u_uid,
      row_refers ''user_blocks'' ''blocked_uid'' user_blocks (Some \<circ> ub_blocked_uid) ''users'' users u_uid,
      \<lparr>fk_table = ''jobs'', fk_column = ''created_by'', fk_target = ''users'',
       fk_values = (\<lambda>p. map j_created_by (pt_jobs p)), fk_keys = (\<lambda>p. map u_uid (users (pt_world p)))\<rparr>]"

text \<open>They are the foreign keys of the classes.\<close>

definition declared_references :: "declared_table \<Rightarrow> (string \<times> string \<times> string) list" where
  "declared_references t =
     concat (map (\<lambda>m. case mc_foreign m of None \<Rightarrow> []
        | Some (target, _) \<Rightarrow> [(dt_name t, col_name (mc_column m), target)]) (dt_columns t))"

lemma foreign_keys_declared:
  "map (\<lambda>k :: ('r, 'b) foreign_key. (fk_table k, fk_column k, fk_target k)) foreign_keys =
     concat (map declared_references metadata)"
proof -
  have "concat (map declared_references metadata) =
    [(''users'', ''referred_by_uid'', ''users''), (''spots'', ''assigned_to_uid'', ''users''),
     (''spot_images'', ''spot_uid'', ''spots''), (''spot_business_info'', ''spot_uid'', ''spots''),
     (''spot_group_members'', ''group_uid'', ''spot_groups''), (''spot_group_members'', ''user_uid'', ''users''),
     (''spot_group_members'', ''invited_by_uid'', ''users''), (''spot_group_spots'', ''group_uid'', ''spot_groups''),
     (''spot_group_spots'', ''spot_uid'', ''spots''), (''spot_group_spots'', ''added_by_uid'', ''users''),
     (''invites'', ''inviter_uid'', ''users''), (''invites'', ''group_uid'', ''spot_groups''),
     (''invites'', ''accepted_by_uid'', ''users''), (''spot_reviews'', ''spot_uid'', ''spots''),
     (''spot_reviews'', ''user_id'', ''users''), (''spot_review_reports'', ''review_uid'', ''spot_reviews''),
     (''spot_review_reports'', ''reporter_user_uid'', ''users''),
     (''conversation_participants'', ''conversation_uid'', ''conversations''),
     (''conversation_participants'', ''user_uid'', ''users''), (''messages'', ''conversation_uid'', ''conversations''),
     (''messages'', ''sender_uid'', ''users''), (''user_blocks'', ''blocker_uid'', ''users''),
     (''user_blocks'', ''blocked_uid'', ''users''), (''jobs'', ''created_by'', ''users'')]"
    by code_simp
  then show ?thesis by (simp add: foreign_keys_def row_refers_def)
qed

record ('r, 'b) table_key =
  tk_table :: string
  tk_columns :: "string list"
  tk_once :: "('r, 'b) plant \<Rightarrow> bool"

definition once :: "string \<Rightarrow> string list \<Rightarrow> ('r world \<Rightarrow> 'x list) \<Rightarrow> ('x \<Rightarrow> 'k) \<Rightarrow> ('r, 'b) table_key" where
  "once table columns rows key =
     \<lparr>tk_table = table, tk_columns = columns, tk_once = (\<lambda>p. distinct (map key (rows (pt_world p))))\<rparr>"

text \<open>
  A row with a null in \<open>source\<close> or \<open>external_id\<close> is not in the index of the two, and a deleted
  review is not in the partial index of \<open>spot_reviews\<close>.
\<close>

definition table_keys :: "('r, 'b) table_key list" where
  "table_keys =
     [once ''users'' [''uid''] users u_uid, once ''users'' [''email''] users u_email,
      once ''users'' [''google_sub''] users u_google_sub, once ''users'' [''nickname''] users u_nickname,
      once ''spots'' [''uid''] spots s_uid,
      once ''spots'' [''source'', ''external_id''] (\<lambda>w. List.map_filter spot_key (spots w)) id,
      once ''spot_images'' [''uid''] spot_images si_uid,
      once ''spot_business_info'' [''uid''] business_infos bi_uid,
      once ''spot_business_info'' [''spot_uid''] business_infos bi_spot_uid,
      once ''spot_field_options'' [''field'', ''code''] field_options (\<lambda>x. (fo_field x, fo_code x)),
      once ''spot_groups'' [''uid''] spot_groups g_uid,
      once ''spot_group_members'' [''group_uid'', ''user_uid''] group_members (\<lambda>x. (gm_group_uid x, gm_user_uid x)),
      once ''spot_group_spots'' [''group_uid'', ''spot_uid''] group_spots (\<lambda>x. (gs_group_uid x, gs_spot_uid x)),
      once ''invites'' [''uid''] invites iv_uid,
      once ''spot_reviews'' [''uid''] spot_reviews rv_uid,
      once ''spot_reviews'' [''spot_uid'', ''user_id''] (\<lambda>w. filter (\<lambda>r. rv_deleted_at r = None) (spot_reviews w))
        (\<lambda>r. (rv_spot_uid r, rv_user_id r)),
      once ''spot_review_reports'' [''uid''] review_reports rr_uid,
      once ''spot_review_reports'' [''review_uid'', ''reporter_user_uid''] review_reports
        (\<lambda>x. (rr_review_uid x, rr_reporter_user_uid x)),
      once ''conversations'' [''uid''] conversations c_uid,
      once ''conversation_participants'' [''conversation_uid'', ''user_uid''] participants
        (\<lambda>x. (cp_conversation_uid x, cp_user_uid x)),
      once ''messages'' [''uid''] messages m_uid,
      once ''user_blocks'' [''blocker_uid'', ''blocked_uid''] user_blocks (\<lambda>x. (ub_blocker_uid x, ub_blocked_uid x)),
      \<lparr>tk_table = ''jobs'', tk_columns = [''uid''], tk_once = (\<lambda>p. distinct (map j_uid (pt_jobs p)))\<rparr>]"

text \<open>They are the keys of the classes; the program never writes the log of the triggers itself.\<close>

lemma table_keys_declared:
  "map (\<lambda>k :: ('r, 'b) table_key. (tk_table k, tk_columns k)) table_keys @ [(''audit_log'', [''id''])] =
     concat (map (\<lambda>(t, ks). map (Pair t) ks) (map (\<lambda>t. (dt_name t, unique_keys t)) metadata))"
  unfolding keys_of_tables by (simp add: table_keys_def once_def)

definition constraints_hold :: "('r, 'b) plant \<Rightarrow> bool" where
  "constraints_hold p \<longleftrightarrow>
     (\<forall>k \<in> set (foreign_keys :: ('r, 'b) foreign_key list). set (fk_values k p) \<subseteq> set (fk_keys k p))
   \<and> (\<forall>k \<in> set (table_keys :: ('r, 'b) table_key list). tk_once k p)"

section \<open>What every step keeps\<close>

definition service_ok :: "('r, 'b) service \<Rightarrow> bool" where
  "service_ok s \<longleftrightarrow> intact (j_created_by ` set (pt_jobs (sv_plant s))) (world_of s)
     \<and> unique_key j_uid (pt_jobs (sv_plant s))"

lemma service_ok_world: "service_ok s \<Longrightarrow> (\<And>A. intact A (world_of s) \<Longrightarrow> intact A w) \<Longrightarrow> service_ok (with_world w s)"
  by (simp add: service_ok_def with_world_def)

lemma service_ok_live: "service_ok s \<Longrightarrow> (\<And>A. intact A (world_of s) \<Longrightarrow> intact A (db l)) \<Longrightarrow> service_ok (with_live l s)"
  by (simp add: service_ok_def with_live_def with_world_def)

lemma db_live_of [simp]: "db (live_of s) = world_of s"
  by (simp add: live_of_def)

lemma current_user_known: "known (get_current_user J cfg now token w) w"
  by (auto simp: known_def get_current_user_def bindE_Inr_iff dest!: get_user_by_id_found
      split: option.splits if_splits)

lemma visitor_known: "known (login_required (get_current_user_optional J cfg now token w)) w"
  by (simp add: login_required_current current_user_known)

lemma intact_fewer: "intact A w \<Longrightarrow> B \<subseteq> A \<Longrightarrow> intact B w"
  by (auto simp: intact_def references_ok_def)

text \<open>Reads fill the cache and count requests, no more.\<close>

lemma intact_served: "intact A w \<Longrightarrow> intact A (snd (serve_cached client key ttl answer w))"
  unfolding serve_cached_def by (auto intro!: intact_check split: option.split)

lemma intact_explore:
  assumes "intact A w"
  shows "intact A (snd (list_spots_endpoint env visitor host q category region_province bbox cursor limit w))"
    and "intact A (snd (list_spots_for_map env visitor host q category region_province bbox limit w))"
    and "intact A (snd (get_spot env uid w))"
  using assms unfolding list_spots_endpoint_def list_spots_for_map_def get_spot_def
  by (auto intro!: intact_bind intact_check intact_rate_limited intact_served)

text \<open>The queue.\<close>

lemma service_ok_jobs:
  assumes "service_ok s" and "j_created_by ` set jobs \<subseteq> j_created_by ` set (pt_jobs (sv_plant s)) \<union> user_uids (world_of s)"
    and "unique_key j_uid jobs"
  shows "service_ok (s\<lparr>sv_plant := (sv_plant s)\<lparr>pt_jobs := jobs\<rparr>\<rparr>)"
proof -
  have "references_ok (j_created_by ` set (pt_jobs (sv_plant s))) (world_of s)" "keys_ok (world_of s)"
    using assms(1) by (simp_all add: service_ok_def intact_def)
  moreover from this(1) have "j_created_by ` set jobs \<subseteq> user_uids (world_of s)"
    using assms(2) by (auto simp: references_ok_def)
  ultimately show ?thesis using assms(3) by (simp add: service_ok_def intact_def references_ok_def)
qed

lemma service_ok_enqueue:
  assumes ok: "service_ok s" and staff: "u_uid staff \<in> user_uids (world_of s)"
  shows "service_ok (s\<lparr>sv_plant := snd (enqueue fresh now type payload staff (sv_plant s))\<rparr>)"
proof -
  have u: "unique_key j_uid (pt_jobs (sv_plant s))" using ok by (simp add: service_ok_def)
  have "service_ok (s\<lparr>sv_plant := (sv_plant s)\<lparr>pt_jobs := jobs\<rparr>\<rparr>)"
    if "insert_row j_uid job (pt_jobs (sv_plant s)) = Some jobs" "j_created_by job = u_uid staff" for job jobs
  proof (rule service_ok_jobs [OF ok _ unique_key_insert_row [OF u that(1)]])
    show "j_created_by ` set jobs \<subseteq> j_created_by ` set (pt_jobs (sv_plant s)) \<union> user_uids (world_of s)"
      using that staff by (auto simp: insert_row_def split: if_splits)
  qed
  with ok show ?thesis by (auto simp: enqueue_def Let_def split: option.split)
qed

lemma service_ok_saved_jobs:
  assumes ok: "service_ok s" and job: "job \<in> set (pt_jobs (sv_plant s))"
    and same: "j_uid job' = j_uid job" "j_created_by job' = j_created_by job"
  shows "service_ok (s\<lparr>sv_plant := (sv_plant s)\<lparr>pt_jobs := store_job job' (pt_jobs (sv_plant s))\<rparr>\<rparr>)"
proof (rule service_ok_jobs [OF ok])
  show "j_created_by ` set (store_job job' (pt_jobs (sv_plant s))) \<subseteq> j_created_by ` set (pt_jobs (sv_plant s)) \<union> user_uids (world_of s)"
    using job same by (auto simp: store_job_def update_where_def split: if_splits)
  show "unique_key j_uid (store_job job' (pt_jobs (sv_plant s)))"
    using ok same unfolding store_job_def service_ok_def by (intro unique_key_update_where) simp_all
qed

lemma handler_intact:
  assumes "intact A w" and "map_of HANDLERS type = Some handler" and "handler env payload (w, b) = (outcome, w', b')"
  shows "intact A w'"
  using assms intact_bulk_spots [OF assms(1)] intact_bulk_infos [OF assms(1)]
  by (auto simp: HANDLERS_def spots_handler_def business_handler_def db_dump_handler_def raise_def Let_def
      split: if_splits job_payload.splits prod.splits sum.splits) (metis snd_conv)+

lemma service_ok_process:
  assumes ok: "service_ok s" and job: "job \<in> set (pt_jobs (sv_plant s))"
  shows "service_ok (s\<lparr>sv_plant := process_job env job (sv_plant s)\<rparr>)"
proof (cases "map_of HANDLERS (j_type job) :: ('a, 'b) job_handler option")
  case None
  then show ?thesis using service_ok_saved_jobs [OF ok job] by (simp add: process_job_def)
next
  case (Some handler)
  obtain outcome w b where run: "handler env (j_payload job) (world_of s, pt_bucket (sv_plant s)) = (outcome, w, b)"
    by (metis prod_cases3)
  let ?done = "case outcome of Inr result \<Rightarrow> job\<lparr>j_status := Job_SUCCEEDED, j_result := Some result\<rparr>
    | Inl exc \<Rightarrow> job\<lparr>j_status := Job_FAILED, j_error := Some (sanitize_exc_message exc 500)\<rparr>"
  let ?jobs = "store_job (?done\<lparr>j_finished_at := Some (we_now env)\<rparr>) (pt_jobs (sv_plant s))"
  have same: "j_uid (?done\<lparr>j_finished_at := t\<rparr>) = j_uid job \<and> j_created_by (?done\<lparr>j_finished_at := t\<rparr>) = j_created_by job" for t
    by (simp split: sum.split)
  have saved: "service_ok (s\<lparr>sv_plant := (sv_plant s)\<lparr>pt_jobs := ?jobs\<rparr>\<rparr>)"
    by (rule service_ok_saved_jobs [OF ok job]) (use same in blast)+
  have "intact A w" if "intact A (world_of s)" for A using handler_intact [OF that Some run] .
  then have "service_ok (with_world w (s\<lparr>sv_plant := (sv_plant s)\<lparr>pt_jobs := ?jobs\<rparr>\<rparr>))"
    using saved by (intro service_ok_world) simp_all
  then show ?thesis by (simp add: process_job_def Some run Let_def service_ok_def with_world_def)
qed

lemma claimed_jobs:
  "claim_next_job now locked jobs = (claimed, jobs') \<Longrightarrow> unique_key j_uid jobs \<Longrightarrow>
     j_created_by ` set jobs' \<subseteq> j_created_by ` set jobs \<and> unique_key j_uid jobs'"
proof (cases "take 1 (sort_key j_created_at (filter (\<lambda>j. is_pending j \<and> \<not> locked (j_uid j)) jobs))")
  case (Cons job rest)
  assume claim: "claim_next_job now locked jobs = (claimed, jobs')" and u: "unique_key j_uid jobs"
  have "job \<in> set (take 1 (sort_key j_created_at (filter (\<lambda>j. is_pending j \<and> \<not> locked (j_uid j)) jobs)))"
    by (simp only: Cons list.set_intros)
  then have "job \<in> set jobs" by (auto dest: in_set_takeD)
  moreover have "jobs' = update_where (\<lambda>j. j_uid j = j_uid job) (\<lambda>_. job\<lparr>j_status := Job_RUNNING, j_started_at := Some now\<rparr>) jobs"
    using claim Cons by (simp add: claim_next_job_def Let_def)
  ultimately show ?thesis
    using unique_key_save [OF u, of "job\<lparr>j_status := Job_RUNNING, j_started_at := Some now\<rparr>" job]
    by (auto simp: update_where_def)
qed (simp add: claim_next_job_def)

lemma service_ok_queued:
  assumes ok: "service_ok s" and caller: "known caller (world_of s)"
  shows "service_ok (s\<lparr>sv_plant := snd (enqueue_db_dump fresh now caller (sv_plant s))\<rparr>)"
    and "service_ok (s\<lparr>sv_plant := snd (enqueue_spots_bulk_upsert parse_spots fresh now content_length stream caller (sv_plant s))\<rparr>)"
    and "service_ok (s\<lparr>sv_plant :=
      snd (enqueue_spot_business_info_bulk_upsert parse_infos fresh now content_length stream caller (sv_plant s))\<rparr>)"
  using service_ok_enqueue [OF ok known_staff [OF caller]] service_ok_enqueue [OF ok known_role [OF caller]] ok
  unfolding enqueue_db_dump_def enqueue_spots_bulk_upsert_def enqueue_spot_business_info_bulk_upsert_def
  by (auto intro!: check_state [where P = "\<lambda>p. service_ok (s\<lparr>sv_plant := p\<rparr>)"] split: option.split)

lemma service_step_ok:
  assumes step: "service_step J env s s'" and ok: "service_ok s"
  shows "service_ok s'"
  using step
proof (cases rule: service_step.cases)
  case (login race)
  have "intact A (race v)" if "intact A v" for A v
    using login(2) that by (auto intro: intact_create_user)
  then show ?thesis unfolding login(1) by (intro service_ok_world [OF ok] intact_google_login) auto
next
  case (image_added t token staff fresh now uid p answer w b)
  have "intact A w" if "intact A (world_of s)" for A
    using intact_register_image [of A "(world_of s, pt_bucket (sv_plant s))" "ee_client env" "ee_s3 env" "ee_settings env" fresh now uid p] that image_added(3)
    by simp
  then show ?thesis using ok by (simp add: image_added(1) service_ok_def)
next
  case (claim now locked claimed jobs)
  have "service_ok (s\<lparr>sv_plant := (sv_plant s)\<lparr>pt_jobs := jobs\<rparr>\<rparr>)"
    using claimed_jobs [OF claim(2)] ok by (intro service_ok_jobs [OF ok]) (auto simp: service_ok_def)
  then show ?thesis by (simp add: claim(1) service_ok_def)
next
  case (work worker uid job)
  have "job \<in> set (pt_jobs (sv_plant s))"
    using work(6) by (auto simp: scalar_one_def filter_eq_Cons_iff split: list.splits)
  from service_ok_process [OF ok this] show ?thesis by (simp add: work(1) service_ok_def)
next
  case (restart now)
  have "service_ok (s\<lparr>sv_plant := (sv_plant s)\<lparr>pt_jobs := snd (cleanup_orphaned_jobs now (pt_jobs (sv_plant s)))\<rparr>\<rparr>)"
  proof (rule service_ok_jobs [OF ok])
    show "unique_key j_uid (snd (cleanup_orphaned_jobs now (pt_jobs (sv_plant s))))"
      using ok unfolding cleanup_orphaned_jobs_def service_ok_def snd_conv by (intro unique_key_update_same) simp_all
  qed (auto simp: cleanup_orphaned_jobs_def update_where_def)
  then show ?thesis by (simp add: restart lifespan_start_def cleanup_orphaned_jobs_def service_ok_def)
qed (use ok in \<open>auto intro!: service_ok_world service_ok_live
      intact_group_request intact_group_request_admin intact_create_invite_endpoint intact_accept_endpoint
      intact_review_request intact_chat_request intact_explore intact_rate_limited intact_spot_request
      intact_image_endpoints intact_option_endpoints intact_update_info_endpoint intact_user_admin intact_decay
      intact_upload service_ok_queued current_user_known visitor_known simp: intact_ws\<close>)

interpretation whole: step_system "\<lambda>s :: ('r, 'b) service. \<exists>r b. s = service_start r b" "service_step J env" service_ok
  for J :: "'t jwt_lib" and env
proof
  show "\<exists>r b. s = service_start r b \<Longrightarrow> service_ok s" for s :: "('r, 'b) service"
    by (auto simp: service_start_def service_ok_def intact_empty unique_key_def)
qed (blast intro: service_step_ok)

lemma set_map_filter_list: "set (List.map_filter f xs) = {y. \<exists>x \<in> set xs. f x = Some y}"
  by (induction xs) (auto simp: List.map_filter_simps split: option.split)

lemma refers_values: "(\<forall>x \<in> set xs. refers (f x) K) \<Longrightarrow> set (List.map_filter f xs) \<subseteq> K"
  by (auto simp: set_map_filter_list)

lemma map_filter_keyed: "map Some (List.map_filter spot_key rows) = keyed rows"
  by (induction rows) (simp_all add: keyed_def List.map_filter_simps split: option.split)

lemma distinct_spot_keys: "distinct (keyed rows) \<longleftrightarrow> distinct (List.map_filter spot_key rows)"
  unfolding map_filter_keyed [symmetric] by (simp add: distinct_map)

lemma fk_of_row [simp]:
  "set (fk_values (row_refers table n rows f target target_rows key) p) \<subseteq> set (fk_keys (row_refers table n rows f target target_rows key) p)
     \<longleftrightarrow> (\<forall>x \<in> set (rows (pt_world p)). refers (f x) (key ` set (target_rows (pt_world p))))"
  by (force simp: row_refers_def set_map_filter_list refers_def split: option.split)

lemma service_ok_constraints: "service_ok s \<Longrightarrow> constraints_hold (sv_plant s)"
proof -
  assume ok: "service_ok s"
  then have refs: "references_ok (j_created_by ` set (pt_jobs (sv_plant s))) (world_of s)" and keys: "keys_ok (world_of s)"
    by (simp_all add: service_ok_def intact_def)
  have "\<forall>k \<in> set (foreign_keys :: ('a, 'b) foreign_key list). set (fk_values k (sv_plant s)) \<subseteq> set (fk_keys k (sv_plant s))"
    using refs unfolding foreign_keys_def by (simp add: references_ok_def)
  moreover have "\<forall>k \<in> set (table_keys :: ('a, 'b) table_key list). tk_once k (sv_plant s)"
    using keys ok
    by (simp add: table_keys_def once_def keys_ok_def distinct_spot_keys unique_key_def active_rows_def service_ok_def users_ok_def
        option_key_def [abs_def] member_key_def [abs_def] group_spot_key_def [abs_def] review_key_def [abs_def]
        report_key_def [abs_def] participant_key_def [abs_def] block_key_def [abs_def])
  ultimately show ?thesis by (simp add: constraints_hold_def)
qed

text \<open>A first user signs up and founds a group.\<close>

definition founder :: user where
  "founder = new_user ''ann'' 0 ''ann@vivac.kr'' ''ann'' ''happy-tiger-1000'' None None"

lemma founder_sel: "u_is_active founder" "u_uid founder = ''ann''"
  by (simp_all add: founder_def new_user_def)

lemma empty_world_sel:
  "users (empty_world r) = []" "spot_groups (empty_world r) = []" "group_members (empty_world r) = []"
  "(empty_world ())\<lparr>redis := ()\<rparr> = empty_world ()"
  by (simp_all add: empty_world_def)

lemma founder_created:
  "create_user ''ann'' (\<lambda>i. (i, i, i)) 0 ''ann@vivac.kr'' ''ann'' None None (empty_world ()) =
     (Inr founder, (empty_world ())\<lparr>users := [founder]\<rparr>)"
proof -
  have "generate_unique_nickname (\<lambda>i. (i, i, i)) (empty_world ()) = Inr ''happy-tiger-1000''" by code_simp
  then show ?thesis
    by (simp add: create_user_def insert_user_def empty_world_sel founder_def Let_def ret_def)
qed

definition plain_env :: "(unit, unit) explore_env" where
  "plain_env =
     \<lparr>ee_client = None, ee_s3 = sample_s3, ee_settings = sample_settings, ee_fts = flat_fts, ee_codec = some_codec,
      ee_fmt6 = (\<lambda>_. []), ee_py_float = (\<lambda>_. None), ee_sha = id,
      ee_dump_list = (\<lambda>_. ''list''), ee_dump_map = (\<lambda>_. ''map''), ee_dump_detail = sd_title\<rparr>"

definition first_login :: "(unit, unit) service" where
  "first_login = with_world ((empty_world ())\<lparr>users := [founder]\<rparr>) (service_start () ())"

lemma first_login_step: "service_step plain_jwt plain_env (service_start () ()) first_login"
proof -
  let ?s = "service_start () ()"
  let ?run = "google_login (ee_client plain_env) sample_google plain_jwt (ee_settings plain_env) ''ann'' (\<lambda>i. (i, i, i)) 0 (\<lambda>w. w)
      (visiting plain_jwt plain_env 0 None ?s) None ''ann'' None (world_of ?s)"
  have run: "snd ?run = (empty_world ())\<lparr>users := [founder]\<rparr>"
    using founder_created
    by (simp add: service_start_def get_current_user_optional_def google_login_def rate_limited_def rate_limit_def
        rate_limit_actor_def checked_google_info_def verify_google_id_token_def sample_google_def login_account_def
        sign_up_def get_user_by_google_sub_def scalar_one_or_none_def empty_world_sel ret_def bindR_def truthy_def founder_sel
        plain_env_def)
  have "service_step plain_jwt plain_env ?s (with_world (snd ?run) ?s)" by (rule login) simp
  then show ?thesis unfolding run first_login_def .
qed

definition first_group :: "(unit, unit) service" where
  "first_group =
     with_world (run_group_request (ee_s3 plain_env) (ee_settings plain_env) 1 (signed_in plain_jwt plain_env (minutes 1)
        (Some (create_access_token plain_jwt sample_settings 0 ''ann'')) first_login)
        (Create_Group ''g'' ''camps'' None (Some PUBLIC)) (world_of first_login)) first_login"

lemma first_group_step: "service_step plain_jwt plain_env first_login first_group"
  unfolding first_group_def by (rule groups)

lemma first_group_members: "map member_key (group_members (world_of first_group)) = [(''g'', ''ann'')]"
proof -
  have "signed_in plain_jwt plain_env (minutes 1)
      (Some (create_access_token plain_jwt sample_settings 0 ''ann'')) first_login = Inr founder"
    by (simp add: get_current_user_def decode_encoded [OF plain_jwt_ok] get_user_by_id_def scalar_one_or_none_def
        first_login_def with_world_def founder_sel whole_seconds_def minutes_def seconds_def sample_settings_def
        default_settings_def plain_env_def)
  moreover have "valid_group_name ''camps''" by code_simp
  ultimately show ?thesis
    unfolding first_group_def
    by (simp add: first_login_def with_world_def create_group_endpoint_def create_group_def insert_row_def empty_world_sel
        member_key_def founder_sel ret_def bindR_def Let_def)
qed

lemma first_group_reached: "(service_step plain_jwt plain_env)\<^sup>*\<^sup>* (service_start () ()) first_group"
  using first_login_step first_group_step by (meson converse_rtranclp_into_rtranclp rtranclp.rtrancl_refl)

text \<open>
  C1: The database is consistent.  From the empty database, however requests of any kind, logins
  racing each other, runs of the worker, restarts and scripts follow each other, every foreign key
  the classes declare refers to a row that is there, and every declared key has each value at most once.
\<close>

theorem database_consistent:
  assumes "(service_step J env)\<^sup>*\<^sup>* (service_start r b) s"
  shows "(\<forall>k \<in> set foreign_keys. set (fk_values k (sv_plant s)) \<subseteq> set (fk_keys k (sv_plant s)))
     \<and> (\<forall>k \<in> set table_keys. tk_once k (sv_plant s))"
  using service_ok_constraints [OF whole.inv_reachable [OF _ assms]] by (auto simp: constraints_hold_def)

lemma database_consistent_witness:
  "map member_key (group_members (world_of first_group)) = [(''g'', ''ann'')] \<and> constraints_hold (sv_plant first_group)"
  using database_consistent [OF first_group_reached] first_group_members unfolding constraints_hold_def by blast

section \<open>The machines of the components\<close>

lemma live_of_with_live [simp]: "live_of (with_live l s) = l"
  by (simp add: live_of_def with_live_def with_world_def)

lemma world_of_with [simp]: "world_of (with_world w s) = w" "world_of (with_live l s) = db l"
  by (simp_all add: with_world_def with_live_def)

lemma social_handler:
  assumes "map_of HANDLERS type = Some handler" and "handler env payload (w, b) = (outcome, w', b')"
  shows "social_tables w' = social_tables w"
proof -
  have "social_tables v = social_tables w" if "spots_bulk_upsert_handler client fresh now request w = (x, v)" for client fresh now request x v
    using that social_bulk(1) by (metis snd_conv)
  moreover have "social_tables v = social_tables w" if "spot_business_info_bulk_upsert_handler fresh now request w = (x, v)" for fresh now request x v
    using that social_bulk(2) by (metis snd_conv)
  ultimately show ?thesis
    using assms
    by (auto simp: HANDLERS_def spots_handler_def business_handler_def db_dump_handler_def raise_def Let_def
        split: if_splits job_payload.splits prod.splits sum.splits)
qed

lemma social_process [simp]: "social_tables (pt_world (process_job env job p)) = social_tables (pt_world p)"
  by (auto simp: process_job_def Let_def split: option.split prod.split dest: social_handler)

lemma enqueue_world [simp]:
  "pt_world (snd (enqueue_db_dump fresh now caller p)) = pt_world p"
  "pt_world (snd (enqueue_spots_bulk_upsert parse_spots fresh now content_length stream caller p)) = pt_world p"
  "pt_world (snd (enqueue_spot_business_info_bulk_upsert parse_infos fresh now content_length stream caller p)) = pt_world p"
  unfolding enqueue_db_dump_def enqueue_spots_bulk_upsert_def enqueue_spot_business_info_bulk_upsert_def
  by (auto simp: enqueue_def Let_def intro!: check_state [where P = "\<lambda>q. pt_world q = pt_world p"] split: option.split)

lemma group_run_same: "group_tables w' = group_tables w \<Longrightarrow> (group_step s3 cfg)\<^sup>*\<^sup>* w w'"
  by (blast intro: group_step.elsewhere)

lemma service_group_step:
  assumes "service_step J env s s'"
  shows "(group_step (ee_s3 env) (ee_settings env))\<^sup>*\<^sup>* (world_of s) (world_of s')"
  using assms
proof (cases rule: service_step.cases)
  case (login race rival draws' now' email sub name picture google fresh draws now t token host id_token invite_uid)
  have race: "social_tables (race v) = social_tables v" for v using login(2) by auto
  obtain v where v: "social_tables v = social_tables (world_of s)"
      and run: "world_of s' = v \<or> (\<exists>k u. world_of s' = snd (consume_invite_for_signup now k u v))"
    unfolding login(1) world_of_with by (rule login_tables [OF race])
  have "(group_step (ee_s3 env) (ee_settings env))\<^sup>*\<^sup>* (world_of s) v" by (rule group_run_same [OF social_group [OF v]])
  with run show ?thesis by (metis group_step.signup rtranclp.rtrancl_into_rtrancl)
next
  case (groups now t token group_request)
  then show ?thesis by (auto intro: group_step.app)
next
  case (console_groups now t token group_request)
  then show ?thesis by (auto intro: group_step.console)
next
  case (accept now t token uid)
  then show ?thesis by (auto intro: group_step.accept)
next
  case (chat alive now t token host chat_request)
  then show ?thesis by (auto intro!: group_run_same)
next
  case (image_added t token staff fresh now uid p answer w b)
  then show ?thesis by (auto intro!: group_run_same social_group dest: social_register_image)
next
  case (work worker uid job)
  then show ?thesis by (auto intro!: group_run_same social_group)
qed (auto intro!: group_run_same social_group simp: lifespan_start_def split: prod.split)


lemma chat_step_same: "chat_tables (db l') = chat_tables (db l) \<Longrightarrow> chat_step J l l'"
  by (rule chat_step.elsewhere) (simp_all add: chat_tables_def)

lemma service_chat_step:
  assumes "service_step J env s s'"
  shows "chat_step J (live_of s) (live_of s')"
  using assms
proof (cases rule: service_step.cases)
  case (login race rival draws' now' email sub name picture google fresh draws now t token host id_token invite_uid)
  have race: "social_tables (race v) = social_tables v" for v using login(2) by auto
  obtain v where v: "social_tables v = social_tables (world_of s)"
      and run: "world_of s' = v \<or> (\<exists>k u. world_of s' = snd (consume_invite_for_signup now k u v))"
    unfolding login(1) world_of_with by (rule login_tables [OF race])
  have "chat_tables (world_of s') = chat_tables (world_of s)" using run social_chat [OF v] by auto
  then show ?thesis by (intro chat_step_same) simp
next
  case (chat alive now t token host chat_request)
  then show ?thesis by (auto intro: chat_step.request)
next
  case (socket now token' websocket)
  then show ?thesis by (auto intro: chat_step.socket)
next
  case (image_added t token staff fresh now uid p answer w b)
  then show ?thesis by (auto intro!: chat_step_same social_chat dest: social_register_image)
next
  case (groups now t token group_request)
  then show ?thesis by (auto intro!: chat_step_same)
next
  case (console_groups now t token group_request)
  then show ?thesis by (auto intro!: chat_step_same)
next
  case (accept now t token uid)
  then show ?thesis by (auto intro!: chat_step_same)
qed (auto intro!: chat_step_same social_chat simp: lifespan_start_def split: prod.split)

lemma job_step_world: "job_step (p, busy) (p\<lparr>pt_world := w\<rparr>, busy)"
  using job_step.elsewhere [where p = p and busy = busy and w = w and b = "pt_bucket p"] by simp

lemma job_step_same: "job_step (p, busy) (p, busy)"
  using job_step_world [of p busy "pt_world p"] by simp

lemma service_job_step:
  assumes "service_step J env s s'"
  shows "job_step (sv_plant s, sv_busy s) (sv_plant s', sv_busy s')"
  using assms
proof (cases rule: service_step.cases)
  case (restart now)
  then show ?thesis using job_step.restart [of "sv_plant s" "sv_busy s" now]
    by (cases "cleanup_orphaned_jobs now (pt_jobs (sv_plant s))") (simp add: lifespan_start_def)
qed (auto simp: with_world_def with_live_def intro: job_step_world job_step_same job_step.intros)

lemma runs_of_machines:
  assumes "(service_step J env)\<^sup>*\<^sup>* (service_start r b) s"
  shows "(group_step (ee_s3 env) (ee_settings env))\<^sup>*\<^sup>* (empty_world r) (world_of s)"
    and "(chat_step J)\<^sup>*\<^sup>* (live_of (service_start r b)) (live_of s)"
    and "job_step\<^sup>*\<^sup>* (sv_plant (service_start r b), []) (sv_plant s, sv_busy s)"
  using assms
proof (induction rule: rtranclp_induct)
  case base
  {
    case 1 show ?case by (simp add: service_start_def)
  next
    case 2 show ?case by simp
  next
    case 3 show ?case by (simp add: service_start_def)
  }
next
  case (step s s')
  {
    case 1 show ?case using step.IH(1) service_group_step [OF step.hyps(2)] by (rule rtranclp_trans)
  next
    case 2 show ?case using step.IH(2) service_chat_step [OF step.hyps(2)] by (rule rtranclp.rtrancl_into_rtrancl)
  next
    case 3 show ?case using step.IH(3) service_job_step [OF step.hyps(2)] by (rule rtranclp.rtrancl_into_rtrancl)
  }
qed

text \<open>
  C3: The machines of the components contain the program.  Whatever the whole program does from the
  empty database, each component sees a run of its own machine: the tables of groups change
  only by requests about groups, accepted invites and sign-ups, the tables of conversations only by
  the requests about them, and the queue only by the enqueueing endpoints, the worker and a
  restart.  So what is proved of every run of these machines holds of the program.
\<close>

theorem program_runs_its_machines:
  assumes "(service_step J env)\<^sup>*\<^sup>* (service_start r b) s"
  shows "(group_step (ee_s3 env) (ee_settings env))\<^sup>*\<^sup>* (empty_world r) (world_of s)
     \<and> (chat_step J)\<^sup>*\<^sup>* (live_of (service_start r b)) (live_of s)
     \<and> job_step\<^sup>*\<^sup>* (sv_plant (service_start r b), []) (sv_plant s, sv_busy s)"
  using runs_of_machines [OF assms] by blast

lemma program_runs_its_machines_witness:
  "(group_step sample_s3 sample_settings)\<^sup>*\<^sup>* (empty_world ()) (world_of first_group)
   \<and> map member_key (group_members (world_of first_group)) = [(''g'', ''ann'')]"
  using program_runs_its_machines [OF first_group_reached] first_group_members by (simp add: plain_env_def)

text \<open>Their laws hold in every state of the program; several theorems take one of them as a hypothesis.\<close>

lemma laws_always_hold:
  assumes "(service_step J env)\<^sup>*\<^sup>* (service_start r b) s"
  shows "users_ok (users (world_of s))" and "catalog_ok (world_of s)" and "infos_ok (world_of s)"
    and "groups_ok (world_of s)" and "conversations_ok (world_of s)" and "jobs_ok (sv_plant s, sv_busy s)"
proof -
  have keys: "keys_ok (world_of s)"
    using whole.inv_reachable [OF _ assms] by (auto simp: service_ok_def intact_def)
  then show "users_ok (users (world_of s))" "catalog_ok (world_of s)" "infos_ok (world_of s)"
    by (simp_all add: keys_ok_def catalog_ok_def infos_ok_def)
  note runs = runs_of_machines [OF assms]
  show "groups_ok (world_of s)" using group_run.inv_reachable [OF _ runs(1)] by blast
  show "conversations_ok (world_of s)"
    using chat.inv_reachable [OF _ runs(2)] by (simp add: chat_init_def service_start_def empty_world_def)
  show "jobs_ok (sv_plant s, sv_busy s)"
    using job_run.inv_reachable [OF _ runs(3)] by (simp add: job_start_def service_start_def)
qed

end
